(* ===== verification/Vibe_Prelude.thy ===== *)
theory Vibe_Prelude
  imports Complex_Main "HOL-Library.Word" "HOL-Library.Monad_Syntax"
begin

text \<open>
  Shared vocabulary of the development: the machine integers of the Rust code, panics, I/O
  errors, \<^verbatim>\<open>std::time::Duration\<close>, the big-endian accessors of the \<^verbatim>\<open>bytes\<close> traits the code
  calls, decimal numbers as \<^verbatim>\<open>format!\<close> and \<^verbatim>\<open>parse\<close> treat them, and the generic facts on
  lists, words and reachable states that the component theories use.

  Conventions.
  \<^item> \<^verbatim>\<open>u8\<close>, \<^verbatim>\<open>u16\<close>, \<^verbatim>\<open>u32\<close>, \<^verbatim>\<open>u64\<close> are words of that width.  A \<^verbatim>\<open>usize\<close> that counts
    elements of a collection is a \<^typ>\<open>nat\<close>.
  \<^item> A Rust \<^verbatim>\<open>String\<close> is the list of its UTF-8 bytes, written as an Isabelle \<^typ>\<open>string\<close>
    (an Isabelle \<^typ>\<open>char\<close> is one byte), so that \<^verbatim>\<open>len()\<close> is \<^const>\<open>length\<close>.
  \<^item> A computation that may panic has type \<open>'a exec\<close>; \<^const>\<open>None\<close> is the panic.
  \<^item> A \<^verbatim>\<open>std::io::Result<T>\<close> is a sum with the error on the left.
\<close>

section \<open>Lemma collections\<close>

named_theorems wire_simps \<open>evaluation of readers on the output of the matching writers\<close>
named_theorems utf8_intros \<open>introduction rules for well-formed UTF-8\<close>
named_theorems panic_free \<open>sufficient conditions for a computation not to panic\<close>

section \<open>Machine integers, strings, panics\<close>

type_synonym u8 = "8 word"
type_synonym u16 = "16 word"
type_synonym u32 = "32 word"
type_synonym u64 = "64 word"

type_synonym bytes = "u8 list"

text \<open>A Rust \<^verbatim>\<open>char\<close> is a Unicode scalar value, kept as a \<^verbatim>\<open>u32\<close>.\<close>

type_synonym rchar = u32

text \<open>\<^verbatim>\<open>Ipv4Addr\<close> as the \<^verbatim>\<open>u32\<close> it is built from (\<^verbatim>\<open>Ipv4Addr::from\<close>, network order).\<close>

type_synonym ipv4 = u32

type_synonym 'a exec = "'a option"

text \<open>\<^verbatim>\<open>lms_proto::SLIM_PORT\<close>\<close>

definition SLIM_PORT :: u16 where
  "SLIM_PORT = 3483"

lemma unat_bound: "unat (w :: 'a::len word) < 2 ^ LENGTH('a)"
  by (rule unsigned_less)

definition byte_of :: "char \<Rightarrow> u8" where
  "byte_of c = of_nat (of_char c)"

definition chr_of :: "u8 \<Rightarrow> char" where
  "chr_of b = char_of (unat b)"

definition as_bytes :: "string \<Rightarrow> bytes" where
  "as_bytes s = map byte_of s"

definition of_bytes :: "bytes \<Rightarrow> string" where
  "of_bytes bs = map chr_of bs"

lemma of_char_less_256: "(of_char c :: nat) < 256"
  by (cases c) (auto simp: of_char_def split: bool.splits intro!: le_less_trans [of _ 255])

lemma chr_of_byte_of [simp]: "chr_of (byte_of c) = c"
proof -
  have "unat (of_nat (of_char c) :: u8) = of_char c"
    using of_char_less_256 [of c] by (simp add: unat_of_nat)
  then show ?thesis by (simp add: chr_of_def byte_of_def)
qed

lemma byte_of_chr_of [simp]: "byte_of (chr_of b) = b"
  using unat_bound [of b] by (simp add: chr_of_def byte_of_def)

lemma as_bytes_of_bytes [simp]: "as_bytes (of_bytes bs) = bs"
  by (simp add: as_bytes_def of_bytes_def comp_def)

lemma of_bytes_as_bytes [simp]: "of_bytes (as_bytes s) = s"
  by (simp add: as_bytes_def of_bytes_def comp_def)

lemma length_as_bytes [simp]: "length (as_bytes s) = length s"
  by (simp add: as_bytes_def)

lemma length_of_bytes [simp]: "length (of_bytes bs) = length bs"
  by (simp add: of_bytes_def)

lemma as_bytes_append [simp]: "as_bytes (s @ t) = as_bytes s @ as_bytes t"
  by (simp add: as_bytes_def)

lemma of_bytes_append [simp]: "of_bytes (xs @ ys) = of_bytes xs @ of_bytes ys"
  by (simp add: of_bytes_def)

lemma as_bytes_Nil [simp]: "as_bytes [] = []" and of_bytes_Nil [simp]: "of_bytes [] = []"
  by (simp_all add: as_bytes_def of_bytes_def)

lemma as_bytes_inject [simp]: "as_bytes s = as_bytes t \<longleftrightarrow> s = t"
  by (metis of_bytes_as_bytes)

section \<open>I/O errors\<close>

text \<open>The \<^verbatim>\<open>std::io::ErrorKind\<close> values the code matches on or builds; the others are
  numbered.\<close>

datatype error_kind =
    ConnectionRefused | HostUnreachable | NetworkUnreachable | NetworkDown
  | ConnectionReset | WouldBlock | Interrupted | TimedOut | InvalidData
  | OtherKind nat

text \<open>An \<^verbatim>\<open>io::Error\<close> as its kind and its \<^verbatim>\<open>Display\<close> text.\<close>

datatype io_error = IoError (kind: error_kind) (display: string)

type_synonym 'a io_result = "io_error + 'a"

text \<open>A sequence of calls with \<^verbatim>\<open>?\<close>: the first error, if any.\<close>

fun first_error :: "('e + unit) list \<Rightarrow> 'e option" where
  "first_error [] = None"
| "first_error (Inl e # rs) = Some e"
| "first_error (Inr () # rs) = first_error rs"

text \<open>The result of one \<^verbatim>\<open>Read::read\<close> call: \<open>ReadOk c\<close> is \<^verbatim>\<open>Ok(n)\<close> with the \<open>n\<close> bytes \<open>c\<close>
  stored; \<open>ReadOk []\<close> is \<^verbatim>\<open>Ok(0)\<close>, the end of the source.\<close>

datatype read_result = ReadOk bytes | ReadErr io_error

section \<open>Durations\<close>

text \<open>\<^verbatim>\<open>std::time::Duration\<close>, counted in nanoseconds.\<close>

datatype duration = Duration (as_nanos: nat)

instantiation duration :: linorder
begin

definition less_eq_duration :: "duration \<Rightarrow> duration \<Rightarrow> bool" where
  "less_eq_duration a b \<longleftrightarrow> as_nanos a \<le> as_nanos b"

definition less_duration :: "duration \<Rightarrow> duration \<Rightarrow> bool" where
  "less_duration a b \<longleftrightarrow> as_nanos a < as_nanos b"

instance
  by standard (auto simp: less_eq_duration_def less_duration_def duration.expand)

end

definition duration_zero :: duration where
  "duration_zero = Duration 0"

definition from_millis :: "u64 \<Rightarrow> duration" where
  "from_millis ms = Duration (unat ms * 10 ^ 6)"

definition from_secs :: "u64 \<Rightarrow> duration" where
  "from_secs s = Duration (unat s * 10 ^ 9)"

definition as_millis :: "duration \<Rightarrow> nat" where
  "as_millis d = as_nanos d div 10 ^ 6"

definition as_secs :: "duration \<Rightarrow> nat" where
  "as_secs d = as_nanos d div 10 ^ 9"

definition duration_saturating_sub :: "duration \<Rightarrow> duration \<Rightarrow> duration" where
  "duration_saturating_sub a b = Duration (as_nanos a - as_nanos b)"

definition duration_is_zero :: "duration \<Rightarrow> bool" where
  "duration_is_zero d \<longleftrightarrow> as_nanos d = 0"

text \<open>\<^verbatim>\<open>as_millis() as u32\<close> truncates; \<^verbatim>\<open>as_millis().try_into().unwrap_or_default()\<close> gives 0
  when the value does not fit.\<close>

definition millis_as_u32 :: "duration \<Rightarrow> u32" where
  "millis_as_u32 d = of_nat (as_millis d)"

definition secs_as_u32 :: "duration \<Rightarrow> u32" where
  "secs_as_u32 d = of_nat (as_secs d)"

definition millis_try_u32 :: "duration \<Rightarrow> u32" where
  "millis_try_u32 d = (if as_millis d < 2 ^ 32 then of_nat (as_millis d) else 0)"

lemma as_millis_from_millis [simp]: "as_millis (from_millis ms) = unat ms"
  by (simp add: as_millis_def from_millis_def)

lemma as_secs_le_as_millis: "as_secs d * 1000 \<le> as_millis d"
proof -
  have "as_nanos d div 10 ^ 9 = as_nanos d div 10 ^ 6 div 1000"
    by (simp add: div_mult2_eq [symmetric])
  then show ?thesis by (simp add: as_secs_def as_millis_def)
qed

lemma min_duration: "min (Duration a) (Duration b) = Duration (min a b)"
  by (simp add: min_def less_eq_duration_def)

lemma Duration_le [simp]: "Duration a \<le> Duration b \<longleftrightarrow> a \<le> b"
  by (simp add: less_eq_duration_def)

lemma Duration_less [simp]: "Duration a < Duration b \<longleftrightarrow> a < b"
  by (simp add: less_duration_def)

section \<open>Big-endian integers on the wire\<close>

primrec be_bytes :: "nat \<Rightarrow> nat \<Rightarrow> bytes" where
  "be_bytes 0 v = []"
| "be_bytes (Suc n) v = be_bytes n (v div 256) @ [of_nat v]"

definition be_val :: "bytes \<Rightarrow> nat" where
  "be_val bs = foldl (\<lambda>a b. a * 256 + unat b) 0 bs"

lemma be_val_Nil [simp]: "be_val [] = 0"
  by (simp add: be_val_def)

lemma be_val_snoc [simp]: "be_val (bs @ [b]) = be_val bs * 256 + unat b"
  by (simp add: be_val_def)

lemma length_be_bytes [simp]: "length (be_bytes n v) = n"
  by (induction n arbitrary: v) auto

lemma be_val_be_bytes: "be_val (be_bytes n v) = v mod 256 ^ n"
proof (induction n arbitrary: v)
  case 0
  then show ?case by simp
next
  case (Suc n)
  have "unat (of_nat v :: u8) = v mod 256" by (simp add: unat_of_nat)
  with Suc show ?case by (simp add: mod_mult2_eq mult.commute)
qed

lemma be_val_less: "be_val bs < 256 ^ length bs"
proof (induction bs rule: rev_induct)
  case Nil
  then show ?case by simp
next
  case (snoc b bs)
  then show ?case using unat_bound [of b] by simp
qed

lemma be_bytes_be_val: "be_bytes (length bs) (be_val bs) = bs"
proof (induction bs rule: rev_induct)
  case Nil
  then show ?case by simp
next
  case (snoc b bs)
  have "(be_val bs * 256 + unat b) div 256 = be_val bs"
    using unat_bound [of b] by simp
  moreover have "(of_nat (be_val bs * 256 + unat b) :: u8) = b"
  proof -
    have "(of_nat (be_val bs * 256 + unat b) :: u8) = of_nat (be_val bs) * 256 + b"
      by simp
    also have "(256 :: u8) = 0" by simp
    finally show ?thesis by simp
  qed
  ultimately show ?case using snoc by simp
qed

lemma be_bytes_numerals:
  "be_bytes 2 v = [of_nat (v div 256), of_nat v]"
  "be_bytes 4 v = [of_nat (v div 256 div 256 div 256), of_nat (v div 256 div 256), of_nat (v div 256), of_nat v]"
proof -
  have "(2 :: nat) = Suc (Suc 0)" "(4 :: nat) = Suc (Suc (Suc (Suc 0)))" by simp_all
  then show "be_bytes 2 v = [of_nat (v div 256), of_nat v]"
    "be_bytes 4 v = [of_nat (v div 256 div 256 div 256), of_nat (v div 256 div 256), of_nat (v div 256), of_nat v]"
    by (simp_all only: be_bytes.simps append.simps)
qed

text \<open>\<^verbatim>\<open>BufMut::put_u8 / put_u16 / put_u32 / put_u64\<close>.\<close>

definition put_u8 :: "u8 \<Rightarrow> bytes" where
  "put_u8 b = [b]"

definition put_u16 :: "u16 \<Rightarrow> bytes" where
  "put_u16 w = be_bytes 2 (unat w)"

definition put_u32 :: "u32 \<Rightarrow> bytes" where
  "put_u32 w = be_bytes 4 (unat w)"

definition put_u64 :: "u64 \<Rightarrow> bytes" where
  "put_u64 w = be_bytes 8 (unat w)"

lemma length_put [simp]:
  "length (put_u8 b) = 1" "length (put_u16 h) = 2"
  "length (put_u32 w) = 4" "length (put_u64 d) = 8"
  by (simp_all add: put_u8_def put_u16_def put_u32_def put_u64_def)

text \<open>\<^verbatim>\<open>BytesMut::split_to\<close>, \<^verbatim>\<open>Buf::advance\<close>, \<^verbatim>\<open>Buf::get_u16\<close> and \<^verbatim>\<open>Buf::get_u32\<close>: each
  panics when the buffer is too short.\<close>

definition split_to :: "nat \<Rightarrow> bytes \<Rightarrow> (bytes \<times> bytes) exec" where
  "split_to n buf = (if n \<le> length buf then Some (take n buf, drop n buf) else None)"

definition advance :: "nat \<Rightarrow> bytes \<Rightarrow> bytes exec" where
  "advance n buf = (if n \<le> length buf then Some (drop n buf) else None)"

definition get_u16 :: "bytes \<Rightarrow> (u16 \<times> bytes) exec" where
  "get_u16 buf = (if 2 \<le> length buf then Some (of_nat (be_val (take 2 buf)), drop 2 buf) else None)"

definition get_u32 :: "bytes \<Rightarrow> (u32 \<times> bytes) exec" where
  "get_u32 buf = (if 4 \<le> length buf then Some (of_nat (be_val (take 4 buf)), drop 4 buf) else None)"

definition get_u64 :: "bytes \<Rightarrow> (u64 \<times> bytes) exec" where
  "get_u64 buf = (if 8 \<le> length buf then Some (of_nat (be_val (take 8 buf)), drop 8 buf) else None)"

text \<open>\<^verbatim>\<open>buf.split_to(1)[0]\<close>\<close>

definition split_byte :: "bytes \<Rightarrow> (u8 \<times> bytes) exec" where
  "split_byte buf = (case buf of [] \<Rightarrow> None | b # rest \<Rightarrow> Some (b, rest))"

lemma split_to_append [wire_simps]:
  "length xs = n \<Longrightarrow> split_to n (xs @ rest) = Some (xs, rest)"
  by (simp add: split_to_def)

lemma advance_append [wire_simps]: "length xs = n \<Longrightarrow> advance n (xs @ rest) = Some rest"
  by (simp add: advance_def)

lemma split_byte_Cons [wire_simps]: "split_byte (b # rest) = Some (b, rest)"
  by (simp add: split_byte_def)

lemma split_byte_put_u8 [wire_simps]: "split_byte (put_u8 b @ rest) = Some (b, rest)"
  by (simp add: split_byte_def put_u8_def)

lemma get_put_u16 [wire_simps]: "get_u16 (put_u16 w @ rest) = Some (w, rest)"
  using unat_bound [of w] by (simp add: get_u16_def put_u16_def be_val_be_bytes)

lemma get_put_u32 [wire_simps]: "get_u32 (put_u32 w @ rest) = Some (w, rest)"
  using unat_bound [of w] by (simp add: get_u32_def put_u32_def be_val_be_bytes)

lemma get_put_u64 [wire_simps]: "get_u64 (put_u64 w @ rest) = Some (w, rest)"
  using unat_bound [of w] by (simp add: get_u64_def put_u64_def be_val_be_bytes)

lemmas get_put_end [wire_simps] =
  get_put_u16 [where rest = "[]", simplified]
  get_put_u32 [where rest = "[]", simplified]
  get_put_u64 [where rest = "[]", simplified]


section \<open>Wire formats\<close>

text \<open>Reading \<open>n\<close> items one after the other.\<close>

primrec dec_many :: "(bytes \<Rightarrow> ('v \<times> bytes) option) \<Rightarrow> nat \<Rightarrow> bytes \<Rightarrow> ('v list \<times> bytes) option" where
  "dec_many dec 0 b = Some ([], b)"
| "dec_many dec (Suc n) b = do {
     (v, b) \<leftarrow> dec b;
     (vs, b) \<leftarrow> dec_many dec n b;
     Some (v # vs, b)
   }"

text \<open>The contract between a writer and a reader of the same format: the reader finds the end
  of an item by itself and returns what the format keeps of the item (\<open>view\<close>).  It follows that
  a stream of items is read back item by item, and that no item's encoding is a proper prefix of
  another's.\<close>

locale wire_format =
  fixes enc :: "'m \<Rightarrow> bytes"
    and dec :: "bytes \<Rightarrow> ('v \<times> bytes) option"
    and view :: "'m \<Rightarrow> 'v"
    and ok :: "'m \<Rightarrow> bool"
  assumes dec_enc: "ok m \<Longrightarrow> dec (enc m @ rest) = Some (view m, rest)"
begin

lemma dec_stream:
  "list_all ok ms \<Longrightarrow> dec_many dec (length ms) (concat (map enc ms) @ rest) = Some (map view ms, rest)"
  by (induction ms) (simp_all add: dec_enc)

lemma prefix_free:
  assumes "ok m" "ok m'" "enc m @ r = enc m' @ r'"
  shows "view m = view m' \<and> r = r'"
  using dec_enc [OF assms(1), of r] dec_enc [OF assms(2), of r'] assms(3) by simp

end

interpretation u16_be: wire_format put_u16 get_u16 "\<lambda>w. w" "\<lambda>_. True"
  by unfold_locales (simp add: wire_simps)

interpretation u32_be: wire_format put_u32 get_u32 "\<lambda>w. w" "\<lambda>_. True"
  by unfold_locales (simp add: wire_simps)

interpretation u64_be: wire_format put_u64 get_u64 "\<lambda>w. w" "\<lambda>_. True"
  by unfold_locales (simp add: wire_simps)

section \<open>Reachable states\<close>

inductive reach :: "('s \<Rightarrow> bool) \<Rightarrow> ('s \<Rightarrow> 's \<Rightarrow> bool) \<Rightarrow> 's \<Rightarrow> bool"
  for init :: "'s \<Rightarrow> bool" and step :: "'s \<Rightarrow> 's \<Rightarrow> bool" where
  reach_init: "init s \<Longrightarrow> reach init step s"
| reach_step: "reach init step s \<Longrightarrow> step s t \<Longrightarrow> reach init step t"

text \<open>The contract of an inductive invariant.\<close>

locale invariant =
  fixes init :: "'s \<Rightarrow> bool"
    and step :: "'s \<Rightarrow> 's \<Rightarrow> bool"
    and inv :: "'s \<Rightarrow> bool"
  assumes inv_init: "init s \<Longrightarrow> inv s"
    and inv_step: "inv s \<Longrightarrow> step s t \<Longrightarrow> inv t"
begin

lemma reach_inv: "reach init step s \<Longrightarrow> inv s"
  by (induction rule: reach.induct) (auto intro: inv_init inv_step)

end

text \<open>A system that keeps an invariant implements an abstract one: every step of it is a step of the
  abstract system or leaves the abstract state alone.\<close>

locale simulation = invariant init step inv
  for init :: "'s \<Rightarrow> bool" and step :: "'s \<Rightarrow> 's \<Rightarrow> bool" and inv :: "'s \<Rightarrow> bool" +
  fixes ainit :: "'a \<Rightarrow> bool"
    and astep :: "'a \<Rightarrow> 'a \<Rightarrow> bool"
    and abs :: "'s \<Rightarrow> 'a"
  assumes abs_init: "init s \<Longrightarrow> ainit (abs s)"
    and abs_step: "inv s \<Longrightarrow> step s t \<Longrightarrow> abs t = abs s \<or> astep (abs s) (abs t)"
begin

lemma reach_abs: "reach init step s \<Longrightarrow> reach ainit astep (abs s)"
proof (induction rule: reach.induct)
  case (reach_step s t)
  then show ?case using abs_step [OF reach_inv [OF reach_step(1)]] reach.reach_step by metis
qed (rule reach.reach_init, rule abs_init)

lemma step_abs: "reach init step s \<Longrightarrow> step s t \<Longrightarrow> abs t = abs s \<or> astep (abs s) (abs t)"
  using abs_step reach_inv by blast

end

end
