(* ===== verification/Rust_Text.thy ===== *)
theory Rust_Text
  imports Vibe_Prelude
begin

text \<open>
  The text functions of the Rust standard library that the program calls: UTF-8 validation
  (\<^verbatim>\<open>String::from_utf8\<close>), lossy decoding (\<^verbatim>\<open>String::from_utf8_lossy\<close>), pushing a byte as a
  \<^verbatim>\<open>char\<close>, and decimal output of unsigned integers.  The main facts: the well-formed strings
  are closed under concatenation, and each of the three functions only builds well-formed ones.
\<close>

section \<open>UTF-8\<close>

text \<open>Result of looking at the first scalar value of a byte string: its length in bytes, or the
  length of the maximal ill-formed prefix, which the lossy decoder replaces by one U+FFFD.\<close>

datatype utf8_step = Valid nat | Invalid nat

definition is_cont :: "u8 \<Rightarrow> bool" where
  "is_cont b \<longleftrightarrow> 0x80 \<le> b \<and> b \<le> 0xBF"

text \<open>Width announced by a lead byte; 0 for a byte that cannot start a scalar value.\<close>

definition utf8_width :: "u8 \<Rightarrow> nat" where
  "utf8_width b =
     (if b < 0x80 then 1
      else if 0xC2 \<le> b \<and> b \<le> 0xDF then 2
      else if 0xE0 \<le> b \<and> b \<le> 0xEF then 3
      else if 0xF0 \<le> b \<and> b \<le> 0xF4 then 4
      else 0)"

text \<open>The second byte has a narrower range after E0 (overlong), ED (surrogates), F0 (overlong)
  and F4 (above U+10FFFF).\<close>

definition second_ok :: "u8 \<Rightarrow> u8 \<Rightarrow> bool" where
  "second_ok b c =
     (if b = 0xE0 then 0xA0 \<le> c \<and> c \<le> 0xBF
      else if b = 0xED then 0x80 \<le> c \<and> c \<le> 0x9F
      else if b = 0xF0 then 0x90 \<le> c \<and> c \<le> 0xBF
      else if b = 0xF4 then 0x80 \<le> c \<and> c \<le> 0x8F
      else is_cont c)"

definition utf8_next :: "bytes \<Rightarrow> utf8_step" where
  "utf8_next bs =
     (case bs of
        [] \<Rightarrow> Invalid 0
      | b # r1 \<Rightarrow>
          if utf8_width b = 0 then Invalid 1
          else if utf8_width b = 1 then Valid 1
          else (case r1 of
              [] \<Rightarrow> Invalid 1
            | b2 # r2 \<Rightarrow>
                if \<not> second_ok b b2 then Invalid 1
                else if utf8_width b = 2 then Valid 2
                else (case r2 of
                    [] \<Rightarrow> Invalid 2
                  | b3 # r3 \<Rightarrow>
                      if \<not> is_cont b3 then Invalid 2
                      else if utf8_width b = 3 then Valid 3
                      else (case r3 of
                          [] \<Rightarrow> Invalid 3
                        | b4 # _ \<Rightarrow> if is_cont b4 then Valid 4 else Invalid 3))))"

lemma utf8_next_Valid_pos: "utf8_next bs = Valid n \<Longrightarrow> 0 < n \<and> n \<le> length bs"
  by (auto simp: utf8_next_def split: list.splits if_splits)

lemma utf8_next_Invalid_pos: "utf8_next bs = Invalid n \<Longrightarrow> bs \<noteq> [] \<Longrightarrow> 0 < n \<and> n \<le> length bs"
  by (auto simp: utf8_next_def split: list.splits if_splits)

function utf8_valid :: "bytes \<Rightarrow> bool" where
  "utf8_valid bs =
     (if bs = [] then True
      else (case utf8_next bs of Valid n \<Rightarrow> utf8_valid (drop n bs) | Invalid _ \<Rightarrow> False))"
  by pat_completeness auto
termination
  by (relation "measure length") (auto dest!: utf8_next_Valid_pos)

text \<open>The three bytes of U+FFFD.\<close>

definition replacement :: bytes where
  "replacement = [0xEF, 0xBF, 0xBD]"

function utf8_lossy :: "bytes \<Rightarrow> bytes" where
  "utf8_lossy bs =
     (if bs = [] then []
      else (case utf8_next bs of
          Valid n \<Rightarrow> take n bs @ utf8_lossy (drop n bs)
        | Invalid n \<Rightarrow> replacement @ utf8_lossy (drop n bs)))"
  by pat_completeness auto
termination
  by (relation "measure length") (auto dest!: utf8_next_Valid_pos utf8_next_Invalid_pos)

declare utf8_valid.simps [simp del] utf8_lossy.simps [simp del]

definition from_utf8 :: "bytes \<Rightarrow> string option" where
  "from_utf8 bs = (if utf8_valid bs then Some (of_bytes bs) else None)"

definition from_utf8_lossy :: "bytes \<Rightarrow> string" where
  "from_utf8_lossy bs = of_bytes (utf8_lossy bs)"

text \<open>\<^verbatim>\<open>b as char\<close> pushed to a \<^verbatim>\<open>String\<close>: the scalar values 0 to 255, one or two bytes of
  UTF-8.\<close>

definition byte_as_char :: "u8 \<Rightarrow> string" where
  "byte_as_char b =
     of_bytes (if b < 0x80 then [b] else [of_nat (0xC0 + unat b div 64), of_nat (0x80 + unat b mod 64)])"

text \<open>The invariant of Rust's \<^verbatim>\<open>String\<close> type.\<close>

definition is_string :: "string \<Rightarrow> bool" where
  "is_string s \<longleftrightarrow> utf8_valid (as_bytes s)"

lemma utf8_valid_Nil [simp]: "utf8_valid []"
  by (subst utf8_valid.simps) simp

lemma utf8_next_append: "utf8_next bs = Valid n \<Longrightarrow> utf8_next (bs @ ys) = Valid n"
  by (auto simp: utf8_next_def split: list.splits if_splits)

lemma utf8_next_widths: "utf8_next bs = Valid n \<Longrightarrow> n = 1 \<or> n = 2 \<or> n = 3 \<or> n = 4"
  by (auto simp: utf8_next_def split: list.splits if_splits)

lemma utf8_next_take: "utf8_next bs = Valid n \<Longrightarrow> utf8_next (take n bs) = Valid n"
  by (frule utf8_next_widths, elim disjE)
    (auto simp: utf8_next_def numeral_eq_Suc split: list.splits if_splits)

lemma utf8_valid_step:
  "utf8_next bs = Valid n \<Longrightarrow> utf8_valid bs = utf8_valid (drop n bs)"
  using utf8_next_Valid_pos [of bs n] by (subst utf8_valid.simps) auto

lemma utf8_valid_append [utf8_intros]:
  "utf8_valid xs \<Longrightarrow> utf8_valid ys \<Longrightarrow> utf8_valid (xs @ ys)"
proof (induction xs rule: utf8_valid.induct)
  case (1 xs)
  show ?case
  proof (cases "xs = []")
    case False
    with "1.prems"(1) obtain n where n: "utf8_next xs = Valid n" and "utf8_valid (drop n xs)"
      by (subst (asm) utf8_valid.simps) (auto split: utf8_step.splits)
    with "1.IH" "1.prems"(2) False have "utf8_valid (drop n xs @ ys)" by blast
    with n show ?thesis
      using utf8_next_Valid_pos [OF n] utf8_valid_step [OF utf8_next_append [OF n]] by simp
  qed (use "1.prems" in simp)
qed

lemma utf8_valid_take_next: "utf8_next bs = Valid n \<Longrightarrow> utf8_valid (take n bs)"
  using utf8_valid_step [OF utf8_next_take] utf8_next_Valid_pos [of bs n] by simp

lemma utf8_valid_replacement [simp, utf8_intros]: "utf8_valid replacement"
  by (simp add: replacement_def utf8_valid.simps utf8_next_def utf8_width_def second_ok_def
      is_cont_def)

lemma utf8_valid_lossy [simp, utf8_intros]: "utf8_valid (utf8_lossy bs)"
proof (induction bs rule: utf8_lossy.induct)
  case (1 bs)
  then show ?case
    by (subst utf8_lossy.simps)
      (auto split: utf8_step.splits intro!: utf8_valid_append utf8_valid_take_next)
qed

text \<open>Lossy decoding is the identity on well-formed input.\<close>

lemma utf8_lossy_valid: "utf8_valid bs \<Longrightarrow> utf8_lossy bs = bs"
proof (induction bs rule: utf8_lossy.induct)
  case (1 bs)
  show ?case
  proof (cases "bs = []")
    case False
    with "1.prems" obtain n where n: "utf8_next bs = Valid n" and "utf8_valid (drop n bs)"
      by (subst (asm) utf8_valid.simps) (auto split: utf8_step.splits)
    with "1.IH" False have "utf8_lossy (drop n bs) = drop n bs" by blast
    with n False show ?thesis by (subst utf8_lossy.simps) simp
  qed (simp add: utf8_lossy.simps)
qed

text \<open>Lossy decoding to plain ASCII replaced nothing.\<close>

lemma utf8_lossy_ascii: "\<forall>b \<in> set (utf8_lossy bs). b < 0x80 \<Longrightarrow> utf8_lossy bs = bs"
proof (induction bs rule: utf8_lossy.induct)
  case (1 bs)
  show ?case
  proof (cases "utf8_next bs")
    case (Valid n)
    with "1" show ?thesis
      by (cases "bs = []") (simp_all add: utf8_lossy.simps [of bs] utf8_lossy.simps [of "[]"])
  next
    case (Invalid n)
    with "1.prems" show ?thesis
      by (cases "bs = []")
        (simp_all add: utf8_lossy.simps [of bs] utf8_lossy.simps [of "[]"] replacement_def)
  qed
qed

lemma utf8_next_ascii: "b < 0x80 \<Longrightarrow> utf8_next (b # bs) = Valid 1"
  by (simp add: utf8_next_def utf8_width_def)

lemma utf8_valid_ascii [utf8_intros]: "\<forall>b \<in> set bs. b < 0x80 \<Longrightarrow> utf8_valid bs"
  by (induction bs) (auto simp: utf8_valid_step [OF utf8_next_ascii])

lemma utf8_valid_byte_as_char_bytes: "utf8_valid (as_bytes (byte_as_char b))"
proof (cases "b < 0x80")
  case True
  then show ?thesis by (simp add: byte_as_char_def utf8_valid_ascii)
next
  case False
  define lo :: u8 where "lo = of_nat (0x80 + unat b mod 64)"
  define hi :: u8 where "hi = of_nat (0xC0 + unat b div 64)"
  have b: "128 \<le> unat b" "unat b < 256"
    using False unat_bound [of b] by (auto simp: word_less_nat_alt)
  then have q: "2 \<le> unat b div 64" "unat b div 64 \<le> 3" "unat b mod 64 < 64"
    by (simp_all add: div_le_mono [of 128 _ 64, simplified] less_mult_imp_div_less)
  then have "unat hi = 192 + unat b div 64" "unat lo = 128 + unat b mod 64"
    unfolding hi_def lo_def by (subst unat_of_nat, simp)+
  moreover note q
  ultimately have "utf8_width hi = 2" "is_cont lo" "second_ok hi lo"
    by (auto simp: utf8_width_def is_cont_def second_ok_def word_less_nat_alt word_le_nat_alt
        dest!: arg_cong [where f = unat])
  then have "utf8_valid [hi, lo]"
    by (subst utf8_valid.simps) (simp add: utf8_next_def)
  with False show ?thesis by (simp add: byte_as_char_def hi_def lo_def)
qed

lemma is_string_append [utf8_intros]: "is_string s \<Longrightarrow> is_string t \<Longrightarrow> is_string (s @ t)"
  by (simp add: is_string_def utf8_valid_append)

lemma is_string_Nil [simp, utf8_intros]: "is_string []"
  by (simp add: is_string_def)

lemma is_string_byte_as_char [simp, utf8_intros]: "is_string (byte_as_char b)"
  by (simp add: is_string_def utf8_valid_byte_as_char_bytes)

lemma is_string_concat_byte_as_char [utf8_intros]: "is_string (concat (map byte_as_char bs))"
  by (induction bs) (auto intro: utf8_intros)

lemma is_string_from_utf8 [utf8_intros]: "from_utf8 bs = Some s \<Longrightarrow> is_string s"
  by (auto simp: from_utf8_def is_string_def split: if_splits)

lemma is_string_from_utf8_lossy [simp, utf8_intros]: "is_string (from_utf8_lossy bs)"
  by (simp add: from_utf8_lossy_def is_string_def)

lemma from_utf8_as_bytes [wire_simps]: "is_string s \<Longrightarrow> from_utf8 (as_bytes s) = Some s"
  by (simp add: from_utf8_def is_string_def)

lemma from_utf8_lossy_as_bytes [wire_simps]: "is_string s \<Longrightarrow> from_utf8_lossy (as_bytes s) = s"
  by (simp add: from_utf8_lossy_def is_string_def utf8_lossy_valid)

definition is_ascii :: "string \<Rightarrow> bool" where
  "is_ascii s \<longleftrightarrow> (\<forall>c \<in> set s. (of_char c :: nat) < 128)"

lemma is_ascii_is_string [utf8_intros]: "is_ascii s \<Longrightarrow> is_string s"
  unfolding is_string_def is_ascii_def as_bytes_def
  by (rule utf8_valid_ascii) (auto simp: byte_of_def word_less_nat_alt unat_of_nat)

lemma from_utf8_lossy_eq_ascii: "is_ascii s \<Longrightarrow> from_utf8_lossy bs = s \<longleftrightarrow> bs = as_bytes s"
proof -
  assume s: "is_ascii s"
  then have "\<forall>b \<in> set (as_bytes s). b < 0x80"
    by (auto simp: is_ascii_def as_bytes_def byte_of_def word_less_nat_alt unat_of_nat)
  moreover have "from_utf8_lossy bs = s \<longleftrightarrow> utf8_lossy bs = as_bytes s"
    unfolding from_utf8_lossy_def by (metis as_bytes_of_bytes of_bytes_as_bytes)
  ultimately show ?thesis
    using utf8_lossy_ascii [of bs] is_ascii_is_string [OF s] from_utf8_lossy_as_bytes
    by (metis as_bytes_of_bytes from_utf8_lossy_def)
qed

lemma is_ascii_simps [simp]:
  "is_ascii []" "is_ascii (c # s) \<longleftrightarrow> (of_char c :: nat) < 128 \<and> is_ascii s"
  "is_ascii (s @ t) \<longleftrightarrow> is_ascii s \<and> is_ascii t"
  by (auto simp: is_ascii_def)

lemma is_string_ascii_Cons [simp]:
  assumes "(of_char c :: nat) < 128"
  shows "is_string (c # s) \<longleftrightarrow> is_string s"
proof -
  have "byte_of c < 0x80"
    using assms by (simp add: byte_of_def word_less_nat_alt unat_of_nat)
  then show ?thesis
    using utf8_valid_step [OF utf8_next_ascii] by (simp add: is_string_def as_bytes_def)
qed

section \<open>Decimal numbers\<close>

text \<open>\<^verbatim>\<open>Display\<close> of an unsigned integer.\<close>

definition digit_char :: "nat \<Rightarrow> char" where
  "digit_char d = char_of (48 + d)"

fun show_nat :: "nat \<Rightarrow> string" where
  "show_nat n = (if n < 10 then [digit_char n] else show_nat (n div 10) @ [digit_char (n mod 10)])"

declare show_nat.simps [simp del]

text \<open>The value of a character under \<^verbatim>\<open>to_digit(10)\<close>.\<close>

definition digit_val :: "char \<Rightarrow> nat option" where
  "digit_val c = (let n = of_char c :: nat in if 48 \<le> n \<and> n \<le> 57 then Some (n - 48) else None)"

definition is_ascii_digit :: "char \<Rightarrow> bool" where
  "is_ascii_digit c \<longleftrightarrow> digit_val c \<noteq> None"

fun digits_val :: "nat \<Rightarrow> string \<Rightarrow> nat option" where
  "digits_val acc [] = Some acc"
| "digits_val acc (c # cs) =
     (case digit_val c of None \<Rightarrow> None | Some d \<Rightarrow> digits_val (acc * 10 + d) cs)"

lemma digit_val_digit_char [simp]: "d < 10 \<Longrightarrow> digit_val (digit_char d) = Some d"
  by (simp add: digit_val_def digit_char_def Let_def)

lemma digits_val_append:
  "digits_val acc (s @ t) = (case digits_val acc s of None \<Rightarrow> None | Some v \<Rightarrow> digits_val v t)"
  by (induction s arbitrary: acc) (auto split: option.splits)

lemma digits_val_show_nat: "digits_val 0 (show_nat n) = Some n"
proof (induction n rule: show_nat.induct)
  case (1 n)
  then show ?case
    by (subst show_nat.simps) (auto simp: digits_val_append)
qed

lemma show_nat_nonempty [simp]: "show_nat n \<noteq> []"
  by (subst show_nat.simps) simp

lemma show_nat_digits: "c \<in> set (show_nat n) \<Longrightarrow> is_ascii_digit c"
proof (induction n rule: show_nat.induct)
  case (1 n)
  then show ?case
    by (subst (asm) show_nat.simps) (auto simp: is_ascii_digit_def split: if_splits)
qed

lemma is_ascii_digit_ascii: "is_ascii_digit c \<Longrightarrow> (of_char c :: nat) < 128"
  by (auto simp: is_ascii_digit_def digit_val_def Let_def split: if_splits)

lemma is_ascii_show_nat [simp]: "is_ascii (show_nat n)"
  by (auto simp: is_ascii_def dest: show_nat_digits is_ascii_digit_ascii)

lemma is_string_show_nat [simp]: "is_string (show_nat n)"
  by (rule is_ascii_is_string) simp

text \<open>\<^verbatim>\<open>str::parse::<u16>()\<close>: an optional plus sign, at least one digit, no overflow.\<close>

definition parse_u16 :: "string \<Rightarrow> u16 option" where
  "parse_u16 s =
     (let ds = (case s of [] \<Rightarrow> [] | c # cs \<Rightarrow> if c = CHR ''+'' then cs else s)
      in if ds = [] then None
         else case digits_val 0 ds of
             None \<Rightarrow> None
           | Some v \<Rightarrow> if v < 2 ^ 16 then Some (of_nat v) else None)"

lemma not_plus_digit: "is_ascii_digit c \<Longrightarrow> c \<noteq> CHR ''+''"
  by (auto simp: is_ascii_digit_def digit_val_def)

lemma parse_u16_show [wire_simps]: "parse_u16 (show_nat (unat p)) = Some p"
proof -
  obtain c cs where s: "show_nat (unat p) = c # cs"
    by (cases "show_nat (unat p)") auto
  then have "c \<noteq> CHR ''+''"
    using show_nat_digits [of c "unat p"] not_plus_digit by auto
  then show ?thesis
    using s digits_val_show_nat [of "unat p"] unat_bound [of p] by (simp add: parse_u16_def)
qed

section \<open>Joining and splitting\<close>

text \<open>\<^verbatim>\<open>[String]::join\<close>\<close>

fun join :: "string \<Rightarrow> string list \<Rightarrow> string" where
  "join sep [] = []"
| "join sep [s] = s"
| "join sep (s # ss) = s @ sep @ join sep ss"

text \<open>\<^verbatim>\<open>str::split\<close> at a character.\<close>

fun split_on :: "char \<Rightarrow> string \<Rightarrow> string list" where
  "split_on c [] = [[]]"
| "split_on c (x # xs) =
     (if x = c then [] # split_on c xs
      else case split_on c xs of [] \<Rightarrow> [[x]] | t # ts \<Rightarrow> (x # t) # ts)"

lemma split_on_nonempty [simp]: "split_on c s \<noteq> []"
  by (induction s) (auto split: list.splits)

lemma split_on_notin: "c \<notin> set s \<Longrightarrow> split_on c s = [s]"
  by (induction s) auto

lemma split_on_append: "c \<notin> set s \<Longrightarrow> split_on c (s @ c # t) = s # split_on c t"
  by (induction s) auto

lemma split_on_join:
  "ss \<noteq> [] \<Longrightarrow> \<forall>s \<in> set ss. c \<notin> set s \<Longrightarrow> split_on c (join [c] ss) = ss"
  by (induction "[c]" ss rule: join.induct) (auto simp: split_on_notin split_on_append)

text \<open>A separator in one of the joined strings shows as a further piece.\<close>

lemma length_split_on: "length (split_on c s) = Suc (count_list s c)"
  by (induction s) (auto split: list.splits)

lemma length_split_on_join:
  "ss \<noteq> [] \<Longrightarrow> length (split_on c (join [c] ss)) = length ss \<longleftrightarrow> (\<forall>s \<in> set ss. c \<notin> set s)"
proof -
  assume ne: "ss \<noteq> []"
  then have "Suc (count_list (join [c] ss) c) = length ss + sum_list (map (\<lambda>s. count_list s c) ss)"
    by (induction "[c]" ss rule: join.induct) auto
  then show ?thesis by (auto simp: length_split_on count_list_0_iff)
qed

lemma is_string_join: "list_all is_string ss \<Longrightarrow> is_string sep \<Longrightarrow> is_string (join sep ss)"
  by (induction sep ss rule: join.induct) (auto intro: is_string_append)

section \<open>IPv4 addresses in text\<close>

text \<open>\<^verbatim>\<open>Ipv4Addr::from_str\<close>: four decimal octets, each of at most three digits and without a
  leading zero.\<close>

definition parse_octet :: "string \<Rightarrow> u8 option" where
  "parse_octet s =
     (if s = [] \<or> 3 < length s \<or> 1 < length s \<and> hd s = CHR ''0'' then None
      else case digits_val 0 s of
          None \<Rightarrow> None
        | Some v \<Rightarrow> if v < 256 then Some (of_nat v) else None)"

definition parse_ipv4 :: "string \<Rightarrow> ipv4 option" where
  "parse_ipv4 s =
     (case map parse_octet (split_on (CHR ''.'') s) of
        [Some a, Some b, Some c, Some d] \<Rightarrow> Some (of_nat (be_val [a, b, c, d]))
      | _ \<Rightarrow> None)"

definition show_ipv4 :: "ipv4 \<Rightarrow> string" where
  "show_ipv4 ip = join ''.'' (map (\<lambda>b. show_nat (unat b)) (be_bytes 4 (unat ip)))"

lemma digit_char_0: "d < 10 \<Longrightarrow> digit_char d = CHR ''0'' \<longleftrightarrow> d = 0"
proof -
  assume d: "d < 10"
  have "digit_val (CHR ''0'') = Some 0" by (simp add: digit_val_def)
  then have "digit_char d = CHR ''0'' \<Longrightarrow> d = 0"
    using digit_val_digit_char [OF d] by simp
  moreover have "(of_char (CHR ''0'') :: nat) = 48 + 0" by simp
  then have "digit_char 0 = CHR ''0''"
    unfolding digit_char_def by (metis char_of_char)
  ultimately show ?thesis by auto
qed

lemma hd_show_nat: "hd (show_nat n) = CHR ''0'' \<Longrightarrow> n = 0"
proof (induction n rule: show_nat.induct)
  case (1 n)
  show ?case
  proof (cases "n < 10")
    case True
    with "1.prems" show ?thesis by (simp add: show_nat.simps [of n] digit_char_0)
  next
    case False
    with "1.prems" have "hd (show_nat (n div 10)) = CHR ''0''"
      by (simp add: show_nat.simps [of n])
    with "1.IH" False show ?thesis by simp
  qed
qed

lemma length_show_nat_octet: "n < 1000 \<Longrightarrow> length (show_nat n) \<le> 3"
  by (simp add: show_nat.simps [of n] show_nat.simps [of "n div 10"]
      show_nat.simps [of "n div 100"] div_mult2_eq [symmetric])

lemma parse_octet_show [wire_simps]: "parse_octet (show_nat (unat b)) = Some b"
proof -
  have b: "unat b < 256" using unat_bound [of b] by simp
  then have "length (show_nat (unat b)) \<le> 3" by (simp add: length_show_nat_octet)
  moreover have "\<not> (1 < length (show_nat (unat b)) \<and> hd (show_nat (unat b)) = CHR ''0'')"
    using hd_show_nat [of "unat b"] by (auto simp: show_nat.simps [of 0])
  ultimately show ?thesis
    using b by (simp add: parse_octet_def digits_val_show_nat)
qed

lemma digit_not_dot: "is_ascii_digit c \<Longrightarrow> c \<noteq> CHR ''.''"
  by (auto simp: is_ascii_digit_def digit_val_def)

lemma parse_show_ipv4 [wire_simps]: "parse_ipv4 (show_ipv4 ip) = Some ip"
proof -
  obtain a b c d where o: "be_bytes 4 (unat ip) = [a, b, c, d]"
    using length_be_bytes [of 4 "unat ip"]
    by (auto simp: numeral_eq_Suc length_Suc_conv simp del: length_be_bytes be_bytes.simps)
  have "split_on (CHR ''.'') (show_ipv4 ip) = map (\<lambda>b. show_nat (unat b)) [a, b, c, d]"
    unfolding show_ipv4_def o
    by (rule split_on_join) (auto dest: show_nat_digits digit_not_dot)
  moreover have "be_val [a, b, c, d] = unat ip"
    using be_val_be_bytes [of 4 "unat ip"] unat_bound [of ip] by (simp add: o)
  ultimately show ?thesis
    by (simp add: parse_ipv4_def wire_simps)
qed

lemma is_string_show_ipv4 [simp]: "is_string (show_ipv4 ip)"
  unfolding show_ipv4_def by (rule is_string_join) (auto simp: list_all_iff)

section \<open>Trimming\<close>

text \<open>The characters \<^verbatim>\<open>str::trim\<close> removes, in UTF-8.\<close>

definition white_space :: "bytes list" where
  "white_space =
     map (\<lambda>n. [of_nat n]) ([9 ..< 14] @ [32]) @
     [[0xC2, 0x85], [0xC2, 0xA0], [0xE1, 0x9A, 0x80], [0xE2, 0x80, 0xA8], [0xE2, 0x80, 0xA9],
      [0xE2, 0x80, 0xAF], [0xE2, 0x81, 0x9F], [0xE3, 0x80, 0x80]] @
     map (\<lambda>n. [0xE2, 0x80, of_nat n]) [0x80 ..< 0x8B]"

definition starts_with :: "bytes \<Rightarrow> bytes \<Rightarrow> bool" where
  "starts_with w bs \<longleftrightarrow> w \<noteq> [] \<and> take (length w) bs = w"

function trim_start :: "bytes list \<Rightarrow> bytes \<Rightarrow> bytes" where
  "trim_start ws bs =
     (case find (\<lambda>w. starts_with w bs) ws of
        None \<Rightarrow> bs
      | Some w \<Rightarrow> trim_start ws (drop (length w) bs))"
  by pat_completeness auto
termination
proof (relation "measure (\<lambda>(_, bs). length bs)")
  fix ws bs w
  assume "find (\<lambda>w. starts_with w bs) ws = Some w"
  then have "starts_with w bs" by (auto simp: find_Some_iff)
  then show "((ws, drop (length w) bs), (ws, bs)) \<in> measure (\<lambda>(_, bs). length bs)"
    by (cases bs; cases w) (auto simp: starts_with_def)
qed simp

declare trim_start.simps [simp del]

definition str_trim :: "string \<Rightarrow> string" where
  "str_trim s =
     of_bytes (rev (trim_start (map rev white_space) (rev (trim_start white_space (as_bytes s)))))"

end
