(* ===== verification/Capability.thy ===== *)
theory Capability
  imports Rust_Text
begin

text \<open>
  \<^verbatim>\<open>lms-proto/src/capability.rs\<close>: the capability tokens and the comma separated list that the
  HELO message carries.  The specification is the reader of that list (\<open>parse_caps\<close>).
\<close>

datatype capability =
    Wma | Wmap | Wmal | Ogg | Flc | Pcm | Aif | Mp3 | Alc | Aac
  | Maxsamplerate u32
  | Model string
  | Modelname string
  | Rhap
  | Accurateplaypoints
  | Syncgroupid string
  | Hasdigitalout
  | Haspreamp
  | Hasdisabledac
  | Firmware string
  | Balance
  | CanHTTPS

fun show_capability :: "capability \<Rightarrow> string" where
  "show_capability Wma = ''wma''"
| "show_capability Wmap = ''wmap''"
| "show_capability Wmal = ''wmal''"
| "show_capability Ogg = ''ogg''"
| "show_capability Flc = ''flc''"
| "show_capability Pcm = ''pcm''"
| "show_capability Aif = ''aif''"
| "show_capability Mp3 = ''mp3''"
| "show_capability Alc = ''alc''"
| "show_capability Aac = ''aac''"
| "show_capability (Maxsamplerate v) = ''MaxSampleRate='' @ show_nat (unat v)"
| "show_capability (Model v) = ''Model='' @ v"
| "show_capability (Modelname v) = ''Modelname='' @ v"
| "show_capability Rhap = ''Rhap''"
| "show_capability Accurateplaypoints = ''AccuratePlayPoints=1''"
| "show_capability (Syncgroupid v) = ''SyncgroupID='' @ v"
| "show_capability Hasdigitalout = ''HasDigitalOut=1''"
| "show_capability Haspreamp = ''HasPreAmp=1''"
| "show_capability Hasdisabledac = ''HasDisableDac=1''"
| "show_capability (Firmware v) = ''Firmware='' @ v"
| "show_capability Balance = ''Balance=1''"
| "show_capability CanHTTPS = ''canHTTPS=1''"

definition show_caplist :: "capability list \<Rightarrow> string" where
  "show_caplist caps = join '','' (map show_capability caps)"

section \<open>Reading the list back\<close>

fun strip_prefix :: "string \<Rightarrow> string \<Rightarrow> string option" where
  "strip_prefix [] s = Some s"
| "strip_prefix (p # ps) [] = None"
| "strip_prefix (p # ps) (c # cs) = (if p = c then strip_prefix ps cs else None)"

text \<open>The tokens without a value, spelt as in the protocol.\<close>

definition token_table :: "(string \<times> capability) list" where
  "token_table =
     [(''wma'', Wma), (''wmap'', Wmap), (''wmal'', Wmal), (''ogg'', Ogg), (''flc'', Flc),
      (''pcm'', Pcm), (''aif'', Aif), (''mp3'', Mp3), (''alc'', Alc), (''aac'', Aac), (''Rhap'', Rhap),
      (''AccuratePlayPoints=1'', Accurateplaypoints), (''HasDigitalOut=1'', Hasdigitalout),
      (''HasPreAmp=1'', Haspreamp), (''HasDisableDac=1'', Hasdisabledac), (''Balance=1'', Balance),
      (''canHTTPS=1'', CanHTTPS)]"

definition parse_max_rate :: "string \<Rightarrow> capability option" where
  "parse_max_rate s =
     (case digits_val 0 s of
        None \<Rightarrow> None
      | Some v \<Rightarrow> if v < 2 ^ 32 then Some (Maxsamplerate (of_nat v)) else None)"

definition parse_cap :: "string \<Rightarrow> capability option" where
  "parse_cap s =
     (case map_of token_table s of
        Some c \<Rightarrow> Some c
      | None \<Rightarrow>
     (case strip_prefix ''MaxSampleRate='' s of Some v \<Rightarrow> parse_max_rate v
      | None \<Rightarrow>
     (case strip_prefix ''Model='' s of Some v \<Rightarrow> Some (Model v)
      | None \<Rightarrow>
     (case strip_prefix ''Modelname='' s of Some v \<Rightarrow> Some (Modelname v)
      | None \<Rightarrow>
     (case strip_prefix ''SyncgroupID='' s of Some v \<Rightarrow> Some (Syncgroupid v)
      | None \<Rightarrow>
     (case strip_prefix ''Firmware='' s of Some v \<Rightarrow> Some (Firmware v)
      | None \<Rightarrow> None))))))"

definition parse_caps :: "string \<Rightarrow> capability option list" where
  "parse_caps s = map parse_cap (split_on (CHR '','') s)"

text \<open>The values in a token must not contain the separator.\<close>

fun cap_ok :: "capability \<Rightarrow> bool" where
  "cap_ok (Model v) \<longleftrightarrow> CHR '','' \<notin> set v"
| "cap_ok (Modelname v) \<longleftrightarrow> CHR '','' \<notin> set v"
| "cap_ok (Syncgroupid v) \<longleftrightarrow> CHR '','' \<notin> set v"
| "cap_ok (Firmware v) \<longleftrightarrow> CHR '','' \<notin> set v"
| "cap_ok _ \<longleftrightarrow> True"

lemma strip_prefix_append [simp]: "strip_prefix p (p @ s) = Some s"
  by (induction p) auto

lemma parse_max_rate_show: "parse_max_rate (show_nat (unat v)) = Some (Maxsamplerate v)"
  using unat_bound [of v] by (simp add: parse_max_rate_def digits_val_show_nat)

lemma parse_cap_show: "parse_cap (show_capability c) = Some c"
  by (cases c) (simp_all add: parse_cap_def token_table_def parse_max_rate_show)

lemma digit_not_comma: "is_ascii_digit c \<Longrightarrow> c \<noteq> CHR '',''"
  by (auto simp: is_ascii_digit_def digit_val_def)

lemma show_nat_no_comma: "CHR '','' \<notin> set (show_nat n)"
  using show_nat_digits [of "CHR '',''" n] digit_not_comma by blast

lemma cap_ok_no_comma: "cap_ok c \<Longrightarrow> CHR '','' \<notin> set (show_capability c)"
  by (cases c) (simp_all add: show_nat_no_comma)

lemma parse_show_caplist:
  "caps \<noteq> [] \<Longrightarrow> list_all cap_ok caps \<Longrightarrow> parse_caps (show_caplist caps) = map Some caps"
  using split_on_join [of "map show_capability caps" "CHR '',''"]
  by (auto simp: parse_caps_def show_caplist_def parse_cap_show comp_def list_all_iff cap_ok_no_comma)

lemma cap_comma: "\<not> cap_ok c \<Longrightarrow> CHR '','' \<in> set (show_capability c)"
  by (cases c) simp_all

text \<open>And only then: a value with a comma yields more tokens than there are capabilities.\<close>

lemma parse_show_caplist_iff:
  "parse_caps (show_caplist caps) = map Some caps \<longleftrightarrow> caps \<noteq> [] \<and> list_all cap_ok caps"
proof
  assume parsed: "parse_caps (show_caplist caps) = map Some caps"
  then have len: "length (split_on (CHR '','') (show_caplist caps)) = length caps"
    by (metis length_map parse_caps_def)
  then have ne: "caps \<noteq> []" by auto
  have "\<forall>s \<in> set (map show_capability caps). CHR '','' \<notin> set s"
    using len ne length_split_on_join [of "map show_capability caps" "CHR '',''"]
    by (simp add: show_caplist_def)
  with ne show "caps \<noteq> [] \<and> list_all cap_ok caps"
    using cap_comma by (auto simp: list_all_iff)
qed (use parse_show_caplist in blast)

fun cap_string_ok :: "capability \<Rightarrow> bool" where
  "cap_string_ok (Model v) \<longleftrightarrow> is_string v"
| "cap_string_ok (Modelname v) \<longleftrightarrow> is_string v"
| "cap_string_ok (Syncgroupid v) \<longleftrightarrow> is_string v"
| "cap_string_ok (Firmware v) \<longleftrightarrow> is_string v"
| "cap_string_ok _ \<longleftrightarrow> True"

lemma is_string_show_capability: "cap_string_ok c \<Longrightarrow> is_string (show_capability c)"
  by (cases c) simp_all

lemma is_string_show_caplist: "list_all cap_string_ok caps \<Longrightarrow> is_string (show_caplist caps)"
  unfolding show_caplist_def
  by (rule is_string_join) (auto simp: list_all_iff is_string_show_capability)

end
