(* ===== verification/Server_Messages.thy ===== *)
theory Server_Messages
  imports Rust_Text
begin

text \<open>
  The server half of \<^verbatim>\<open>lms-proto/src/messages.rs\<close>: \<^verbatim>\<open>ServerMessage\<close> and the parser
  \<^verbatim>\<open>impl From<BytesMut> for ServerMessage\<close>, one definition per opcode.  Reading past the end
  of the buffer is a panic (\<^const>\<open>None\<close>), a malformed message is the value \<open>Error\<close>.
  The specification is the layout written by the server (\<open>encode_server\<close>).
\<close>

section \<open>The messages\<close>

datatype auto_start = AutoNone | Auto | Direct | AutoDirect

datatype format = Pcm | Mp3 | Flac | Wma | Ogg | Aac | Alac

datatype pcm_sample_size = Eight | Sixteen | Twenty | ThirtyTwo | SizeSelfDescribing

datatype pcm_sample_rate = Rate u32 | RateSelfDescribing

datatype pcm_channels = Mono | Stereo | ChannelsSelfDescribing

datatype pcm_endian = Big | Little | EndianSelfDescribing

datatype spdif_enable = SpdifAuto | On | Off

datatype trans_type = TransNone | Crossfade | FadeIn | FadeOut | FadeInOut

text \<open>\<^verbatim>\<open>bitflags! struct StreamFlags: u8\<close>; \<^verbatim>\<open>from_bits\<close> refuses unknown bits.\<close>

definition INF_LOOP :: u8 where "INF_LOOP = 0x80"
definition NO_RESTART_DECODER :: u8 where "NO_RESTART_DECODER = 0x40"
definition INVERT_POLARITY_LEFT :: u8 where "INVERT_POLARITY_LEFT = 0x01"
definition INVERT_POLARITY_RIGHT :: u8 where "INVERT_POLARITY_RIGHT = 0x02"

definition stream_flags_all :: u8 where
  "stream_flags_all =
     or (or INF_LOOP NO_RESTART_DECODER) (or INVERT_POLARITY_LEFT INVERT_POLARITY_RIGHT)"

definition stream_flags_from_bits :: "u8 \<Rightarrow> u8 option" where
  "stream_flags_from_bits b = (if and b (not stream_flags_all) = 0 then Some b else None)"

record stream_cmd =
  autostart :: auto_start
  sformat :: format
  pcmsamplesize :: pcm_sample_size
  pcmsamplerate :: pcm_sample_rate
  pcmchannels :: pcm_channels
  pcmendian :: pcm_endian
  threshold :: u32
  spdif :: spdif_enable
  trans_period :: duration
  transtype :: trans_type
  flags :: u8
  output_threshold :: duration
  replay_gain :: rat
  server_port :: u16
  server_ip :: ipv4
  http_headers :: "string option"

datatype server_message =
    Serv ipv4 "string option"
  | Status duration
  | Stream stream_cmd
  | Gain rat rat
  | Enable bool bool
  | Flush
  | Stop
  | Pause duration
  | Unpause duration
  | Queryname
  | Setname string
  | DisableDac
  | Skip duration
  | Unrecognised string
  | Error

section \<open>Field decoders\<close>

definition autostart_of :: "u8 \<Rightarrow> auto_start option" where
  "autostart_of b = map_of
     [(CHR ''0'', AutoNone), (CHR ''1'', Auto), (CHR ''2'', Direct), (CHR ''3'', AutoDirect)]
     (chr_of b)"

definition format_of :: "u8 \<Rightarrow> format option" where
  "format_of b = map_of
     [(CHR ''p'', Pcm), (CHR ''m'', Mp3), (CHR ''f'', Flac), (CHR ''w'', Wma), (CHR ''o'', Ogg),
      (CHR ''a'', Aac), (CHR ''l'', Alac)]
     (chr_of b)"

definition pcmsamplesize_of :: "u8 \<Rightarrow> pcm_sample_size option" where
  "pcmsamplesize_of b = map_of
     [(CHR ''0'', Eight), (CHR ''1'', Sixteen), (CHR ''2'', Twenty), (CHR ''3'', ThirtyTwo),
      (CHR ''?'', SizeSelfDescribing)]
     (chr_of b)"

definition pcmsamplerate_of :: "u8 \<Rightarrow> pcm_sample_rate option" where
  "pcmsamplerate_of b = map_of
     [(CHR ''0'', Rate 11000), (CHR ''1'', Rate 22000), (CHR ''2'', Rate 32000),
      (CHR ''3'', Rate 44100), (CHR ''4'', Rate 48000), (CHR ''5'', Rate 8000),
      (CHR ''6'', Rate 12000), (CHR ''7'', Rate 16000), (CHR ''8'', Rate 24000),
      (CHR ''9'', Rate 96000), (CHR ''?'', RateSelfDescribing)]
     (chr_of b)"

definition pcmchannels_of :: "u8 \<Rightarrow> pcm_channels option" where
  "pcmchannels_of b = map_of
     [(CHR ''1'', Mono), (CHR ''2'', Stereo), (CHR ''?'', ChannelsSelfDescribing)] (chr_of b)"

definition pcmendian_of :: "u8 \<Rightarrow> pcm_endian option" where
  "pcmendian_of b = map_of
     [(CHR ''0'', Big), (CHR ''1'', Little), (CHR ''?'', EndianSelfDescribing)] (chr_of b)"

definition spdif_of :: "u8 \<Rightarrow> spdif_enable option" where
  "spdif_of b = map_of [(0, SpdifAuto), (1, On), (2, Off)] b"

definition trans_type_of :: "u8 \<Rightarrow> trans_type option" where
  "trans_type_of b = map_of
     [(CHR ''0'', TransNone), (CHR ''1'', Crossfade), (CHR ''2'', FadeIn), (CHR ''3'', FadeOut),
      (CHR ''4'', FadeInOut)]
     (chr_of b)"

text \<open>Gains are 16.16 fixed point; the \<^verbatim>\<open>f64\<close> quotient by 65536 is exact, so it is kept as a
  rational number.\<close>

definition gain_of :: "u32 \<Rightarrow> rat" where
  "gain_of w = of_nat (unat w) / 65536"

section \<open>The parser\<close>

text \<open>Early return of \<^verbatim>\<open>ServerMessage::Error\<close> from a field match.\<close>

definition or_error :: "'a option \<Rightarrow> ('a \<Rightarrow> server_message exec) \<Rightarrow> server_message exec" where
  "or_error x f = (case x of None \<Rightarrow> Some Error | Some v \<Rightarrow> f v)"

definition parse_serv :: "bytes \<Rightarrow> server_message exec" where
  "parse_serv buf =
     (if length buf < 4 then Some Error
      else do {
        (ip, buf) \<leftarrow> get_u32 buf;
        let sync_group = (if buf \<noteq> [] then Some (concat (map byte_as_char buf)) else None);
        Some (Serv ip sync_group)
      })"

definition parse_stream :: "bytes \<Rightarrow> server_message exec" where
  "parse_stream buf = do {
     (b, buf) \<leftarrow> split_byte buf;
     or_error (autostart_of b) (\<lambda>autostart. do {
     (b, buf) \<leftarrow> split_byte buf;
     or_error (format_of b) (\<lambda>format. do {
     (b, buf) \<leftarrow> split_byte buf;
     or_error (pcmsamplesize_of b) (\<lambda>pcmsamplesize. do {
     (b, buf) \<leftarrow> split_byte buf;
     or_error (pcmsamplerate_of b) (\<lambda>pcmsamplerate. do {
     (b, buf) \<leftarrow> split_byte buf;
     or_error (pcmchannels_of b) (\<lambda>pcmchannels. do {
     (b, buf) \<leftarrow> split_byte buf;
     or_error (pcmendian_of b) (\<lambda>pcmendian. do {
     (thr, buf) \<leftarrow> split_byte buf;
     (b, buf) \<leftarrow> split_byte buf;
     or_error (spdif_of b) (\<lambda>spdif_enable. do {
     (period, buf) \<leftarrow> split_byte buf;
     (b, buf) \<leftarrow> split_byte buf;
     or_error (trans_type_of b) (\<lambda>trans_type. do {
     (fl, buf) \<leftarrow> split_byte buf;
     (othr, buf) \<leftarrow> split_byte buf;
     buf \<leftarrow> advance 1 buf;
     (gain, buf) \<leftarrow> get_u32 buf;
     (port, buf) \<leftarrow> get_u16 buf;
     (ip, buf) \<leftarrow> get_u32 buf;
     let headers = (if buf \<noteq> [] then Some (from_utf8_lossy buf) else None);
     Some (Stream
       \<lparr>autostart = autostart, sformat = format, pcmsamplesize = pcmsamplesize,
        pcmsamplerate = pcmsamplerate, pcmchannels = pcmchannels, pcmendian = pcmendian,
        threshold = ucast thr * 1024, spdif = spdif_enable,
        trans_period = from_secs (ucast period), transtype = trans_type,
        flags = (case stream_flags_from_bits fl of None \<Rightarrow> 0 | Some f \<Rightarrow> f),
        output_threshold = from_millis (ucast othr * 100), replay_gain = gain_of gain,
        server_port = port, server_ip = ip, http_headers = headers\<rparr>)
     })})})})})})})})}"

text \<open>The 13 skipped bytes and the interval of the \<^verbatim>\<open>t\<close>, \<^verbatim>\<open>p\<close>, \<^verbatim>\<open>u\<close> and \<^verbatim>\<open>a\<close> commands.\<close>

definition strm_interval :: "bytes \<Rightarrow> duration exec" where
  "strm_interval buf = do {
     buf \<leftarrow> advance 13 buf;
     (ts, _) \<leftarrow> get_u32 buf;
     Some (from_millis (ucast ts))
   }"

definition parse_strm :: "string \<Rightarrow> bytes \<Rightarrow> server_message exec" where
  "parse_strm msg buf =
     (if length buf < 24 then Some Error
      else do {
        (cmd, buf) \<leftarrow> split_byte buf;
        if chr_of cmd = CHR ''t'' then map_option Status (strm_interval buf)
        else if chr_of cmd = CHR ''s'' then parse_stream buf
        else if chr_of cmd = CHR ''q'' then Some Stop
        else if chr_of cmd = CHR ''f'' then Some Flush
        else if chr_of cmd = CHR ''p'' then map_option Pause (strm_interval buf)
        else if chr_of cmd = CHR ''u'' then map_option Unpause (strm_interval buf)
        else if chr_of cmd = CHR ''a'' then map_option Skip (strm_interval buf)
        else Some (Unrecognised (msg @ ''_'' @ byte_as_char cmd))
      })"

definition parse_aude :: "bytes \<Rightarrow> server_message exec" where
  "parse_aude buf =
     (if length buf < 2 then Some Error else Some (Enable (buf ! 0 \<noteq> 0) (buf ! 1 \<noteq> 0)))"

definition parse_audg :: "bytes \<Rightarrow> server_message exec" where
  "parse_audg buf =
     (if length buf < 18 then Some Error
      else do {
        buf \<leftarrow> advance 10 buf;
        (left, buf) \<leftarrow> get_u32 buf;
        (right, _) \<leftarrow> get_u32 buf;
        Some (Gain (gain_of left) (gain_of right))
      })"

definition parse_setd :: "bytes \<Rightarrow> server_message exec" where
  "parse_setd buf =
     (if buf = [] then Some Error
      else do {
        (v, buf) \<leftarrow> split_byte buf;
        if v = 0 then
          (if buf = [] then Some Queryname
           else Some (Setname (case from_utf8 (take (length buf - 1) buf) of
                                 None \<Rightarrow> [] | Some name \<Rightarrow> name)))
        else if v = 4 then Some DisableDac
        else Some (Unrecognised (''This SETD is unused: '' @ show_nat (unat v)))
      })"

definition server_message_from :: "bytes \<Rightarrow> server_message exec" where
  "server_message_from src = do {
     (op, buf) \<leftarrow> split_to 4 src;
     let msg = from_utf8_lossy op;
     if msg = ''serv'' then parse_serv buf
     else if msg = ''strm'' then parse_strm msg buf
     else if msg = ''aude'' then parse_aude buf
     else if msg = ''audg'' then parse_audg buf
     else if msg = ''setd'' then parse_setd buf
     else Some (Unrecognised msg)
   }"


section \<open>The parser does not panic on four bytes or more\<close>

lemma bind_split_byte [panic_free]:
  assumes "1 \<le> length buf" and "\<And>b rest. length buf = Suc (length rest) \<Longrightarrow> f b rest \<noteq> None"
  shows "split_byte buf \<bind> (\<lambda>(x, y). f x y) \<noteq> None"
  using assms by (cases buf) (auto simp: split_byte_def)

lemma bind_get_u32 [panic_free]:
  assumes "4 \<le> length buf" and "\<And>w rest. length buf = 4 + length rest \<Longrightarrow> f w rest \<noteq> None"
  shows "get_u32 buf \<bind> (\<lambda>(x, y). f x y) \<noteq> None"
  using assms(1) assms(2) [of "drop 4 buf"] by (auto simp: get_u32_def)

lemma bind_get_u16 [panic_free]:
  assumes "2 \<le> length buf" and "\<And>w rest. length buf = 2 + length rest \<Longrightarrow> f w rest \<noteq> None"
  shows "get_u16 buf \<bind> (\<lambda>(x, y). f x y) \<noteq> None"
  using assms(1) assms(2) [of "drop 2 buf"] by (auto simp: get_u16_def)

lemma bind_advance [panic_free]:
  assumes "n \<le> length buf" and "\<And>rest. length buf = n + length rest \<Longrightarrow> f rest \<noteq> None"
  shows "advance n buf \<bind> f \<noteq> None"
  using assms(1) assms(2) [of "drop n buf"] by (auto simp: advance_def)

lemma or_error_no_panic [panic_free]: "(\<And>v. f v \<noteq> None) \<Longrightarrow> or_error x f \<noteq> None"
  by (cases x) (auto simp: or_error_def)

lemma map_option_no_panic [panic_free]: "m \<noteq> None \<Longrightarrow> map_option f m \<noteq> None"
  by simp

lemma parse_stream_no_panic [panic_free]: "23 \<le> length buf \<Longrightarrow> parse_stream buf \<noteq> None"
  unfolding parse_stream_def prod.case Let_def
  by (intro panic_free) (linarith | simp only: option.distinct not_False_eq_True)+

lemma strm_interval_no_panic [panic_free]: "17 \<le> length buf \<Longrightarrow> strm_interval buf \<noteq> None"
  unfolding strm_interval_def
  by (intro panic_free) (linarith | simp only: option.distinct not_False_eq_True)+

lemma parse_strm_no_panic [panic_free]: "parse_strm msg buf \<noteq> None"
proof (cases "length buf < 24")
  case False
  then obtain c rest where "buf = c # rest" "23 \<le> length rest"
    by (cases buf) auto
  then show ?thesis
    using parse_stream_no_panic [of rest] strm_interval_no_panic [of rest] False
    by (simp add: parse_strm_def split_byte_def)
qed (simp add: parse_strm_def)

lemma parse_other_no_panic [panic_free]:
  "parse_serv buf \<noteq> None" "parse_aude buf \<noteq> None" "parse_audg buf \<noteq> None" "parse_setd buf \<noteq> None"
  by (auto simp: parse_serv_def parse_aude_def parse_audg_def parse_setd_def get_u32_def
      advance_def split_byte_def split: list.splits)

lemma server_message_from_panics: "server_message_from src = None \<longleftrightarrow> length src < 4"
  using parse_strm_no_panic parse_other_no_panic
  by (simp add: server_message_from_def split_to_def Let_def not_less)

section \<open>Strings of parsed messages are well-formed\<close>

fun server_strings_ok :: "server_message \<Rightarrow> bool" where
  "server_strings_ok (Serv ip sg) \<longleftrightarrow> (case sg of None \<Rightarrow> True | Some s \<Rightarrow> is_string s \<and> s \<noteq> [])"
| "server_strings_ok (Stream s) \<longleftrightarrow> (case http_headers s of None \<Rightarrow> True | Some h \<Rightarrow> is_string h)"
| "server_strings_ok (Setname s) \<longleftrightarrow> is_string s"
| "server_strings_ok (Unrecognised s) \<longleftrightarrow> is_string s"
| "server_strings_ok _ \<longleftrightarrow> True"

lemma bind_Some: "m \<bind> f = Some y \<longleftrightarrow> (\<exists>x. m = Some x \<and> f x = Some y)"
  by (cases m) auto

lemma or_error_Some:
  "or_error x f = Some m \<longleftrightarrow> (x = None \<and> m = Error) \<or> (\<exists>v. x = Some v \<and> f v = Some m)"
  by (cases x) (auto simp: or_error_def)

lemma parse_stream_strings: "parse_stream buf = Some m \<Longrightarrow> server_strings_ok m"
  unfolding parse_stream_def Let_def
  by (auto simp: bind_Some or_error_Some)

lemma concat_byte_as_char_nonempty: "bs \<noteq> [] \<Longrightarrow> concat (map byte_as_char bs) \<noteq> []"
  by (cases bs) (auto simp: byte_as_char_def of_bytes_def)

lemma parse_serv_strings: "parse_serv buf = Some m \<Longrightarrow> server_strings_ok m"
  by (auto simp: parse_serv_def bind_Some Let_def is_string_concat_byte_as_char
      dest: concat_byte_as_char_nonempty split: if_splits)

lemma parse_setd_strings: "parse_setd buf = Some m \<Longrightarrow> server_strings_ok m"
  by (auto simp: parse_setd_def bind_Some split: if_splits option.splits
      intro: utf8_intros)

lemma parse_strm_strings: "is_string msg \<Longrightarrow> parse_strm msg buf = Some m \<Longrightarrow> server_strings_ok m"
  by (auto simp: parse_strm_def bind_Some split: if_splits dest: parse_stream_strings
      intro!: is_string_append)

lemma server_message_from_strings: "server_message_from src = Some m \<Longrightarrow> server_strings_ok m"
  by (auto simp: server_message_from_def bind_Some Let_def parse_aude_def parse_audg_def
      split: if_splits
      dest: parse_serv_strings parse_setd_strings parse_strm_strings [rotated])

section \<open>The layout written by the server\<close>

text \<open>The bytes of each command as the server sends them: \<open>server_wire\<close> has one constructor per
  kind of frame, with the raw field values, \<open>encode_server\<close> lays them out and \<open>meaning\<close> is the
  message they stand for.\<close>

record stream_wire =
  w_autostart :: auto_start
  w_format :: format
  w_samplesize :: pcm_sample_size
  w_samplerate :: pcm_sample_rate
  w_channels :: pcm_channels
  w_endian :: pcm_endian
  w_threshold_kb :: u8
  w_spdif :: spdif_enable
  w_period_s :: u8
  w_trans :: trans_type
  w_flags :: u8
  w_output_ds :: u8
  w_reserved :: u8
  w_gain :: u32
  w_port :: u16
  w_ip :: ipv4
  w_headers :: bytes

datatype server_wire =
    WServ ipv4 bytes
  | WStatus u32
  | WStream stream_wire
  | WGain u32 u32
  | WEnable u8 u8
  | WFlush
  | WStop
  | WPause u32
  | WUnpause u32
  | WQueryname
  | WSetname bytes
  | WDisableDac
  | WSkip u32

definition autostart_byte :: "auto_start \<Rightarrow> u8" where
  "autostart_byte a = byte_of (case a of
     AutoNone \<Rightarrow> CHR ''0'' | Auto \<Rightarrow> CHR ''1'' | Direct \<Rightarrow> CHR ''2'' | AutoDirect \<Rightarrow> CHR ''3'')"

definition format_byte :: "format \<Rightarrow> u8" where
  "format_byte f = byte_of (case f of
     Pcm \<Rightarrow> CHR ''p'' | Mp3 \<Rightarrow> CHR ''m'' | Flac \<Rightarrow> CHR ''f'' | Wma \<Rightarrow> CHR ''w'' | Ogg \<Rightarrow> CHR ''o''
   | Aac \<Rightarrow> CHR ''a'' | Alac \<Rightarrow> CHR ''l'')"

definition samplesize_byte :: "pcm_sample_size \<Rightarrow> u8" where
  "samplesize_byte s = byte_of (case s of
     Eight \<Rightarrow> CHR ''0'' | Sixteen \<Rightarrow> CHR ''1'' | Twenty \<Rightarrow> CHR ''2'' | ThirtyTwo \<Rightarrow> CHR ''3''
   | SizeSelfDescribing \<Rightarrow> CHR ''?'')"

definition rate_table :: "(u32 \<times> char) list" where
  "rate_table =
     [(11000, CHR ''0''), (22000, CHR ''1''), (32000, CHR ''2''), (44100, CHR ''3''),
      (48000, CHR ''4''), (8000, CHR ''5''), (12000, CHR ''6''), (16000, CHR ''7''),
      (24000, CHR ''8''), (96000, CHR ''9'')]"

fun samplerate_byte :: "pcm_sample_rate \<Rightarrow> u8 option" where
  "samplerate_byte (Rate r) = map_option byte_of (map_of rate_table r)"
| "samplerate_byte RateSelfDescribing = Some (byte_of (CHR ''?''))"

definition channels_byte :: "pcm_channels \<Rightarrow> u8" where
  "channels_byte c = byte_of (case c of
     Mono \<Rightarrow> CHR ''1'' | Stereo \<Rightarrow> CHR ''2'' | ChannelsSelfDescribing \<Rightarrow> CHR ''?'')"

definition endian_byte :: "pcm_endian \<Rightarrow> u8" where
  "endian_byte e = byte_of (case e of
     Big \<Rightarrow> CHR ''0'' | Little \<Rightarrow> CHR ''1'' | EndianSelfDescribing \<Rightarrow> CHR ''?'')"

definition spdif_byte :: "spdif_enable \<Rightarrow> u8" where
  "spdif_byte s = (case s of SpdifAuto \<Rightarrow> 0 | On \<Rightarrow> 1 | Off \<Rightarrow> 2)"

definition trans_byte :: "trans_type \<Rightarrow> u8" where
  "trans_byte t = byte_of (case t of
     TransNone \<Rightarrow> CHR ''0'' | Crossfade \<Rightarrow> CHR ''1'' | FadeIn \<Rightarrow> CHR ''2'' | FadeOut \<Rightarrow> CHR ''3''
   | FadeInOut \<Rightarrow> CHR ''4'')"

definition stream_layout :: "stream_wire \<Rightarrow> u8 \<Rightarrow> bytes" where
  "stream_layout w rate =
     [autostart_byte (w_autostart w), format_byte (w_format w), samplesize_byte (w_samplesize w),
      rate, channels_byte (w_channels w), endian_byte (w_endian w), w_threshold_kb w,
      spdif_byte (w_spdif w), w_period_s w, trans_byte (w_trans w), w_flags w, w_output_ds w,
      w_reserved w]
     @ put_u32 (w_gain w) @ put_u16 (w_port w) @ put_u32 (w_ip w) @ w_headers w"

definition strm_frame :: "char \<Rightarrow> u32 \<Rightarrow> bytes" where
  "strm_frame c interval =
     as_bytes ''strm'' @ [byte_of c] @ replicate 13 0 @ put_u32 interval @ replicate 6 0"

fun encode_server :: "server_wire \<Rightarrow> bytes" where
  "encode_server (WServ ip sg) = as_bytes ''serv'' @ put_u32 ip @ sg"
| "encode_server (WStatus ms) = strm_frame (CHR ''t'') ms"
| "encode_server (WStream w) =
     as_bytes ''strm'' @ byte_of (CHR ''s'') # stream_layout w (the (samplerate_byte (w_samplerate w)))"
| "encode_server (WGain l r) = as_bytes ''audg'' @ replicate 10 0 @ put_u32 l @ put_u32 r"
| "encode_server (WEnable s d) = as_bytes ''aude'' @ [s, d]"
| "encode_server WFlush = strm_frame (CHR ''f'') 0"
| "encode_server WStop = strm_frame (CHR ''q'') 0"
| "encode_server (WPause ms) = strm_frame (CHR ''p'') ms"
| "encode_server (WUnpause ms) = strm_frame (CHR ''u'') ms"
| "encode_server WQueryname = as_bytes ''setd'' @ [0]"
| "encode_server (WSetname name) = as_bytes ''setd'' @ 0 # name @ [0]"
| "encode_server WDisableDac = as_bytes ''setd'' @ [4]"
| "encode_server (WSkip ms) = strm_frame (CHR ''a'') ms"

definition stream_of :: "stream_wire \<Rightarrow> stream_cmd" where
  "stream_of w =
     \<lparr>autostart = w_autostart w, sformat = w_format w, pcmsamplesize = w_samplesize w,
      pcmsamplerate = w_samplerate w, pcmchannels = w_channels w, pcmendian = w_endian w,
      threshold = ucast (w_threshold_kb w) * 1024, spdif = w_spdif w,
      trans_period = from_secs (ucast (w_period_s w)), transtype = w_trans w,
      flags = (if and (w_flags w) (not 0xC3) = 0 then w_flags w else 0),
      output_threshold = from_millis (ucast (w_output_ds w) * 100),
      replay_gain = of_nat (unat (w_gain w)) / 65536, server_port = w_port w,
      server_ip = w_ip w,
      http_headers = (if w_headers w = [] then None else Some (from_utf8_lossy (w_headers w)))\<rparr>"

fun meaning :: "server_wire \<Rightarrow> server_message" where
  "meaning (WServ ip sg) = Serv ip (if sg = [] then None else Some (concat (map byte_as_char sg)))"
| "meaning (WStatus ms) = Status (from_millis (ucast ms))"
| "meaning (WStream w) = Stream (stream_of w)"
| "meaning (WGain l r) = Gain (of_nat (unat l) / 65536) (of_nat (unat r) / 65536)"
| "meaning (WEnable s d) = Enable (s \<noteq> 0) (d \<noteq> 0)"
| "meaning WFlush = Flush"
| "meaning WStop = Stop"
| "meaning (WPause ms) = Pause (from_millis (ucast ms))"
| "meaning (WUnpause ms) = Unpause (from_millis (ucast ms))"
| "meaning WQueryname = Queryname"
| "meaning (WSetname name) = Setname (if utf8_valid name then of_bytes name else [])"
| "meaning WDisableDac = DisableDac"
| "meaning (WSkip ms) = Skip (from_millis (ucast ms))"

text \<open>The only restriction: a PCM rate is one of the ten the protocol has a code for.\<close>

fun wire_ok :: "server_wire \<Rightarrow> bool" where
  "wire_ok (WStream w) \<longleftrightarrow> samplerate_byte (w_samplerate w) \<noteq> None"
| "wire_ok _ \<longleftrightarrow> True"

lemma field_roundtrips [wire_simps]:
  "autostart_of (autostart_byte a) = Some a"
  "format_of (format_byte f) = Some f"
  "pcmsamplesize_of (samplesize_byte z) = Some z"
  "pcmchannels_of (channels_byte c) = Some c"
  "pcmendian_of (endian_byte e) = Some e"
  "spdif_of (spdif_byte s) = Some s"
  "trans_type_of (trans_byte t) = Some t"
  by (cases a, simp_all add: autostart_of_def autostart_byte_def)
    (cases f, simp_all add: format_of_def format_byte_def,
     cases z, simp_all add: pcmsamplesize_of_def samplesize_byte_def,
     cases c, simp_all add: pcmchannels_of_def channels_byte_def,
     cases e, simp_all add: pcmendian_of_def endian_byte_def,
     cases s, simp_all add: spdif_of_def spdif_byte_def,
     cases t, simp_all add: trans_type_of_def trans_byte_def)

lemma samplerate_roundtrip [wire_simps]:
  "samplerate_byte r = Some b \<Longrightarrow> pcmsamplerate_of b = Some r"
  by (cases r) (auto simp: pcmsamplerate_of_def rate_table_def split: if_splits)

lemma stream_flags_mask: "stream_flags_all = 0xC3"
  by (simp add: stream_flags_all_def INF_LOOP_def NO_RESTART_DECODER_def INVERT_POLARITY_LEFT_def
      INVERT_POLARITY_RIGHT_def)

lemma parse_stream_layout:
  assumes "samplerate_byte (w_samplerate w) = Some rate"
  shows "parse_stream (stream_layout w rate) = Some (Stream (stream_of w))"
  using assms
  by (simp add: parse_stream_def stream_layout_def or_error_def wire_simps advance_def Let_def
      stream_of_def stream_flags_from_bits_def stream_flags_mask gain_of_def)

lemma strm_interval_frame:
  "strm_interval (replicate 13 0 @ put_u32 ms @ tail) = Some (from_millis (ucast ms))"
  by (simp add: strm_interval_def wire_simps)

lemma server_from_opcode:
  "length op = 4 \<Longrightarrow> is_string op \<Longrightarrow>
    server_message_from (as_bytes op @ buf) =
      (if op = ''serv'' then parse_serv buf
       else if op = ''strm'' then parse_strm op buf
       else if op = ''aude'' then parse_aude buf
       else if op = ''audg'' then parse_audg buf
       else if op = ''setd'' then parse_setd buf
       else Some (Unrecognised op))"
  by (simp add: server_message_from_def wire_simps Let_def)

lemma length_stream_layout: "23 \<le> length (stream_layout w rate)"
  by (simp add: stream_layout_def)

lemma server_from_strm_frame:
  "server_message_from (strm_frame c ms) = parse_strm ''strm'' (byte_of c # replicate 13 0 @ put_u32 ms @ replicate 6 0)"
  using server_from_opcode [of "''strm''"] by (simp add: strm_frame_def)

lemma server_message_from_encode:
  assumes "wire_ok w"
  shows "server_message_from (encode_server w) = Some (meaning w)"
proof (cases w)
  case (WStream sw)
  with assms obtain rate where "samplerate_byte (w_samplerate sw) = Some rate" by auto
  then show ?thesis
    using WStream length_stream_layout [of sw rate] server_from_opcode [of "''strm''"]
    by (simp add: parse_strm_def wire_simps parse_stream_layout)
next
  case (WSetname name)
  then show ?thesis
    using server_from_opcode [of "''setd''"] by (simp add: parse_setd_def wire_simps from_utf8_def)
next
  case (WServ ip sg)
  then show ?thesis
    using server_from_opcode [of "''serv''"] by (simp add: parse_serv_def wire_simps)
next
  case (WGain l r)
  then show ?thesis
    using server_from_opcode [of "''audg''"] by (simp add: parse_audg_def wire_simps gain_of_def)
next
  case (WEnable s d)
  then show ?thesis
    using server_from_opcode [of "''aude''"] by (simp add: parse_aude_def)
qed (use server_from_opcode [of "''setd''"] in
    \<open>simp_all add: server_from_strm_frame parse_strm_def parse_setd_def wire_simps strm_interval_frame\<close>)

section \<open>When the parser answers Error\<close>

text \<open>The eight checked bytes of a \<^verbatim>\<open>strm s\<close> command.\<close>

definition stream_fields_ok :: "bytes \<Rightarrow> bool" where
  "stream_fields_ok b \<longleftrightarrow>
     autostart_of (b ! 0) \<noteq> None \<and> format_of (b ! 1) \<noteq> None \<and> pcmsamplesize_of (b ! 2) \<noteq> None \<and>
     pcmsamplerate_of (b ! 3) \<noteq> None \<and> pcmchannels_of (b ! 4) \<noteq> None \<and>
     pcmendian_of (b ! 5) \<noteq> None \<and> spdif_of (b ! 7) \<noteq> None \<and> trans_type_of (b ! 9) \<noteq> None"

definition malformed :: "bytes \<Rightarrow> bool" where
  "malformed src \<longleftrightarrow>
     (let op = take 4 src; buf = drop 4 src
      in op = as_bytes ''serv'' \<and> length buf < 4
       \<or> op = as_bytes ''strm'' \<and> (length buf < 24 \<or>
           buf ! 0 = byte_of (CHR ''s'') \<and> \<not> stream_fields_ok (tl buf))
       \<or> op = as_bytes ''aude'' \<and> length buf < 2
       \<or> op = as_bytes ''audg'' \<and> length buf < 18
       \<or> op = as_bytes ''setd'' \<and> buf = [])"

lemma parse_stream_Error:
  assumes "23 \<le> length buf"
  shows "parse_stream buf = Some Error \<longleftrightarrow> \<not> stream_fields_ok buf"
proof -
  from assms obtain b0 b1 b2 b3 b4 b5 b6 b7 b8 b9 rest where
    buf: "buf = b0 # b1 # b2 # b3 # b4 # b5 # b6 # b7 # b8 # b9 # rest" and "13 \<le> length rest"
    by (auto simp: numeral_eq_Suc Suc_le_length_iff)
  then obtain b10 b11 b12 rest' where rest: "rest = b10 # b11 # b12 # rest'" and "10 \<le> length rest'"
    by (auto simp: numeral_eq_Suc Suc_le_length_iff)
  then show ?thesis
    unfolding buf rest stream_fields_ok_def
    by (auto simp: parse_stream_def split_byte_def advance_def get_u32_def get_u16_def or_error_Some
        Let_def)
qed

lemma strm_interval_Some: "17 \<le> length buf \<Longrightarrow> \<exists>d. strm_interval buf = Some d"
  using strm_interval_no_panic [of buf] by auto

lemma parse_strm_Error:
  "parse_strm msg buf = Some Error \<longleftrightarrow>
    length buf < 24 \<or> buf ! 0 = byte_of (CHR ''s'') \<and> \<not> stream_fields_ok (tl buf)"
proof (cases "length buf < 24")
  case False
  then obtain c rest where buf: "buf = c # rest" and rest: "23 \<le> length rest"
    by (cases buf) auto
  have c: "chr_of c = CHR ''s'' \<longleftrightarrow> c = byte_of (CHR ''s'')"
    by (metis byte_of_chr_of chr_of_byte_of)
  obtain d where "strm_interval rest = Some d"
    using strm_interval_Some [of rest] rest by auto
  with False buf c parse_stream_Error [OF rest] show ?thesis
    by (auto simp: parse_strm_def split_byte_def)
qed (simp add: parse_strm_def)

lemma parse_other_Error:
  "parse_serv buf = Some Error \<longleftrightarrow> length buf < 4"
  "parse_aude buf = Some Error \<longleftrightarrow> length buf < 2"
  "parse_audg buf = Some Error \<longleftrightarrow> length buf < 18"
  "parse_setd buf = Some Error \<longleftrightarrow> buf = []"
  by (auto simp: parse_serv_def parse_aude_def parse_audg_def parse_setd_def get_u32_def
      advance_def split_byte_def Let_def split: list.splits)

lemma opcode_eq:
  "4 \<le> length src \<Longrightarrow> is_ascii op \<Longrightarrow> from_utf8_lossy (take 4 src) = op \<longleftrightarrow> take 4 src = as_bytes op"
  by (rule from_utf8_lossy_eq_ascii)

lemma server_message_from_Error:
  assumes "4 \<le> length src"
  shows "server_message_from src = Some Error \<longleftrightarrow> malformed src"
proof -
  have "server_message_from src =
      (let t = take 4 src; buf = drop 4 src
       in if t = as_bytes ''serv'' then parse_serv buf
          else if t = as_bytes ''strm'' then parse_strm (from_utf8_lossy t) buf
          else if t = as_bytes ''aude'' then parse_aude buf
          else if t = as_bytes ''audg'' then parse_audg buf
          else if t = as_bytes ''setd'' then parse_setd buf
          else Some (Unrecognised (from_utf8_lossy t)))"
    using assms by (simp add: server_message_from_def split_to_def Let_def opcode_eq)
  then show ?thesis
    by (auto simp: malformed_def Let_def parse_strm_Error parse_other_Error)
qed

end
