(* ===== verification/Status.thy ===== *)
theory Status
  imports Rust_Text
begin

text \<open>
  \<^verbatim>\<open>lms-proto/src/status.rs\<close>: the \<^verbatim>\<open>StatusData\<close> block that every STAT message carries, its
  update methods and the event codes.  An \<^verbatim>\<open>Instant\<close> is a monotonic clock value in
  nanoseconds.  \<^verbatim>\<open>make_status_message\<close> is in theory \<^verbatim>\<open>Client_Messages\<close>, after the type of
  the message it builds.
\<close>

type_synonym instant = nat

record status_data =
  crlf :: u8
  buffer_size :: u32
  fullness :: u32
  bytes_received :: u64
  sig_strength :: u16
  jiffies :: duration
  output_buffer_size :: u32
  output_buffer_fullness :: u32
  elapsed_seconds :: u32
  voltage :: u16
  elapsed_milliseconds :: u32
  timestamp :: duration
  error_code :: u16
  start :: instant

definition add_crlf :: "u8 \<Rightarrow> status_data \<Rightarrow> status_data" where
  "add_crlf num_crlf st = st\<lparr>crlf := crlf st + num_crlf\<rparr>"

definition set_fullness :: "u32 \<Rightarrow> status_data \<Rightarrow> status_data" where
  "set_fullness n st = st\<lparr>fullness := n\<rparr>"

definition add_bytes_received :: "u64 \<Rightarrow> status_data \<Rightarrow> status_data" where
  "add_bytes_received n st = st\<lparr>bytes_received := bytes_received st + n\<rparr>"

definition set_jiffies :: "duration \<Rightarrow> status_data \<Rightarrow> status_data" where
  "set_jiffies d st = st\<lparr>jiffies := d\<rparr>"

definition set_output_buffer_size :: "u32 \<Rightarrow> status_data \<Rightarrow> status_data" where
  "set_output_buffer_size n st = st\<lparr>output_buffer_size := n\<rparr>"

definition set_output_buffer_fullness :: "u32 \<Rightarrow> status_data \<Rightarrow> status_data" where
  "set_output_buffer_fullness n st = st\<lparr>output_buffer_fullness := n\<rparr>"

definition set_elapsed_seconds :: "u32 \<Rightarrow> status_data \<Rightarrow> status_data" where
  "set_elapsed_seconds n st = st\<lparr>elapsed_seconds := n\<rparr>"

definition set_elapsed_milli_seconds :: "u32 \<Rightarrow> status_data \<Rightarrow> status_data" where
  "set_elapsed_milli_seconds n st = st\<lparr>elapsed_milliseconds := n\<rparr>"

definition set_buffer_size :: "u32 \<Rightarrow> status_data \<Rightarrow> status_data" where
  "set_buffer_size n st = st\<lparr>buffer_size := n\<rparr>"

definition set_timestamp :: "duration \<Rightarrow> status_data \<Rightarrow> status_data" where
  "set_timestamp d st = st\<lparr>timestamp := d\<rparr>"

lemmas status_setters =
  add_crlf_def set_fullness_def add_bytes_received_def set_jiffies_def
  set_output_buffer_size_def set_output_buffer_fullness_def set_elapsed_seconds_def
  set_elapsed_milli_seconds_def set_buffer_size_def set_timestamp_def

text \<open>\<^verbatim>\<open>StatusData::default()\<close> at the clock value \<open>now\<close>.\<close>

definition status_default :: "instant \<Rightarrow> status_data" where
  "status_default now =
     \<lparr>crlf = 0, buffer_size = 0, fullness = 0, bytes_received = 0, sig_strength = 0,
      jiffies = duration_zero, output_buffer_size = 0, output_buffer_fullness = 0,
      elapsed_seconds = 0, voltage = 0, elapsed_milliseconds = 0, timestamp = duration_zero,
      error_code = 0, start = now\<rparr>"

datatype status_code =
    Connect | DecoderReady | StreamEstablished | Flushed | HeadersReceived | BufferThreshold
  | NotSupported | OutputUnderrun | Pause | Resume | TrackStarted | Timer | Underrun

definition show_status_code :: "status_code \<Rightarrow> string" where
  "show_status_code c =
     ''STM'' @
     (case c of
        Connect \<Rightarrow> ''c''
      | DecoderReady \<Rightarrow> ''d''
      | StreamEstablished \<Rightarrow> ''e''
      | Flushed \<Rightarrow> ''f''
      | HeadersReceived \<Rightarrow> ''h''
      | BufferThreshold \<Rightarrow> ''l''
      | NotSupported \<Rightarrow> ''n''
      | OutputUnderrun \<Rightarrow> ''o''
      | Pause \<Rightarrow> ''p''
      | Resume \<Rightarrow> ''r''
      | TrackStarted \<Rightarrow> ''s''
      | Timer \<Rightarrow> ''t''
      | Underrun \<Rightarrow> ''u'')"

lemma length_show_status_code [simp]: "length (show_status_code c) = 4"
  by (cases c) (simp_all add: show_status_code_def)

lemma is_ascii_show_status_code [simp]: "is_ascii (show_status_code c)"
  by (cases c) (simp_all add: show_status_code_def is_ascii_def)

lemma show_status_code_inject: "show_status_code c = show_status_code d \<longleftrightarrow> c = d"
  by (cases c; cases d) (simp_all add: show_status_code_def)

text \<open>The byte counter is a running sum modulo $2^{64}$, and no other setter touches it.\<close>

lemma bytes_received_add: "unat (bytes_received (add_bytes_received n st)) =
    (unat (bytes_received st) + unat n) mod 2 ^ 64"
  by (simp add: add_bytes_received_def unat_word_ariths)

end
