(* ===== verification/Client_Messages.thy ===== *)
theory Client_Messages
  imports Status
begin

text \<open>
  The client half of \<^verbatim>\<open>lms-proto/src/messages.rs\<close>: \<^verbatim>\<open>ClientMessage\<close>, its serialisation
  \<^verbatim>\<open>impl From<ClientMessage> for Bytes\<close>, and \<^verbatim>\<open>StatusData::make_status_message\<close> of
  \<^verbatim>\<open>status.rs\<close>.  The specification is the server's view: a four byte opcode, a big-endian
  length, and the fields in their order (\<open>decode_client\<close>).
\<close>

section \<open>The messages and their serialisation\<close>

text \<open>Fields of \<open>Helo\<close> in the order of the source: device id, revision, MAC address, UUID, WLAN
  channel list, bytes received, language, capabilities.\<close>

datatype client_message =
    Helo u8 u8 bytes bytes u16 u64 "rchar \<times> rchar" string
  | Stat string status_data
  | Bye u8
  | Name string

definition helo_payload ::
    "u8 \<Rightarrow> u8 \<Rightarrow> bytes \<Rightarrow> bytes \<Rightarrow> u16 \<Rightarrow> u64 \<Rightarrow> rchar \<times> rchar \<Rightarrow> string \<Rightarrow> bytes" where
  "helo_payload device_id revision mac uuid wlan_channel_list received language capabilities =
     (let lang = [ucast (fst language), ucast (snd language)] :: bytes
      in as_bytes ''HELO'' @ put_u8 device_id @ put_u8 revision @ mac @ uuid
         @ put_u16 wlan_channel_list @ put_u64 received @ lang @ as_bytes capabilities)"

definition stat_payload :: "string \<Rightarrow> status_data \<Rightarrow> bytes" where
  "stat_payload event_code sd =
     as_bytes ''STAT'' @ as_bytes event_code @ put_u8 (crlf sd) @ put_u16 0
     @ put_u32 (buffer_size sd) @ put_u32 (fullness sd) @ put_u64 (bytes_received sd)
     @ put_u16 (sig_strength sd) @ put_u32 (millis_try_u32 (jiffies sd))
     @ put_u32 (output_buffer_size sd) @ put_u32 (output_buffer_fullness sd)
     @ put_u32 (elapsed_seconds sd) @ put_u16 (voltage sd) @ put_u32 (elapsed_milliseconds sd)
     @ put_u32 (millis_try_u32 (timestamp sd)) @ put_u16 (error_code sd)"

text \<open>The contents of \<^verbatim>\<open>msg\<close> before the length is spliced in.\<close>

fun client_payload :: "client_message \<Rightarrow> bytes" where
  "client_payload (Helo d r m u w n l c) = helo_payload d r m u w n l c"
| "client_payload (Bye val) = as_bytes ''BYE!'' @ put_u8 val"
| "client_payload (Stat e sd) = stat_payload e sd"
| "client_payload (Name name) = as_bytes ''SETD'' @ put_u8 0 @ as_bytes name"

definition u32_saturating_sub :: "u32 \<Rightarrow> u32 \<Rightarrow> u32" where
  "u32_saturating_sub a b = (if a < b then 0 else a - b)"

text \<open>\<^verbatim>\<open>msg.splice(4..4, msg_len)\<close> inserts the length behind the opcode.\<close>

definition client_to_bytes :: "client_message \<Rightarrow> bytes" where
  "client_to_bytes src =
     (let msg = client_payload src;
          msg_len = put_u32 (u32_saturating_sub (of_nat (length msg)) 4)
      in take 4 msg @ msg_len @ drop 4 msg)"

definition make_status_message :: "instant \<Rightarrow> status_code \<Rightarrow> status_data \<Rightarrow> client_message \<times> status_data"
  where
  "make_status_message now msgtype st =
     (let st' = set_jiffies (Duration (now - start st)) st
      in (Stat (show_status_code msgtype) st', st'))"

section \<open>The wire format as the server reads it\<close>

definition decode_helo :: "bytes \<Rightarrow> client_message option" where
  "decode_helo b = do {
     (device_id, b) \<leftarrow> split_byte b;
     (revision, b) \<leftarrow> split_byte b;
     (mac, b) \<leftarrow> split_to 6 b;
     (uuid, b) \<leftarrow> split_to 16 b;
     (wlan, b) \<leftarrow> get_u16 b;
     (received, b) \<leftarrow> get_u64 b;
     (l0, b) \<leftarrow> split_byte b;
     (l1, b) \<leftarrow> split_byte b;
     caps \<leftarrow> from_utf8 b;
     Some (Helo device_id revision mac uuid wlan received (ucast l0, ucast l1) caps)
   }"

definition decode_stat :: "bytes \<Rightarrow> client_message option" where
  "decode_stat b = do {
     (code, b) \<leftarrow> split_to 4 b;
     event \<leftarrow> from_utf8 code;
     (cr, b) \<leftarrow> split_byte b;
     (_, b) \<leftarrow> get_u16 b;
     (bsize, b) \<leftarrow> get_u32 b;
     (full, b) \<leftarrow> get_u32 b;
     (received, b) \<leftarrow> get_u64 b;
     (sig, b) \<leftarrow> get_u16 b;
     (jif, b) \<leftarrow> get_u32 b;
     (osize, b) \<leftarrow> get_u32 b;
     (ofull, b) \<leftarrow> get_u32 b;
     (secs, b) \<leftarrow> get_u32 b;
     (volt, b) \<leftarrow> get_u16 b;
     (millis, b) \<leftarrow> get_u32 b;
     (ts, b) \<leftarrow> get_u32 b;
     (err, b) \<leftarrow> get_u16 b;
     Some (Stat event
       \<lparr>crlf = cr, buffer_size = bsize, fullness = full, bytes_received = received,
        sig_strength = sig, jiffies = from_millis (ucast jif), output_buffer_size = osize,
        output_buffer_fullness = ofull, elapsed_seconds = secs, voltage = volt,
        elapsed_milliseconds = millis, timestamp = from_millis (ucast ts), error_code = err,
        start = 0\<rparr>)
   }"

definition decode_bye :: "bytes \<Rightarrow> client_message option" where
  "decode_bye b = do { (v, b) \<leftarrow> split_byte b; if b = [] then Some (Bye v) else None }"

definition decode_setd :: "bytes \<Rightarrow> client_message option" where
  "decode_setd b = do {
     (z, b) \<leftarrow> split_byte b;
     name \<leftarrow> from_utf8 b;
     if z = 0 then Some (Name name) else None
   }"

definition decode_body :: "bytes \<Rightarrow> bytes \<Rightarrow> client_message option" where
  "decode_body opcode body =
     (if opcode = as_bytes ''HELO'' then decode_helo body
      else if opcode = as_bytes ''STAT'' then decode_stat body
      else if opcode = as_bytes ''BYE!'' then decode_bye body
      else if opcode = as_bytes ''SETD'' then decode_setd body
      else None)"

definition decode_client :: "bytes \<Rightarrow> (client_message \<times> bytes) option" where
  "decode_client b = do {
     (opcode, b) \<leftarrow> split_to 4 b;
     (len, b) \<leftarrow> get_u32 b;
     (body, rest) \<leftarrow> split_to (unat len) b;
     m \<leftarrow> decode_body opcode body;
     Some (m, rest)
   }"

text \<open>What the wire can carry of a message: the language is cut to two bytes, the two
  \<^verbatim>\<open>Duration\<close>s to milliseconds that fit 32 bits (0 otherwise), and the start instant is not
  sent.\<close>

fun wire_view :: "client_message \<Rightarrow> client_message" where
  "wire_view (Helo d r m u w n l c) = Helo d r m u w n (ucast (ucast (fst l) :: u8), ucast (ucast (snd l) :: u8)) c"
| "wire_view (Stat e sd) =
     Stat e (sd\<lparr>jiffies := from_millis (ucast (millis_try_u32 (jiffies sd))),
                timestamp := from_millis (ucast (millis_try_u32 (timestamp sd))),
                start := 0\<rparr>)"
| "wire_view m = m"

text \<open>What the Rust types already guarantee (array lengths, UTF-8), a four byte event code, and
  a payload whose length fits the 32 bit length field.\<close>

fun client_fields_ok :: "client_message \<Rightarrow> bool" where
  "client_fields_ok (Helo d r m u w n l c) \<longleftrightarrow> length m = 6 \<and> length u = 16 \<and> is_string c"
| "client_fields_ok (Stat e sd) \<longleftrightarrow> length e = 4 \<and> is_string e"
| "client_fields_ok (Bye v) \<longleftrightarrow> True"
| "client_fields_ok (Name s) \<longleftrightarrow> is_string s"

definition client_ok :: "client_message \<Rightarrow> bool" where
  "client_ok m \<longleftrightarrow> client_fields_ok m \<and> length (client_payload m) < 2 ^ 32"

section \<open>Facts\<close>

lemma client_payload_ge4: "4 \<le> length (client_payload m)"
  by (cases m) (simp_all add: helo_payload_def stat_payload_def)

lemma length_client_to_bytes: "length (client_to_bytes m) = length (client_payload m) + 4"
  using client_payload_ge4 [of m] by (simp add: client_to_bytes_def Let_def)

lemma length_field:
  assumes "length (client_payload m) < 2 ^ 32"
  shows "unat (u32_saturating_sub (of_nat (length (client_payload m))) 4) =
    length (client_payload m) - 4"
proof -
  let ?n = "length (client_payload m)"
  have n: "unat (of_nat ?n :: u32) = ?n" using assms by (simp add: unat_of_nat)
  then have "(4 :: u32) \<le> of_nat ?n"
    using client_payload_ge4 [of m] by (simp add: word_le_nat_alt)
  then show ?thesis
    using n by (simp add: u32_saturating_sub_def unat_sub not_less)
qed

lemma client_frame_shape:
  assumes "client_ok m"
  obtains len where
    "client_to_bytes m = take 4 (client_payload m) @ put_u32 len @ drop 4 (client_payload m)"
    and "unat len = length (drop 4 (client_payload m))"
  using assms length_field [of m] that
  by (auto simp: client_to_bytes_def client_ok_def Let_def)

lemma decode_helo_payload:
  assumes "length m = 6" "length u = 16" "is_string c"
  shows "decode_helo (drop 4 (helo_payload d r m u w n l c)) =
    Some (wire_view (Helo d r m u w n l c))"
proof -
  have "drop 4 (helo_payload d r m u w n l c) = put_u8 d @ put_u8 r @ m @ u @ put_u16 w @ put_u64 n
      @ ucast (fst l) # ucast (snd l) # as_bytes c"
    by (simp add: helo_payload_def Let_def)
  with assms show ?thesis
    by (simp add: decode_helo_def wire_simps)
qed

lemma decode_stat_payload:
  assumes "length e = 4" "is_string e"
  shows "decode_stat (drop 4 (stat_payload e sd)) = Some (wire_view (Stat e sd))"
proof -
  have e: "split_to 4 (as_bytes e @ rest) = Some (as_bytes e, rest)" for rest
    using assms by (simp add: wire_simps)
  show ?thesis
    using assms by (simp add: stat_payload_def decode_stat_def e wire_simps)
qed

lemma decode_setd_payload:
  "is_string s \<Longrightarrow> decode_setd (put_u8 0 @ as_bytes s) = Some (Name s)"
  by (simp add: decode_setd_def wire_simps)

lemma decode_bye_payload: "decode_bye (put_u8 v) = Some (Bye v)"
  by (simp add: decode_bye_def split_byte_def put_u8_def)

lemma take4_payload:
  "take 4 (helo_payload d r m u w n l c) = as_bytes ''HELO''"
  "take 4 (stat_payload e sd) = as_bytes ''STAT''"
  by (simp_all add: helo_payload_def stat_payload_def Let_def)

lemma decode_body_payload:
  "client_fields_ok m \<Longrightarrow>
    decode_body (take 4 (client_payload m)) (drop 4 (client_payload m)) = Some (wire_view m)"
  by (cases m) (simp_all add: decode_body_def take4_payload
      decode_helo_payload decode_stat_payload decode_setd_payload decode_bye_payload)

lemma decode_client_frame:
  assumes "client_ok m"
  shows "decode_client (client_to_bytes m @ rest) = Some (wire_view m, rest)"
proof -
  from client_frame_shape [OF assms] obtain len where
    shape: "client_to_bytes m = take 4 (client_payload m) @ put_u32 len @ drop 4 (client_payload m)"
    and len: "unat len = length (drop 4 (client_payload m))" .
  have op: "split_to 4 (take 4 (client_payload m) @ r) = Some (take 4 (client_payload m), r)" for r
    using client_payload_ge4 [of m] by (intro split_to_append) simp
  have body: "split_to (unat len) (drop 4 (client_payload m) @ rest)
      = Some (drop 4 (client_payload m), rest)"
    using len by (intro split_to_append) simp
  have "client_fields_ok m" using assms by (simp add: client_ok_def)
  then show ?thesis
    unfolding decode_client_def shape
    by (simp add: op body wire_simps decode_body_payload)
qed

lemma client_to_bytes_nonempty: "client_to_bytes m \<noteq> []"
  using length_client_to_bytes [of m] by auto

interpretation client_wire: wire_format client_to_bytes decode_client wire_view client_ok
  by unfold_locales (rule decode_client_frame)

end
