(* ===== verification/Frames.thy ===== *)
theory Frames
  imports Server_Messages Client_Messages
begin

text \<open>
  \<^verbatim>\<open>lms-proto/src/frames.rs\<close>: \<^verbatim>\<open>LMSRecv\<close> cuts the byte stream from the server into length
  prefixed frames and parses each; \<^verbatim>\<open>LMSSend\<close> writes one serialised client message.  The
  socket is a script: the list of results that successive \<^verbatim>\<open>read\<close> or \<^verbatim>\<open>write\<close> calls return.
  A script that ends before the operation returns means that the call is still waiting.
\<close>

section \<open>Receiving\<close>

definition connection_reset :: io_error where
  "connection_reset = IoError ConnectionReset ''Server connection reset''"

definition data_corrupted :: io_error where
  "data_corrupted = IoError InvalidData ''Server data corrupted''"

text \<open>\<^verbatim>\<open>u16::from_be_bytes([self.buf[0], self.buf[1]]) as usize\<close>\<close>

definition frame_size :: "bytes \<Rightarrow> nat" where
  "frame_size buf = be_val (take 2 buf)"

text \<open>The \<^verbatim>\<open>while\<close> loop of \<^verbatim>\<open>decode\<close>: the buffer left behind and the result.\<close>

function decode_loop ::
    "bytes \<Rightarrow> server_message list \<Rightarrow> (bytes \<times> server_message list option io_result) exec" where
  "decode_loop buf messages =
     (if 2 < length buf then
        (if length buf < frame_size buf + 2 then
           (if messages = [] then Some (buf, Inr None) else Some (buf, Inr (Some messages)))
         else
           (case server_message_from (take (frame_size buf) (drop 2 buf)) of
              None \<Rightarrow> None
            | Some msg \<Rightarrow>
                if msg = Error then Some ([], Inl data_corrupted)
                else decode_loop (drop (frame_size buf) (drop 2 buf)) (messages @ [msg])))
      else Some (buf, Inr (Some messages)))"
  by pat_completeness auto
termination
  by (relation "measure (\<lambda>(buf, _). length buf)") auto

declare decode_loop.simps [simp del]

definition decode :: "bytes \<Rightarrow> (bytes \<times> server_message list option io_result) exec" where
  "decode buf = (if length buf \<le> 2 then Some (buf, Inr None) else decode_loop buf [])"

text \<open>\<^verbatim>\<open>recv\<close>: the new buffer, the rest of the script and the result; or it still waits, or the
  thread panicked.\<close>

datatype recv_outcome =
    RecvWaits bytes
  | RecvPanics
  | RecvReturns bytes "read_result list" "server_message list io_result"

fun recv :: "bytes \<Rightarrow> read_result list \<Rightarrow> recv_outcome" where
  "recv buf [] = RecvWaits buf"
| "recv buf (ReadOk c # rs) =
     (if c = [] then RecvReturns buf rs (Inl connection_reset)
      else case decode (buf @ c) of
          None \<Rightarrow> RecvPanics
        | Some (buf', Inr (Some item)) \<Rightarrow> RecvReturns buf' rs (Inr item)
        | Some (buf', Inr None) \<Rightarrow> recv buf' rs
        | Some (buf', Inl e) \<Rightarrow> RecvReturns buf' rs (Inl e))"
| "recv buf (ReadErr e # rs) =
     (if kind e = WouldBlock then recv buf rs
      else if kind e = Interrupted then recv buf rs
      else RecvReturns buf rs (Inl (IoError (kind e) (''Failed to read from stream: '' @ display e))))"

lemma recv_consumes: "recv buf rs = RecvReturns buf' rs' r \<Longrightarrow> length rs' < length rs"
proof (induction buf rs rule: recv.induct)
  case (2 buf c rs)
  then show ?case
    by (fastforce split: if_splits option.splits sum.splits)
qed (fastforce split: if_splits)+

section \<open>Sending\<close>

datatype write_result = WriteOk nat | WriteErr io_error

datatype send_outcome =
    SendWaits bytes
  | SendReturns bytes "write_result list" "unit io_result"

text \<open>The loop of \<^verbatim>\<open>send\<close>; the first argument is what the peer has received so far, \<open>fl\<close> is
  what \<^verbatim>\<open>flush\<close> will return.\<close>

fun send_loop :: "unit io_result \<Rightarrow> bytes \<Rightarrow> bytes \<Rightarrow> write_result list \<Rightarrow> send_outcome" where
  "send_loop fl out dst [] = SendWaits out"
| "send_loop fl out dst (WriteOk n # ws) =
     (if n = 0 then SendReturns out ws (Inl connection_reset)
      else if n < length dst then send_loop fl (out @ take n dst) (drop n dst) ws
      else SendReturns (out @ dst) ws fl)"
| "send_loop fl out dst (WriteErr e # ws) =
     (if kind e = WouldBlock then send_loop fl out dst ws
      else if kind e = Interrupted then send_loop fl out dst ws
      else SendReturns out ws (Inl (IoError (kind e) (''Failed to write to stream: '' @ display e))))"

definition send :: "unit io_result \<Rightarrow> client_message \<Rightarrow> write_result list \<Rightarrow> send_outcome" where
  "send fl msg ws = send_loop fl [] (client_to_bytes msg) ws"

section \<open>The stream as a sequence of frames\<close>

text \<open>The abstract view of the byte stream: the bodies of the complete frames and the bytes of
  the frame that has not arrived completely.\<close>

definition server_frame :: "bytes \<Rightarrow> bytes" where
  "server_frame body = put_u16 (of_nat (length body)) @ body"

function frames_of :: "bytes \<Rightarrow> bytes list \<times> bytes" where
  "frames_of buf =
     (if 2 < length buf \<and> frame_size buf + 2 \<le> length buf then
        (let (fs, r) = frames_of (drop (frame_size buf) (drop 2 buf))
         in (take (frame_size buf) (drop 2 buf) # fs, r))
      else ([], buf))"
  by pat_completeness auto
termination
  by (relation "measure length") auto

declare frames_of.simps [simp del]

text \<open>Parsing a list of frame bodies: stop at the first panic or malformed body.\<close>

fun run_frames :: "bytes list \<Rightarrow> (server_message list io_result) exec" where
  "run_frames [] = Some (Inr [])"
| "run_frames (f # fs) =
     (case server_message_from f of
        None \<Rightarrow> None
      | Some m \<Rightarrow>
          if m = Error then Some (Inl data_corrupted)
          else map_option (map_sum id ((#) m)) (run_frames fs))"

lemma frame_size_append: "2 \<le> length a \<Longrightarrow> frame_size (a @ b) = frame_size a"
  by (simp add: frame_size_def)

lemma frames_of_none: "length buf \<le> 2 \<or> length buf < frame_size buf + 2 \<Longrightarrow> frames_of buf = ([], buf)"
  by (subst frames_of.simps) auto

lemma frames_of_rest: "frames_of buf = (fs, r) \<Longrightarrow> frames_of r = ([], r)"
proof (induction buf arbitrary: fs rule: frames_of.induct)
  case (1 buf)
  show ?case
  proof (cases "2 < length buf \<and> frame_size buf + 2 \<le> length buf")
    case True
    with "1.prems" obtain gs where
      "frames_of (drop (frame_size buf) (drop 2 buf)) = (gs, r)"
      by (subst (asm) frames_of.simps) (auto split: prod.splits simp: Let_def)
    with "1.IH" True show ?thesis by blast
  next
    case False
    with "1.prems" show ?thesis
      by (subst (asm) frames_of.simps) (auto simp: frames_of_none)
  qed
qed

text \<open>Frames found in a prefix stay frames, and the rest is read with what follows.\<close>

lemma frames_of_append:
  "frames_of a = (fs, r) \<Longrightarrow> frames_of (a @ b) = (fs @ fst (frames_of (r @ b)), snd (frames_of (r @ b)))"
proof (induction a arbitrary: fs rule: frames_of.induct)
  case (1 a)
  show ?case
  proof (cases "2 < length a \<and> frame_size a + 2 \<le> length a")
    case True
    then have n: "frame_size (a @ b) = frame_size a" by (simp add: frame_size_append)
    from True "1.prems" obtain gs where
      gs: "frames_of (drop (frame_size a) (drop 2 a)) = (gs, r)"
      and fs: "fs = take (frame_size a) (drop 2 a) # gs"
      by (subst (asm) frames_of.simps) (auto split: prod.splits simp: Let_def)
    from "1.IH" [OF True gs] have
      "frames_of (drop (frame_size a) (drop 2 a) @ b) =
        (gs @ fst (frames_of (r @ b)), snd (frames_of (r @ b)))" .
    with True n fs show ?thesis
      by (subst frames_of.simps) simp
  next
    case False
    with "1.prems" show ?thesis
      by (subst (asm) frames_of.simps) auto
  qed
qed

lemma server_frame_size:
  "length body < 2 ^ 16 \<Longrightarrow> frame_size (server_frame body @ rest) = length body"
  by (simp add: frame_size_def server_frame_def put_u16_def be_val_be_bytes unat_of_nat)

lemma frames_of_server_frame:
  assumes "body \<noteq> []" "length body < 2 ^ 16"
  shows "frames_of (server_frame body @ rest) =
    (body # fst (frames_of rest), snd (frames_of rest))"
proof -
  have "drop 2 (server_frame body @ rest) = body @ rest"
    by (simp add: server_frame_def)
  with assms server_frame_size [OF assms(2), of rest] show ?thesis
    by (subst frames_of.simps)
      (auto simp: server_frame_def Let_def split: prod.splits simp flip: length_greater_0_conv)
qed

lemma frames_of_stream:
  "\<forall>f \<in> set fs. f \<noteq> [] \<and> length f < 2 ^ 16 \<Longrightarrow> frames_of r = ([], r) \<Longrightarrow>
    frames_of (concat (map server_frame fs) @ r) = (fs, r)"
  by (induction fs) (simp_all add: frames_of_server_frame)

section \<open>The decoder against the frames\<close>

definition finish :: "bytes \<Rightarrow> server_message list \<Rightarrow> server_message list io_result
    \<Rightarrow> bytes \<times> server_message list option io_result" where
  "finish r ms res =
     (case res of
        Inl e \<Rightarrow> ([], Inl e)
      | Inr ns \<Rightarrow> (r, Inr (if ms @ ns = [] \<and> 2 < length r then None else Some (ms @ ns))))"

lemma finish_error: "finish r ms (Inl e) = ([], Inl e)"
  by (simp add: finish_def)

lemma finish_snoc: "finish r (ms @ [m]) res = finish r ms (map_sum id ((#) m) res)"
  by (cases res) (simp_all add: finish_def)

lemma decode_loop_frames:
  "frames_of buf = (fs, r) \<Longrightarrow> decode_loop buf ms = map_option (finish r ms) (run_frames fs)"
proof (induction buf arbitrary: fs ms rule: frames_of.induct)
  case (1 buf)
  show ?case
  proof (cases "2 < length buf \<and> frame_size buf + 2 \<le> length buf")
    case True
    define f where "f = take (frame_size buf) (drop 2 buf)"
    from True "1.prems" obtain gs where
      gs: "frames_of (drop (frame_size buf) (drop 2 buf)) = (gs, r)" and fs: "fs = f # gs"
      by (subst (asm) frames_of.simps) (auto split: prod.splits simp: Let_def f_def)
    have step: "decode_loop buf ms =
      (case server_message_from f of None \<Rightarrow> None
       | Some m \<Rightarrow> if m = Error then Some ([], Inl data_corrupted)
           else decode_loop (drop (frame_size buf) (drop 2 buf)) (ms @ [m]))"
      using True by (subst decode_loop.simps) (simp add: f_def)
    show ?thesis
      unfolding step fs
      by (cases "server_message_from f")
        (simp_all add: "1.IH" [OF True gs] finish_error finish_snoc option.map_comp comp_def del: drop_drop)
  next
    case False
    with "1.prems" show ?thesis
      by (subst (asm) frames_of.simps)
        (auto simp: finish_def decode_loop.simps [of buf])
  qed
qed

lemma run_frames_Inr_length: "run_frames fs = Some (Inr ms) \<Longrightarrow> length ms = length fs"
proof (induction fs arbitrary: ms)
  case (Cons f fs)
  then obtain m res where "run_frames fs = Some res" "map_sum id ((#) m) res = Inr ms"
    by (auto split: option.splits if_splits)
  with Cons.IH show ?case by (cases res) auto
qed simp

text \<open>\<^verbatim>\<open>decode\<close> in terms of the frames: the complete frames are parsed in order, a message
  list is returned only when it is not empty, and the incomplete rest stays in the buffer.\<close>

lemma decode_frames:
  assumes "frames_of buf = (fs, r)"
  shows "decode buf =
    map_option (\<lambda>res. case res of
        Inl e \<Rightarrow> ([], Inl e)
      | Inr ms \<Rightarrow> (r, Inr (if fs = [] then None else Some ms))) (run_frames fs)"
proof (cases "length buf \<le> 2")
  case True
  with assms have "fs = []" "r = buf" by (auto simp: frames_of_none)
  with True show ?thesis by (simp add: decode_def)
next
  case False
  have r: "2 < length r" if "fs = []"
    using assms False that by (subst (asm) frames_of.simps) (auto split: if_splits prod.splits)
  have "finish r [] res = (case res of
        Inl e \<Rightarrow> ([], Inl e) | Inr ms \<Rightarrow> (r, Inr (if fs = [] then None else Some ms)))"
    if "run_frames fs = Some res" for res
    using that r run_frames_Inr_length [of fs] by (cases res) (auto simp: finish_def)
  then show ?thesis
    using False decode_loop_frames [OF assms, of "[]"]
    by (cases "run_frames fs") (simp_all add: decode_def)
qed

text \<open>Bodies that parse to a proper message.\<close>

definition good_body :: "bytes \<Rightarrow> bool" where
  "good_body f \<longleftrightarrow> 4 \<le> length f \<and> \<not> malformed f"

lemma good_body_parses:
  "good_body f \<Longrightarrow> \<exists>m. server_message_from f = Some m \<and> m \<noteq> Error"
  using server_message_from_panics [of f] server_message_from_Error [of f]
  by (cases "server_message_from f") (auto simp: good_body_def)

lemma run_frames_good:
  "list_all good_body fs \<Longrightarrow> run_frames fs = Some (Inr (map (\<lambda>f. the (server_message_from f)) fs))"
proof (induction fs)
  case (Cons f fs)
  then obtain m where "server_message_from f = Some m" "m \<noteq> Error"
    using good_body_parses by auto
  with Cons show ?case by simp
qed simp

text \<open>The first body that is not good decides: the thread panics if it is shorter than an opcode,
  otherwise the call fails.\<close>

lemma run_frames_first_bad:
  "run_frames fs =
    (case find (\<lambda>f. \<not> good_body f) fs of
       None \<Rightarrow> Some (Inr (map (\<lambda>f. the (server_message_from f)) fs))
     | Some f \<Rightarrow> if length f < 4 then None else Some (Inl data_corrupted))"
proof (induction fs)
  case (Cons f fs)
  show ?case
  proof (cases "good_body f")
    case True
    then obtain m where "server_message_from f = Some m" "m \<noteq> Error"
      using good_body_parses by auto
    with True Cons show ?thesis by (auto split: option.splits)
  next
    case False
    then show ?thesis
      using server_message_from_panics [of f] server_message_from_Error [of f]
      by (auto simp: good_body_def split: option.splits)
  qed
qed simp

lemma decode_first_bad:
  assumes "frames_of buf = (fs, r)" and "find (\<lambda>f. \<not> good_body f) fs = Some f"
  shows "decode buf = (if length f < 4 then None else Some ([], Inl data_corrupted))"
  using decode_frames [OF assms(1)] assms(2) by (simp add: run_frames_first_bad)

lemma decode_good:
  assumes "frames_of buf = (fs, r)" and "list_all good_body fs"
  shows "decode buf = Some (r, Inr (if fs = [] then None
    else Some (map (\<lambda>f. the (server_message_from f)) fs)))"
  using decode_frames [OF assms(1)] run_frames_good [OF assms(2)] by simp

section \<open>A receiving session\<close>

text \<open>The reader thread calls \<^verbatim>\<open>recv\<close> until it fails: all messages delivered, in order, and how
  the session ends.\<close>

datatype session_end = Waiting bytes | Panicked | Closed io_error

function session :: "bytes \<Rightarrow> read_result list \<Rightarrow> server_message list \<times> session_end" where
  "session buf rs =
     (case recv buf rs of
        RecvWaits b \<Rightarrow> ([], Waiting b)
      | RecvPanics \<Rightarrow> ([], Panicked)
      | RecvReturns b rs' (Inl e) \<Rightarrow> ([], Closed e)
      | RecvReturns b rs' (Inr ms) \<Rightarrow> (let (ms', e) = session b rs' in (ms @ ms', e)))"
  by pat_completeness auto
termination
  by (relation "measure (\<lambda>(_, rs). length rs)") (auto dest: recv_consumes)

declare session.simps [simp del]

text \<open>One read at a time.\<close>

lemma session_Nil [simp]: "session buf [] = ([], Waiting buf)"
  by (subst session.simps) simp

lemma session_retry [simp]:
  "kind e = WouldBlock \<or> kind e = Interrupted \<Longrightarrow> session buf (ReadErr e # rs) = session buf rs"
  by (subst (1 2) session.simps) auto

lemma session_more:
  "c \<noteq> [] \<Longrightarrow> decode (buf @ c) = Some (buf', Inr None) \<Longrightarrow> session buf (ReadOk c # rs) = session buf' rs"
  by (subst (1 2) session.simps) simp

lemma session_deliver:
  "c \<noteq> [] \<Longrightarrow> decode (buf @ c) = Some (buf', Inr (Some ms)) \<Longrightarrow>
    session buf (ReadOk c # rs) = (ms @ fst (session buf' rs), snd (session buf' rs))"
  by (subst session.simps) (simp add: case_prod_unfold Let_def)

text \<open>Scripts on which the connection neither closes nor fails, and the bytes they carry.\<close>

fun live :: "read_result \<Rightarrow> bool" where
  "live (ReadOk c) \<longleftrightarrow> c \<noteq> []"
| "live (ReadErr e) \<longleftrightarrow> kind e = WouldBlock \<or> kind e = Interrupted"

fun chunk :: "read_result \<Rightarrow> bytes" where
  "chunk (ReadOk c) = c"
| "chunk (ReadErr e) = []"

definition received :: "read_result list \<Rightarrow> bytes" where
  "received rs = concat (map chunk rs)"

lemma session_frames:
  assumes "list_all live rs" "frames_of r = ([], r)"
    and "list_all good_body (fst (frames_of (r @ received rs)))"
  shows "session r rs =
    (map (\<lambda>f. the (server_message_from f)) (fst (frames_of (r @ received rs))),
     Waiting (snd (frames_of (r @ received rs))))"
  using assms
proof (induction rs arbitrary: r)
  case Nil
  then show ?case by (simp add: received_def)
next
  case (Cons x rs)
  show ?case
  proof (cases x)
    case (ReadErr e)
    with Cons show ?thesis by (simp add: received_def)
  next
    case (ReadOk c)
    obtain fs r' where fr: "frames_of (r @ c) = (fs, r')" by force
    have all: "frames_of (r @ received (x # rs)) =
        (fs @ fst (frames_of (r' @ received rs)), snd (frames_of (r' @ received rs)))"
      using frames_of_append [OF fr, of "received rs"] ReadOk by (simp add: received_def)
    have good: "list_all good_body fs" "list_all good_body (fst (frames_of (r' @ received rs)))"
      using Cons.prems(3) unfolding all by simp_all
    have IH: "session r' rs = (map (\<lambda>f. the (server_message_from f)) (fst (frames_of (r' @ received rs))),
        Waiting (snd (frames_of (r' @ received rs))))"
      using Cons.IH [of r'] Cons.prems(1) good(2) frames_of_rest [OF fr] by simp
    note dec = decode_good [OF fr good(1)]
    have c: "c \<noteq> []" using Cons.prems(1) ReadOk by simp
    show ?thesis
      unfolding all unfolding ReadOk
      using dec by (cases "fs = []") (simp_all add: session_deliver [OF c] session_more [OF c] IH)
  qed
qed

section \<open>What the peer receives from a send\<close>

fun sent :: "send_outcome \<Rightarrow> bytes" where
  "sent (SendWaits out) = out"
| "sent (SendReturns out ws r) = out"

lemma send_loop_prefix: "\<exists>k \<le> length dst. sent (send_loop fl out dst ws) = out @ take k dst"
proof (induction fl out dst ws rule: send_loop.induct)
  case (2 fl out dst n ws)
  show ?case
  proof (cases "0 < n \<and> n < length dst")
    case True
    with "2.IH" obtain k where "k \<le> length (drop n dst)"
      "sent (send_loop fl (out @ take n dst) (drop n dst) ws) = (out @ take n dst) @ take k (drop n dst)"
      by auto
    with True show ?thesis
      by (intro exI [of _ "n + k"]) (auto simp: take_add)
  next
    case False
    then show ?thesis
      by (cases "n = 0") (auto intro: exI [of _ 0] exI [of _ "length dst"])
  qed
qed (auto intro: exI [of _ 0])

lemma send_loop_complete:
  "send_loop fl out dst ws = SendReturns out' ws' (Inr ()) \<Longrightarrow> out' = out @ dst"
  by (induction fl out dst ws rule: send_loop.induct) (auto split: if_splits)

text \<open>Scripts on which every write makes progress or asks to retry.\<close>

fun write_live :: "write_result \<Rightarrow> bool" where
  "write_live (WriteOk n) \<longleftrightarrow> 0 < n"
| "write_live (WriteErr e) \<longleftrightarrow> kind e = WouldBlock \<or> kind e = Interrupted"

fun is_write :: "write_result \<Rightarrow> bool" where
  "is_write (WriteOk n) \<longleftrightarrow> True"
| "is_write (WriteErr e) \<longleftrightarrow> False"

lemma send_loop_terminates:
  "list_all write_live ws \<Longrightarrow> dst \<noteq> [] \<Longrightarrow> length dst \<le> length (filter is_write ws) \<Longrightarrow>
    \<exists>ws'. send_loop fl out dst ws = SendReturns (out @ dst) ws' fl"
proof (induction fl out dst ws rule: send_loop.induct)
  case (2 fl out dst n ws)
  show ?case
  proof (cases "n < length dst")
    case True
    with "2.prems" have "drop n dst \<noteq> []" "length (drop n dst) \<le> length (filter is_write ws)"
      by auto
    with "2.IH" "2.prems" True show ?thesis by auto
  qed (use "2.prems" in auto)
qed auto

interpretation server_wire_frames: wire_format server_frame
    "\<lambda>b. do { (n, b) \<leftarrow> get_u16 b; split_to (unat n) b }" "\<lambda>f. f" "\<lambda>f. length f < 2 ^ 16"
  by unfold_locales (simp add: server_frame_def wire_simps unat_of_nat)

end
