(* ===== verification/Hello.thy ===== *)
theory Hello
  imports Capability Frames
begin

text \<open>
  \<^verbatim>\<open>lms-proto/src/proto.rs\<close>: the \<^verbatim>\<open>Hello\<close> builder, the handshake \<^verbatim>\<open>connect\<close> and the
  retrying \<^verbatim>\<open>connect_with_retry\<close>.  As in theory \<^verbatim>\<open>Frames\<close> the network is a script of results.
\<close>

record hello =
  h_device_id :: u8
  h_revision :: u8
  h_mac :: bytes
  h_uuid :: bytes
  h_wlan_channel_list :: u16
  h_bytes_received :: u64
  h_language :: "rchar \<times> rchar"
  h_reconnect :: bool
  h_caps :: "capability list"

definition hello_new :: hello where
  "hello_new =
     \<lparr>h_device_id = 0, h_revision = 0, h_mac = replicate 6 0, h_uuid = replicate 16 0,
      h_wlan_channel_list = 0, h_bytes_received = 0, h_language = (0, 0), h_reconnect = False,
      h_caps = []\<rparr>"

definition with_device_id :: "u8 \<Rightarrow> hello \<Rightarrow> hello" where
  "with_device_id v h = h\<lparr>h_device_id := v\<rparr>"

definition with_revision :: "u8 \<Rightarrow> hello \<Rightarrow> hello" where
  "with_revision v h = h\<lparr>h_revision := v\<rparr>"

definition with_mac :: "bytes \<Rightarrow> hello \<Rightarrow> hello" where
  "with_mac v h = h\<lparr>h_mac := v\<rparr>"

definition with_uuid :: "bytes \<Rightarrow> hello \<Rightarrow> hello" where
  "with_uuid v h = h\<lparr>h_uuid := v\<rparr>"

definition with_wlan_channel_list :: "u16 \<Rightarrow> hello \<Rightarrow> hello" where
  "with_wlan_channel_list v h = h\<lparr>h_wlan_channel_list := v\<rparr>"

definition with_bytes_received :: "u64 \<Rightarrow> hello \<Rightarrow> hello" where
  "with_bytes_received v h = h\<lparr>h_bytes_received := v\<rparr>"

definition with_language :: "rchar \<times> rchar \<Rightarrow> hello \<Rightarrow> hello" where
  "with_language v h = h\<lparr>h_language := v\<rparr>"

definition with_reconnect :: "bool \<Rightarrow> hello \<Rightarrow> hello" where
  "with_reconnect v h = h\<lparr>h_reconnect := v\<rparr>"

definition with_capabilities :: "capability list \<Rightarrow> hello \<Rightarrow> hello" where
  "with_capabilities v h = h\<lparr>h_caps := v\<rparr>"

text \<open>The HELO message that \<^verbatim>\<open>connect\<close> builds.\<close>

definition helo_message :: "hello \<Rightarrow> client_message" where
  "helo_message h =
     (let wlan_channel_list =
            (if h_reconnect h then or (h_wlan_channel_list h) 0x0400 else h_wlan_channel_list h)
      in Helo (h_device_id h) (h_revision h) (h_mac h) (h_uuid h) wlan_channel_list
           (h_bytes_received h) (h_language h) (show_caplist (h_caps h)))"

section \<open>Connecting with exponential backoff\<close>

definition transient :: "error_kind \<Rightarrow> bool" where
  "transient k \<longleftrightarrow>
     k = ConnectionRefused \<or> k = HostUnreachable \<or> k = NetworkUnreachable \<or> k = NetworkDown"

definition double_capped :: "duration \<Rightarrow> duration" where
  "double_capped delay = min (Duration (as_nanos delay * 2)) (from_secs 5)"

text \<open>The loop of \<^verbatim>\<open>connect_with_retry\<close> over the results of successive \<^verbatim>\<open>TcpStream::connect\<close>
  calls: the sleeps it makes and its result, if the script lets it return.\<close>

fun retry_loop :: "duration \<Rightarrow> unit io_result list \<Rightarrow> duration list \<times> unit io_result option" where
  "retry_loop delay [] = ([], None)"
| "retry_loop delay (Inr () # rs) = ([], Some (Inr ()))"
| "retry_loop delay (Inl e # rs) =
     (if transient (kind e)
      then (let (sleeps, r) = retry_loop (double_capped delay) rs in (delay # sleeps, r))
      else ([], Some (Inl e)))"

definition connect_with_retry :: "unit io_result list \<Rightarrow> duration list \<times> unit io_result option" where
  "connect_with_retry rs = retry_loop (from_millis 10) rs"

text \<open>What the network answers during one \<^verbatim>\<open>connect\<close>.\<close>

record net_script =
  n_connects :: "unit io_result list"
  n_nodelay :: "unit io_result"
  n_clone :: "unit io_result"
  n_writes :: "write_result list"
  n_flush :: "unit io_result"

text \<open>The outcome: what the server has received, and the receiver's initial buffer when the
  handshake succeeded.\<close>

datatype connect_outcome =
    ConnectWaits bytes
  | ConnectReturns bytes "bytes io_result"

definition connect :: "hello \<Rightarrow> net_script \<Rightarrow> connect_outcome" where
  "connect h net =
     (case snd (connect_with_retry (n_connects net)) of
        None \<Rightarrow> ConnectWaits []
      | Some (Inl e) \<Rightarrow> ConnectReturns [] (Inl e)
      | Some (Inr ()) \<Rightarrow>
     (case n_nodelay net of
        Inl e \<Rightarrow> ConnectReturns [] (Inl e)
      | Inr () \<Rightarrow>
     (case n_clone net of
        Inl e \<Rightarrow> ConnectReturns [] (Inl e)
      | Inr () \<Rightarrow>
     (case send (n_flush net) (helo_message h) (n_writes net) of
        SendWaits out \<Rightarrow> ConnectWaits out
      | SendReturns out ws (Inl e) \<Rightarrow> ConnectReturns out (Inl e)
      | SendReturns out ws (Inr ()) \<Rightarrow> ConnectReturns out (Inr [])))))"

section \<open>Facts\<close>

definition backoff :: "nat \<Rightarrow> duration" where
  "backoff k = Duration (min (10 ^ 7 * 2 ^ k) (5 * 10 ^ 9))"

lemma backoff_0: "backoff 0 = from_millis 10"
  by (simp add: backoff_def from_millis_def)

lemma double_capped_backoff: "double_capped (backoff k) = backoff (Suc k)"
  by (simp add: double_capped_def backoff_def from_secs_def min_duration min_def)

lemma retry_loop_sleeps:
  "retry_loop (backoff k) rs = (sleeps, r) \<Longrightarrow> sleeps = map backoff [k ..< k + length sleeps]"
proof (induction "backoff k" rs arbitrary: k sleeps rule: retry_loop.induct)
  case (3 e rs)
  show ?case
  proof (cases "transient (kind e)")
    case True
    with "3.prems" obtain ss where
      ss: "retry_loop (backoff (Suc k)) rs = (ss, r)" and sl: "sleeps = backoff k # ss"
      by (auto simp: double_capped_backoff Let_def split: prod.splits)
    have "ss = map backoff [Suc k ..< Suc k + length ss]"
      by (rule "3.hyps" [OF True double_capped_backoff ss])
    then have "backoff k # ss = map backoff [k ..< k + length (backoff k # ss)]"
      by (simp add: upt_conv_Cons del: upt_Suc)
    with sl show ?thesis by simp
  qed (use "3.prems" in auto)
qed auto

lemma retry_loop_result:
  "snd (retry_loop d rs) =
    (case dropWhile (\<lambda>r. case r of Inl e \<Rightarrow> transient (kind e) | Inr _ \<Rightarrow> False) rs of
       [] \<Rightarrow> None | r # _ \<Rightarrow> Some r)"
  by (induction d rs rule: retry_loop.induct) (auto simp: Let_def split: prod.splits)

lemma connect_ok:
  assumes "connect h net = ConnectReturns out (Inr buf)"
  shows "out = client_to_bytes (helo_message h) \<and> buf = []"
  using assms
  by (auto simp: connect_def send_def dest: send_loop_complete
      split: option.splits sum.splits unit.splits send_outcome.splits)

definition hello_ok :: "hello \<Rightarrow> bool" where
  "hello_ok h \<longleftrightarrow> length (h_mac h) = 6 \<and> length (h_uuid h) = 16 \<and>
     list_all cap_string_ok (h_caps h) \<and> length (show_caplist (h_caps h)) < 2 ^ 31"

lemma client_ok_helo: "hello_ok h \<Longrightarrow> client_ok (helo_message h)"
  by (simp add: hello_ok_def client_ok_def helo_message_def Let_def helo_payload_def
      is_string_show_caplist)

end
