(* ===== verification/Discovery.thy ===== *)
theory Discovery
  imports Rust_Text
begin

text \<open>
  \<^verbatim>\<open>lms-proto/src/discovery.rs\<close>: the answer of a server to a discovery broadcast.  A datagram
  that starts with \<^verbatim>\<open>E\<close> carries type-length-value items, which \<open>decode_tlv\<close> collects.  The
  socket calls are a script of results; the thread that repeats the broadcast has no effect on
  the result and is a function of its own.
\<close>

section \<open>The decoder\<close>

datatype server_tlv = TlvName string | TlvVersion string | TlvAddress ipv4 | TlvPort u16

type_synonym server_tlv_map = "string \<rightharpoonup> server_tlv"

definition utf8_or_default :: "bytes \<Rightarrow> string" where
  "utf8_or_default bs = (case from_utf8 bs of None \<Rightarrow> [] | Some s \<Rightarrow> s)"

text \<open>The \<^verbatim>\<open>match token.as_str()\<close>; \<^const>\<open>None\<close> is the \<^verbatim>\<open>break\<close>.\<close>

definition tlv_value :: "string \<Rightarrow> string \<Rightarrow> server_tlv option" where
  "tlv_value token value =
     (if token = ''NAME'' then Some (TlvName value)
      else if token = ''VERS'' then Some (TlvVersion value)
      else if token = ''IPAD'' then map_option TlvAddress (parse_ipv4 value)
      else if token = ''JSON'' then map_option TlvPort (parse_u16 value)
      else None)"

function decode_tlv_loop :: "bytes \<Rightarrow> server_tlv_map \<Rightarrow> server_tlv_map" where
  "decode_tlv_loop view ret =
     (if 4 < length view \<and> view ! 0 < 0x80 then
        (let token = utf8_or_default (take 4 view);
             valen = unat (view ! 4);
             view' = drop 5 view
         in if length view' < valen then ret
            else case tlv_value token (utf8_or_default (take valen view')) of
                None \<Rightarrow> ret
              | Some v \<Rightarrow> decode_tlv_loop (drop valen view') (ret(token \<mapsto> v)))
      else ret)"
  by pat_completeness auto
termination
  by (relation "measure (\<lambda>(view, _). length view)") (auto simp: Let_def)

declare decode_tlv_loop.simps [simp del]

definition decode_tlv :: "bytes \<Rightarrow> server_tlv_map" where
  "decode_tlv buf = decode_tlv_loop buf Map.empty"

section \<open>The result of discover\<close>

definition UDPMAXSIZE :: nat where
  "UDPMAXSIZE = 1450"

datatype sock_addr = V4 ipv4 u16 | V6

text \<open>\<open>UdpOk d a\<close>: the datagram \<open>d\<close> arrived from \<open>a\<close>.\<close>

datatype udp_result = UdpOk bytes sock_addr | UdpErr io_error

text \<open>The zero-initialised receive buffer after \<^verbatim>\<open>recv_from\<close>, and the length it reports.\<close>

definition udp_buffer :: "bytes \<Rightarrow> bytes" where
  "udp_buffer d = take UDPMAXSIZE d @ replicate (UDPMAXSIZE - length d) 0"

definition udp_len :: "bytes \<Rightarrow> nat" where
  "udp_len d = min (length d) UDPMAXSIZE"

text \<open>\<open>setup\<close>: the results of \<^verbatim>\<open>bind\<close>, \<^verbatim>\<open>set_broadcast\<close>, \<^verbatim>\<open>set_read_timeout\<close>,
  \<^verbatim>\<open>try_clone\<close> and the thread's \<^verbatim>\<open>spawn\<close>, in that order; the first error is returned.\<close>

definition discover ::
    "unit io_result list \<Rightarrow> udp_result \<Rightarrow> ((ipv4 \<times> u16) \<times> server_tlv_map option) option io_result" where
  "discover setup response =
     (case first_error setup of
        Some e \<Rightarrow> Inl e
      | None \<Rightarrow>
     (case response of
        UdpErr e \<Rightarrow> if kind e = WouldBlock then Inr None else Inl e
      | UdpOk d (V4 ip port) \<Rightarrow>
          (let buf = udp_buffer d;
               tlv = (if 0 < udp_len d \<and> buf ! 0 = byte_of (CHR ''E'')
                      then Some (decode_tlv (drop 1 buf)) else None)
           in Inr (Some ((ip, SLIM_PORT), tlv)))
      | UdpOk d V6 \<Rightarrow> Inr None))"

text \<open>The thread \<^verbatim>\<open>slim-discover\<close>, over the values of \<^verbatim>\<open>is_running\<close> it reads: what it sends, and where.\<close>

definition DISCOVER_REQUEST :: bytes where
  "DISCOVER_REQUEST =
     as_bytes ''eNAME'' @ 0 # as_bytes ''IPAD'' @ 0 # as_bytes ''JSON'' @ 0 # as_bytes ''VERS''"

fun broadcast_loop :: "bool list \<Rightarrow> (bytes \<times> ipv4 \<times> u16) list" where
  "broadcast_loop (True # rs) = (DISCOVER_REQUEST, 0xFFFFFFFF, SLIM_PORT) # broadcast_loop rs"
| "broadcast_loop _ = []"

text \<open>It asks for exactly the items that \<^const>\<open>decode_tlv\<close> accepts, and stops with the flag.\<close>

lemma discover_request_tokens:
  "(\<exists>value. tlv_value token value \<noteq> None) \<longleftrightarrow>
    token \<in> set (split_on (chr_of 0) (of_bytes (tl DISCOVER_REQUEST)))"
proof -
  have "split_on (chr_of 0) (of_bytes (tl DISCOVER_REQUEST)) = [''NAME'', ''IPAD'', ''JSON'', ''VERS'']"
    by (simp add: DISCOVER_REQUEST_def as_bytes_def of_bytes_def byte_of_def chr_of_def char_of_def
        bit_0)
  moreover have "parse_ipv4 (show_ipv4 0) \<noteq> None" "parse_u16 ''0'' \<noteq> None"
    by (simp_all add: parse_show_ipv4 parse_u16_def digit_val_def)
  ultimately show ?thesis by (auto simp: tlv_value_def)
qed

lemma broadcast_loop_stops:
  "broadcast_loop (replicate n True @ False # rs) =
    replicate n (DISCOVER_REQUEST, 0xFFFFFFFF, SLIM_PORT)"
  by (induction n) simp_all

section \<open>The items as the server writes them\<close>

fun tlv_token :: "server_tlv \<Rightarrow> string" where
  "tlv_token (TlvName s) = ''NAME''"
| "tlv_token (TlvVersion s) = ''VERS''"
| "tlv_token (TlvAddress ip) = ''IPAD''"
| "tlv_token (TlvPort p) = ''JSON''"

fun tlv_text :: "server_tlv \<Rightarrow> string" where
  "tlv_text (TlvName s) = s"
| "tlv_text (TlvVersion s) = s"
| "tlv_text (TlvAddress ip) = show_ipv4 ip"
| "tlv_text (TlvPort p) = show_nat (unat p)"

definition encode_tlv :: "server_tlv \<Rightarrow> bytes" where
  "encode_tlv t =
     as_bytes (tlv_token t) @ of_nat (length (tlv_text t)) # as_bytes (tlv_text t)"

definition tlv_ok :: "server_tlv \<Rightarrow> bool" where
  "tlv_ok t \<longleftrightarrow> is_string (tlv_text t) \<and> length (tlv_text t) < 256"

text \<open>Bytes at which the decoder stops.\<close>

definition stops :: "bytes \<Rightarrow> bool" where
  "stops tail \<longleftrightarrow> (\<forall>ret. decode_tlv_loop tail ret = ret)"

lemma tlv_value_encoded: "tlv_value (tlv_token t) (tlv_text t) = Some t"
  by (cases t) (simp_all add: tlv_value_def wire_simps)

lemma token_facts:
  "length (tlv_token t) = 4" "is_string (tlv_token t)" "as_bytes (tlv_token t) ! 0 < 0x80"
  by (cases t; simp add: as_bytes_def byte_of_def)+

lemma decode_tlv_loop_encode:
  assumes "tlv_ok t"
  shows "decode_tlv_loop (encode_tlv t @ rest) ret = decode_tlv_loop rest (ret(tlv_token t \<mapsto> t))"
proof -
  let ?v = "as_bytes (tlv_text t)"
  have view: "encode_tlv t @ rest =
      as_bytes (tlv_token t) @ of_nat (length (tlv_text t)) # ?v @ rest"
    by (simp add: encode_tlv_def)
  have len: "unat (of_nat (length (tlv_text t)) :: u8) = length (tlv_text t)"
    using assms by (simp add: tlv_ok_def unat_of_nat)
  have utf: "utf8_or_default (as_bytes s) = s" if "is_string s" for s
    using that by (simp add: utf8_or_default_def wire_simps)
  have str: "is_string (tlv_text t)" using assms by (simp add: tlv_ok_def)
  have nth4: "(as_bytes (tlv_token t) @ of_nat (length (tlv_text t)) # ?v @ rest) ! 4 =
      of_nat (length (tlv_text t))"
    using token_facts(1) [of t] nth_append_length [of "as_bytes (tlv_token t)"] by simp
  have nth0: "(as_bytes (tlv_token t) @ of_nat (length (tlv_text t)) # ?v @ rest) ! 0 < 0x80"
    using token_facts(1,3) [of t] by (simp add: nth_append)
  show ?thesis
    unfolding view
    by (subst decode_tlv_loop.simps)
      (use nth0 in \<open>simp add: nth4 len Let_def token_facts utf str tlv_value_encoded\<close>)
qed

lemma decode_tlv_loop_items:
  assumes "list_all tlv_ok ts" "stops tail"
  shows "decode_tlv_loop (concat (map encode_tlv ts) @ tail) ret =
    ret ++ map_of (rev (map (\<lambda>t. (tlv_token t, t)) ts))"
  using assms
proof (induction ts arbitrary: ret)
  case Nil
  then show ?case by (simp add: stops_def)
next
  case (Cons t ts)
  then show ?case by (simp add: decode_tlv_loop_encode)
qed

lemma utf8_valid_zeros: "utf8_valid (replicate n (0 :: u8))"
  by (rule utf8_valid_ascii) simp

lemma stops_zeros: "stops (replicate n 0)"
proof -
  have "decode_tlv_loop (replicate n 0) ret = ret" for ret
  proof (cases "4 < n")
    case True
    have "take 4 (replicate n (0 :: u8)) = replicate 4 0" using True by simp
    moreover have "utf8_or_default (replicate 4 0) = of_bytes (replicate 4 0)"
      by (simp only: utf8_or_default_def from_utf8_def utf8_valid_zeros if_True option.case)
    moreover have "tlv_value (of_bytes (replicate 4 0)) v = None" for v
      by (simp add: tlv_value_def of_bytes_def numeral_eq_Suc chr_of_def char_of_def)
    ultimately show ?thesis
      by (subst decode_tlv_loop.simps) (simp add: Let_def)
  qed (simp add: decode_tlv_loop.simps)
  then show ?thesis by (simp add: stops_def)
qed

text \<open>What the decoder stores under a token is a value of that token's kind.\<close>

lemma tlv_value_token: "tlv_value token v = Some t \<Longrightarrow> token = tlv_token t"
  by (auto simp: tlv_value_def split: if_splits)

lemma decode_tlv_loop_typed:
  "(\<forall>k t. ret k = Some t \<longrightarrow> k = tlv_token t) \<Longrightarrow> decode_tlv_loop view ret k = Some t \<Longrightarrow> k = tlv_token t"
proof (induction view ret rule: decode_tlv_loop.induct)
  case (1 view ret)
  show ?case
  proof (cases "decode_tlv_loop view ret = ret")
    case False
    then obtain v where c: "4 < length view \<and> view ! 0 < 0x80"
      "\<not> length (drop 5 view) < unat (view ! 4)"
      and v: "tlv_value (utf8_or_default (take 4 view))
        (utf8_or_default (take (unat (view ! 4)) (drop 5 view))) = Some v"
      and rec: "decode_tlv_loop view ret = decode_tlv_loop (drop (unat (view ! 4)) (drop 5 view))
        (ret(utf8_or_default (take 4 view) \<mapsto> v))"
      by (auto simp: decode_tlv_loop.simps [of view ret] Let_def simp del: drop_drop
          split: if_splits option.splits)
    have "\<forall>k t. (ret(utf8_or_default (take 4 view) \<mapsto> v)) k = Some t \<longrightarrow> k = tlv_token t"
      using "1.prems"(1) tlv_value_token [OF v] by simp
    with "1.IH" [OF c(1) refl refl refl c(2) v] "1.prems"(2) show ?thesis
      unfolding rec by blast
  qed (use "1.prems" in simp)
qed

section \<open>A truncated answer\<close>

text \<open>\<^verbatim>\<open>discover\<close> decodes the whole zero-filled receive buffer and not the bytes that
  arrived: a datagram cut off inside a value yields that value padded with zero bytes, which the
  decoder refuses on the received bytes alone.\<close>

lemma discover_truncated_datagram:
  "\<exists>m. discover [] (UdpOk (byte_of (CHR ''E'') # as_bytes ''NAME'' @ 5 # as_bytes ''box'') (V4 ip port)) =
      Inr (Some ((ip, SLIM_PORT), Some m)) \<and>
    m ''NAME'' = Some (TlvName (''box'' @ of_bytes [0, 0])) \<and>
    decode_tlv (as_bytes ''NAME'' @ 5 # as_bytes ''box'') = Map.empty"
proof -
  let ?d = "byte_of (CHR ''E'') # as_bytes ''NAME'' @ 5 # as_bytes ''box''"
  let ?t = "TlvName (''box'' @ of_bytes [0, 0])"
  have zeros: "replicate (1450 - 9) (0 :: u8) = [0, 0] @ replicate 1439 0"
    using replicate_add [of 2 1439 "0 :: u8"] by (simp add: numeral_2_eq_2)
  have enc: "encode_tlv ?t = as_bytes ''NAME'' @ 5 # as_bytes ''box'' @ [0, 0]"
    by (simp add: encode_tlv_def as_bytes_def of_bytes_def byte_of_def chr_of_def)
  have len: "length ?d = 9" by simp
  have "drop 1 (udp_buffer ?d) = encode_tlv ?t @ replicate 1439 0"
    unfolding udp_buffer_def len UDPMAXSIZE_def zeros enc by simp
  moreover have "tlv_ok ?t"
    by (auto simp: tlv_ok_def is_string_def as_bytes_def byte_of_def chr_of_def of_bytes_def
        intro!: utf8_valid_ascii)
  ultimately have "decode_tlv (drop 1 (udp_buffer ?d)) = [''NAME'' \<mapsto> ?t]"
    using decode_tlv_loop_items [of "[?t]", OF _ stops_zeros] by (simp add: decode_tlv_def)
  moreover have "udp_buffer ?d ! 0 = byte_of (CHR ''E'')" "0 < udp_len ?d"
    by (simp_all add: udp_buffer_def udp_len_def UDPMAXSIZE_def)
  moreover have "decode_tlv (as_bytes ''NAME'' @ 5 # as_bytes ''box'') = Map.empty"
    by (simp add: decode_tlv_def decode_tlv_loop.simps as_bytes_def byte_of_def Let_def)
  ultimately show ?thesis by (simp add: discover_def Let_def)
qed

end
