(* ===== verification/Slim_Buffer.thy ===== *)
theory Slim_Buffer
  imports Status
begin

text \<open>
  \<^verbatim>\<open>lms-proto/src/buffer.rs\<close>: \<^verbatim>\<open>SlimBuffer\<close>, a bounded buffer between a fill thread that reads
  the source and the consumer that calls \<^verbatim>\<open>read\<close>, \<^verbatim>\<open>fill_buf\<close> and \<^verbatim>\<open>consume\<close>.  Both threads
  share the mutex-protected \<^verbatim>\<open>State\<close> and two condition variables.

  Each section of code that holds the mutex is one atomic function on the state, and so is each
  \<^verbatim>\<open>notify_all\<close>, because the source notifies after it has released the mutex.  A thread parked
  in \<^verbatim>\<open>Condvar::wait\<close> is a program counter (\<open>FSleep\<close>, \<open>CSleep\<close>) that a notification of that
  variable, or a spurious wakeup, moves back to the test of the waiting condition.  The step
  relations \<open>fill_step\<close> and \<open>cons_step\<close> interleave freely.  A step is one that can happen, not one
  that must: a read of the source that never returns, which the documentation of the buffer warns
  of, is a run that stays in \<open>FRead\<close>.  The status block, behind a mutex of its own, is a field: its
  three entries that the buffer writes are written by no other thread while the buffer is in use,
  and no code panics while it holds that mutex.  Fields named \<open>g_\<dots>\<close> record the
  history and are never read by the code.
\<close>

section \<open>State\<close>

definition DEFAULT_CAPACITY :: nat where
  "DEFAULT_CAPACITY = 256 * 1024"

definition READ_CHUNK :: nat where
  "READ_CHUNK = 8 * 1024"

definition STAGING_SIZE :: nat where
  "STAGING_SIZE = 8 * 1024"

text \<open>Where the fill thread is: at the top of its loop, parked on \<^verbatim>\<open>writable\<close>, in
  \<^verbatim>\<open>source.read\<close> for at most that many bytes, before locking with the result, before
  \<^verbatim>\<open>readable.notify_all()\<close> and before the callback test (with \<^verbatim>\<open>reached\<close> and \<^verbatim>\<open>finished\<close>),
  returned.\<close>

datatype fill_pc =
    FTop | FSleep | FRead nat | FGot read_result | FNotify bool bool | FSignal bool bool | FDone

text \<open>A consumer call that goes through \<^verbatim>\<open>refill\<close>.\<close>

datatype call = CallRead nat | CallFillBuf

text \<open>Where the consumer is: between calls, before locking in \<^verbatim>\<open>refill\<close>, parked on
  \<^verbatim>\<open>readable\<close>, before \<^verbatim>\<open>writable.notify_all()\<close>; in \<^verbatim>\<open>drop\<close> before the notifications, in
  \<^verbatim>\<open>join\<close>, gone.\<close>

datatype cons_pc = CIdle | CRefill call | CSleep call | CNotify call | CDropNotify | CJoin | CDropped

record slim =
  sb_buf :: bytes
  sb_eof :: bool
  sb_error :: "io_error option"
  sb_shutdown :: bool
  sb_capacity :: nat
  sb_threshold :: u32
  sb_has_cb :: bool
  sb_status :: status_data
  sb_staging :: bytes
  sb_pos :: nat
  sb_fill :: fill_pc
  sb_signalled :: bool
  sb_cons :: cons_pc
  g_fetched :: bytes
  g_delivered :: bytes
  g_lens :: "nat list"
  g_calls :: nat
  g_failed :: "io_error list"
  g_raised :: "io_error list"
  g_base :: u64

text \<open>\<^verbatim>\<open>SlimBuffer::with_capacity\<close>, up to the spawned thread's first instruction.\<close>

definition with_capacity :: "nat \<Rightarrow> status_data \<Rightarrow> u32 \<Rightarrow> bool \<Rightarrow> slim" where
  "with_capacity cap st thr has_cb =
     (let capacity = max (max cap (unat thr)) 1
      in \<lparr>sb_buf = [], sb_eof = False, sb_error = None, sb_shutdown = False,
          sb_capacity = capacity, sb_threshold = thr, sb_has_cb = has_cb,
          sb_status = set_buffer_size (of_nat capacity) st,
          sb_staging = [], sb_pos = 0, sb_fill = FTop, sb_signalled = False, sb_cons = CIdle,
          g_fetched = [], g_delivered = [], g_lens = [], g_calls = 0, g_failed = [],
          g_raised = [], g_base = bytes_received st\<rparr>)"

definition slim_new :: "status_data \<Rightarrow> u32 \<Rightarrow> bool \<Rightarrow> slim" where
  "slim_new st thr has_cb = with_capacity DEFAULT_CAPACITY st thr has_cb"

definition buffered :: "slim \<Rightarrow> nat" where
  "buffered s = length (sb_buf s)"

section \<open>The fill thread\<close>

text \<open>Loop top, under the lock: stop, park, or compute \<^verbatim>\<open>want\<close>.\<close>

definition fill_top :: "slim \<Rightarrow> slim" where
  "fill_top s =
     (if \<not> sb_shutdown s \<and> sb_capacity s \<le> length (sb_buf s) then s\<lparr>sb_fill := FSleep\<rparr>
      else if sb_shutdown s then s\<lparr>sb_fill := FDone\<rparr>
      else s\<lparr>sb_fill := FRead (min (sb_capacity s - length (sb_buf s)) READ_CHUNK)\<rparr>)"

definition retriable :: "error_kind \<Rightarrow> bool" where
  "retriable k \<longleftrightarrow> k = Interrupted \<or> k = WouldBlock \<or> k = TimedOut"

text \<open>After the read, under the lock.\<close>

definition fill_store :: "read_result \<Rightarrow> slim \<Rightarrow> slim" where
  "fill_store r s =
     (if sb_shutdown s then s\<lparr>sb_fill := FDone\<rparr>
      else case r of
          ReadOk c \<Rightarrow>
            (if c = [] then s\<lparr>sb_eof := True, sb_fill := FNotify True True\<rparr>
             else let b = sb_buf s @ c
                  in s\<lparr>sb_buf := b, sb_status := set_fullness (of_nat (length b)) (sb_status s),
                       g_lens := g_lens s @ [length b],
                       sb_fill := FNotify (unat (sb_threshold s) \<le> length b) (sb_eof s)\<rparr>)
        | ReadErr e \<Rightarrow>
            (if retriable (kind e) then s\<lparr>sb_fill := FTop\<rparr>
             else s\<lparr>sb_error := Some e, sb_eof := True, g_failed := g_failed s @ [e],
                    sb_fill := FNotify True True\<rparr>))"

text \<open>\<^verbatim>\<open>shared.readable.notify_all()\<close> wakes a parked consumer.\<close>

definition notify_readable :: "slim \<Rightarrow> slim" where
  "notify_readable s = (case sb_cons s of CSleep c \<Rightarrow> s\<lparr>sb_cons := CRefill c\<rparr> | _ \<Rightarrow> s)"

definition fill_signal :: "bool \<Rightarrow> bool \<Rightarrow> slim \<Rightarrow> slim" where
  "fill_signal reached finished s =
     (let s1 = (if reached \<and> \<not> sb_signalled s
                then s\<lparr>sb_signalled := True, g_calls := g_calls s + (if sb_has_cb s then 1 else 0)\<rparr>
                else s)
      in s1\<lparr>sb_fill := (if finished then FDone else FTop)\<rparr>)"

text \<open>A read of at most \<open>want\<close> bytes.\<close>

fun legal_read :: "nat \<Rightarrow> read_result \<Rightarrow> bool" where
  "legal_read want (ReadOk c) \<longleftrightarrow> length c \<le> want"
| "legal_read want (ReadErr e) \<longleftrightarrow> True"

fun read_bytes :: "read_result \<Rightarrow> bytes" where
  "read_bytes (ReadOk c) = c"
| "read_bytes (ReadErr e) = []"

inductive fill_step :: "slim \<Rightarrow> slim \<Rightarrow> bool" where
  fs_top: "sb_fill s = FTop \<Longrightarrow> fill_step s (fill_top s)"
| fs_spurious: "sb_fill s = FSleep \<Longrightarrow> fill_step s (s\<lparr>sb_fill := FTop\<rparr>)"
| fs_read: "sb_fill s = FRead want \<Longrightarrow> legal_read want r \<Longrightarrow>
    fill_step s (s\<lparr>sb_fill := FGot r, g_fetched := g_fetched s @ read_bytes r\<rparr>)"
| fs_store: "sb_fill s = FGot r \<Longrightarrow> fill_step s (fill_store r s)"
| fs_notify: "sb_fill s = FNotify reached finished \<Longrightarrow>
    fill_step s ((notify_readable s)\<lparr>sb_fill := FSignal reached finished\<rparr>)"
| fs_signal: "sb_fill s = FSignal reached finished \<Longrightarrow>
    fill_step s (fill_signal reached finished s)"

section \<open>The consumer\<close>

text \<open>\<^verbatim>\<open>SlimBuffer::advance\<close>\<close>

definition slim_advance :: "nat \<Rightarrow> slim \<Rightarrow> slim" where
  "slim_advance n s =
     s\<lparr>sb_pos := sb_pos s + n, sb_status := add_bytes_received (of_nat n) (sb_status s),
       g_delivered := g_delivered s @ take n (drop (sb_pos s) (sb_staging s))\<rparr>"

text \<open>What \<^verbatim>\<open>read\<close> and \<^verbatim>\<open>fill_buf\<close> do once \<^verbatim>\<open>refill\<close> has succeeded, and the bytes they hand
  out.\<close>

fun call_bytes :: "call \<Rightarrow> slim \<Rightarrow> bytes" where
  "call_bytes (CallRead n) s = take n (drop (sb_pos s) (sb_staging s))"
| "call_bytes CallFillBuf s = drop (sb_pos s) (sb_staging s)"

fun finish_call :: "call \<Rightarrow> slim \<Rightarrow> slim" where
  "finish_call (CallRead n) s =
     (let avail = drop (sb_pos s) (sb_staging s)
      in (slim_advance (min (length avail) n) s)\<lparr>sb_cons := CIdle\<rparr>)"
| "finish_call CallFillBuf s = s\<lparr>sb_cons := CIdle\<rparr>"

text \<open>The first lines of \<^verbatim>\<open>refill\<close>: staged bytes suffice, or the staging area is cleared.\<close>

definition refill_enter :: "call \<Rightarrow> slim \<Rightarrow> slim" where
  "refill_enter c s =
     (if sb_pos s < length (sb_staging s) then finish_call c s
      else s\<lparr>sb_staging := [], sb_pos := 0, sb_cons := CRefill c\<rparr>)"

text \<open>The locked part of \<^verbatim>\<open>refill\<close>: park, report the end or the error, or move bytes.\<close>

definition refill_locked :: "call \<Rightarrow> slim \<Rightarrow> slim" where
  "refill_locked c s =
     (if sb_buf s = [] \<and> \<not> sb_eof s then s\<lparr>sb_cons := CSleep c\<rparr>
      else if sb_buf s = [] then
        (case sb_error s of
           Some e \<Rightarrow> s\<lparr>sb_error := None, sb_cons := CIdle, g_raised := g_raised s @ [e]\<rparr>
         | None \<Rightarrow> finish_call c s)
      else let n = min (length (sb_buf s)) STAGING_SIZE; b = drop n (sb_buf s)
           in s\<lparr>sb_staging := sb_staging s @ take n (sb_buf s), sb_buf := b,
                sb_status := set_fullness (of_nat (length b)) (sb_status s),
                sb_cons := CNotify c\<rparr>)"

text \<open>\<^verbatim>\<open>shared.writable.notify_all()\<close> wakes a parked fill thread.\<close>

definition notify_writable :: "slim \<Rightarrow> slim" where
  "notify_writable s = (if sb_fill s = FSleep then s\<lparr>sb_fill := FTop\<rparr> else s)"

definition slim_read :: "nat \<Rightarrow> slim \<Rightarrow> slim" where
  "slim_read n s = (if n = 0 then s else refill_enter (CallRead n) s)"

definition slim_fill_buf :: "slim \<Rightarrow> slim" where
  "slim_fill_buf s = refill_enter CallFillBuf s"

definition slim_consume :: "nat \<Rightarrow> slim \<Rightarrow> slim" where
  "slim_consume amt s = slim_advance (min amt (length (sb_staging s) - sb_pos s)) s"

inductive cons_step :: "slim \<Rightarrow> slim \<Rightarrow> bool" where
  cs_read: "sb_cons s = CIdle \<Longrightarrow> cons_step s (slim_read n s)"
| cs_fill_buf: "sb_cons s = CIdle \<Longrightarrow> cons_step s (slim_fill_buf s)"
| cs_consume: "sb_cons s = CIdle \<Longrightarrow> cons_step s (slim_consume amt s)"
| cs_refill: "sb_cons s = CRefill c \<Longrightarrow> cons_step s (refill_locked c s)"
| cs_spurious: "sb_cons s = CSleep c \<Longrightarrow> cons_step s (s\<lparr>sb_cons := CRefill c\<rparr>)"
| cs_notify: "sb_cons s = CNotify c \<Longrightarrow> cons_step s (finish_call c (notify_writable s))"
| cs_drop: "sb_cons s = CIdle \<Longrightarrow> cons_step s (s\<lparr>sb_shutdown := True, sb_cons := CDropNotify\<rparr>)"
| cs_drop_notify: "sb_cons s = CDropNotify \<Longrightarrow>
    cons_step s ((notify_readable (notify_writable s))\<lparr>sb_cons := CJoin\<rparr>)"
| cs_join: "sb_cons s = CJoin \<Longrightarrow> sb_fill s = FDone \<Longrightarrow> cons_step s (s\<lparr>sb_cons := CDropped\<rparr>)"

definition slim_step :: "slim \<Rightarrow> slim \<Rightarrow> bool" where
  "slim_step s t \<longleftrightarrow> fill_step s t \<or> cons_step s t"

definition slim_init :: "slim \<Rightarrow> bool" where
  "slim_init s \<longleftrightarrow> (\<exists>cap st thr has_cb. s = with_capacity cap st thr has_cb)"

abbreviation slim_reach :: "slim \<Rightarrow> bool" where
  "slim_reach \<equiv> reach slim_init slim_step"

inductive_cases fill_stepE: "fill_step s t"
inductive_cases cons_stepE: "cons_step s t"

section \<open>Invariants\<close>

lemmas slim_defs =
  fill_top_def fill_store_def notify_readable_def fill_signal_def slim_advance_def
  refill_enter_def refill_locked_def notify_writable_def slim_read_def slim_fill_buf_def
  slim_consume_def Let_def

lemmas slim_splits = if_splits option.splits read_result.splits cons_pc.splits

lemma finish_call_simps [simp]:
  "sb_buf (finish_call c s) = sb_buf s" "sb_eof (finish_call c s) = sb_eof s"
  "sb_error (finish_call c s) = sb_error s" "sb_shutdown (finish_call c s) = sb_shutdown s"
  "sb_capacity (finish_call c s) = sb_capacity s" "sb_threshold (finish_call c s) = sb_threshold s"
  "sb_has_cb (finish_call c s) = sb_has_cb s" "sb_staging (finish_call c s) = sb_staging s"
  "sb_fill (finish_call c s) = sb_fill s" "sb_signalled (finish_call c s) = sb_signalled s"
  "sb_cons (finish_call c s) = CIdle" "g_fetched (finish_call c s) = g_fetched s"
  "g_lens (finish_call c s) = g_lens s" "g_calls (finish_call c s) = g_calls s"
  "g_failed (finish_call c s) = g_failed s" "g_raised (finish_call c s) = g_raised s"
  "g_base (finish_call c s) = g_base s"
  "fullness (sb_status (finish_call c s)) = fullness (sb_status s)"
  "buffer_size (sb_status (finish_call c s)) = buffer_size (sb_status s)"
  by (cases c; simp add: slim_advance_def Let_def add_bytes_received_def)+

lemma finish_call_pos:
  "sb_pos s \<le> length (sb_staging s) \<Longrightarrow> sb_pos (finish_call c s) \<le> length (sb_staging s)"
  by (cases c) (auto simp: slim_advance_def Let_def)

lemma finish_call_pos_staged:
  "sb_staging s = [] \<Longrightarrow> sb_pos s = 0 \<Longrightarrow> sb_pos (finish_call c s) = 0"
  by (cases c) (auto simp: slim_advance_def Let_def)

lemma finish_call_drained:
  "drop (sb_pos s) (sb_staging s) = [] \<Longrightarrow> drop (sb_pos (finish_call c s)) (sb_staging s) = []"
  by (cases c) (auto simp: slim_advance_def Let_def)

text \<open>Bytes the fill thread holds between the read and the store.\<close>

fun in_flight :: "fill_pc \<Rightarrow> bytes" where
  "in_flight (FGot r) = read_bytes r"
| "in_flight _ = []"

text \<open>The bytes handed out, staged and buffered, in order: no consumer operation changes them.\<close>

definition pipeline :: "slim \<Rightarrow> bytes" where
  "pipeline s = g_delivered s @ drop (sb_pos s) (sb_staging s) @ sb_buf s"

lemma pipeline_advance [simp]: "pipeline (slim_advance n s) = pipeline s"
  by (simp add: pipeline_def slim_advance_def add.commute) (simp flip: drop_drop append_assoc)

lemma pipeline_control [simp]:
  "pipeline (s\<lparr>sb_cons := c\<rparr>) = pipeline s" "pipeline (s\<lparr>sb_fill := f\<rparr>) = pipeline s"
  "pipeline (s\<lparr>sb_shutdown := b\<rparr>) = pipeline s" "pipeline (s\<lparr>g_fetched := x\<rparr>) = pipeline s"
  "pipeline (notify_readable s) = pipeline s" "pipeline (notify_writable s) = pipeline s"
  "pipeline (fill_top s) = pipeline s" "pipeline (fill_signal r fin s) = pipeline s"
  by (auto simp: pipeline_def slim_defs split: cons_pc.split)

lemma pipeline_finish_call [simp]: "pipeline (finish_call c s) = pipeline s"
  by (cases c) (simp_all add: Let_def)

declare finish_call.simps [simp del]

lemma pipeline_refill_enter [simp]: "pipeline (refill_enter c s) = pipeline s"
  by (auto simp: refill_enter_def) (auto simp: pipeline_def)

lemma pipeline_refill_locked:
  "sb_staging s = [] \<Longrightarrow> sb_pos s = 0 \<Longrightarrow> pipeline (refill_locked c s) = pipeline s"
  by (auto simp: refill_locked_def Let_def pipeline_def [of "s\<lparr>sb_error := e, sb_cons := x, g_raised := r\<rparr>" for e x r]
      split: option.split) (auto simp: pipeline_def)

lemma consumer_frame [simp]:
  "g_fetched (refill_enter c s) = g_fetched s" "g_fetched (refill_locked c s) = g_fetched s"
  "g_fetched (slim_advance n s) = g_fetched s" "g_fetched (notify_writable s) = g_fetched s"
  "g_fetched (notify_readable s) = g_fetched s"
  "sb_shutdown (refill_enter c s) = sb_shutdown s" "sb_shutdown (refill_locked c s) = sb_shutdown s"
  "sb_shutdown (slim_advance n s) = sb_shutdown s" "sb_shutdown (notify_writable s) = sb_shutdown s"
  "sb_shutdown (notify_readable s) = sb_shutdown s"
  "sb_fill (refill_enter c s) = sb_fill s" "sb_fill (refill_locked c s) = sb_fill s"
  "sb_fill (slim_advance n s) = sb_fill s" "sb_fill (notify_readable s) = sb_fill s"
  "in_flight (sb_fill (notify_writable s)) = in_flight (sb_fill s)"
  by (auto simp: slim_defs split: option.split cons_pc.split)

text \<open>Space the fill thread has claimed.\<close>

fun claimed :: "fill_pc \<Rightarrow> nat" where
  "claimed (FRead want) = want"
| "claimed (FGot r) = length (read_bytes r)"
| "claimed _ = 0"

definition inv_capacity :: "slim \<Rightarrow> bool" where
  "inv_capacity s \<longleftrightarrow>
     0 < sb_capacity s \<and> unat (sb_threshold s) \<le> sb_capacity s \<and>
     length (sb_buf s) + claimed (sb_fill s) \<le> sb_capacity s"

definition inv_staging :: "slim \<Rightarrow> bool" where
  "inv_staging s \<longleftrightarrow>
     sb_pos s \<le> length (sb_staging s) \<and> length (sb_staging s) \<le> STAGING_SIZE \<and>
     (case sb_cons s of
        CRefill _ \<Rightarrow> sb_staging s = [] | CSleep _ \<Rightarrow> sb_staging s = []
      | CNotify _ \<Rightarrow> sb_pos s = 0 \<and> sb_staging s \<noteq> [] | _ \<Rightarrow> True)"

text \<open>Who may be where: the end of the source is announced by the last pass of the loop, and the
  shutdown flag belongs to the drop.\<close>

definition inv_control :: "slim \<Rightarrow> bool" where
  "inv_control s \<longleftrightarrow>
     (sb_eof s \<longrightarrow> sb_fill s \<in> {FNotify True True, FSignal True True, FDone}) \<and>
     (\<forall>r f. sb_fill s = FNotify r f \<or> sb_fill s = FSignal r f \<longrightarrow> f = sb_eof s) \<and>
     (sb_fill s = FDone \<longrightarrow> sb_eof s \<or> sb_shutdown s) \<and>
     (sb_shutdown s \<longleftrightarrow> sb_cons s \<in> {CDropNotify, CJoin, CDropped})"

text \<open>A parked thread has a reason to be parked or a notification on its way.\<close>

definition inv_wakeup :: "slim \<Rightarrow> bool" where
  "inv_wakeup s \<longleftrightarrow>
     (sb_fill s = FSleep \<longrightarrow>
        sb_capacity s \<le> length (sb_buf s) \<and> \<not> sb_shutdown s \<or>
        (\<exists>c. sb_cons s = CNotify c) \<or> sb_cons s = CDropNotify) \<and>
     (\<forall>c. sb_cons s = CSleep c \<longrightarrow>
        sb_buf s = [] \<and> \<not> sb_eof s \<or> (\<exists>r f. sb_fill s = FNotify r f))"

text \<open>No byte is lost, duplicated or reordered while the buffer is open.\<close>

definition inv_data :: "slim \<Rightarrow> bool" where
  "inv_data s \<longleftrightarrow>
     (\<exists>rest. g_fetched s = pipeline s @ rest \<and>
        (\<not> sb_shutdown s \<longrightarrow> rest = in_flight (sb_fill s)))"

definition inv_callback :: "slim \<Rightarrow> bool" where
  "inv_callback s \<longleftrightarrow>
     g_calls s = (if sb_signalled s \<and> sb_has_cb s then 1 else 0) \<and>
     ((sb_signalled s \<or> (\<exists>f. sb_fill s = FNotify True f \<or> sb_fill s = FSignal True f)) \<longleftrightarrow>
        sb_eof s \<or> (\<exists>l \<in> set (g_lens s). unat (sb_threshold s) \<le> l))"

definition inv_error :: "slim \<Rightarrow> bool" where
  "inv_error s \<longleftrightarrow>
     g_failed s = g_raised s @ (case sb_error s of None \<Rightarrow> [] | Some e \<Rightarrow> [e]) \<and>
     length (g_failed s) \<le> 1 \<and> (g_failed s \<noteq> [] \<longrightarrow> sb_eof s) \<and>
     (g_raised s \<noteq> [] \<longrightarrow> sb_buf s = [] \<and> drop (sb_pos s) (sb_staging s) = [])"

definition inv_status :: "slim \<Rightarrow> bool" where
  "inv_status s \<longleftrightarrow>
     bytes_received (sb_status s) = g_base s + of_nat (length (g_delivered s)) \<and>
     buffer_size (sb_status s) = of_nat (sb_capacity s) \<and>
     (g_lens s \<noteq> [] \<longrightarrow> fullness (sb_status s) = of_nat (length (sb_buf s))) \<and>
     (g_lens s = [] \<longrightarrow> sb_buf s = [])"

lemma inv_capacity_step: "inv_capacity s \<Longrightarrow> slim_step s t \<Longrightarrow> inv_capacity t"
proof (unfold slim_step_def, elim disjE)
  assume "inv_capacity s" "fill_step s t"
  then show ?thesis
    by (elim fill_stepE)
      (auto simp: inv_capacity_def slim_defs split: slim_splits elim: legal_read.elims)
next
  assume "inv_capacity s" "cons_step s t"
  then show ?thesis
    by (elim cons_stepE)
      (auto simp: inv_capacity_def slim_defs split: slim_splits)
qed

lemma inv_staging_step: "inv_staging s \<Longrightarrow> slim_step s t \<Longrightarrow> inv_staging t"
proof (unfold slim_step_def, elim disjE)
  assume "inv_staging s" "fill_step s t"
  then show ?thesis
    by (elim fill_stepE) (auto simp: inv_staging_def slim_defs split: slim_splits)
next
  assume "inv_staging s" "cons_step s t"
  then show ?thesis
    by (elim cons_stepE)
      (auto simp: inv_staging_def slim_defs STAGING_SIZE_def finish_call_pos
        finish_call_pos [of "s\<lparr>sb_fill := FTop\<rparr>" for s, simplified] finish_call_pos_staged
        split: slim_splits)
qed

lemma inv_control_step: "inv_control s \<Longrightarrow> slim_step s t \<Longrightarrow> inv_control t"
proof (unfold slim_step_def, elim disjE)
  assume "inv_control s" "fill_step s t"
  then show ?thesis
    by (elim fill_stepE) (auto simp: inv_control_def slim_defs split: slim_splits)
next
  assume "inv_control s" "cons_step s t"
  then show ?thesis
    by (elim cons_stepE) (auto simp: inv_control_def slim_defs split: slim_splits)
qed

lemma inv_wakeup_step:
  "inv_control s \<Longrightarrow> inv_wakeup s \<Longrightarrow> slim_step s t \<Longrightarrow> inv_wakeup t"
proof (unfold slim_step_def, elim disjE)
  assume "inv_control s" "inv_wakeup s" "fill_step s t"
  then show ?thesis
    by (elim fill_stepE) (auto simp: inv_control_def inv_wakeup_def slim_defs split: slim_splits)
next
  assume "inv_control s" "inv_wakeup s" "cons_step s t"
  then show ?thesis
    by (elim cons_stepE) (auto simp: inv_control_def inv_wakeup_def slim_defs split: slim_splits)
qed

lemma inv_callback_step:
  "inv_control s \<Longrightarrow> inv_callback s \<Longrightarrow> slim_step s t \<Longrightarrow> inv_callback t"
proof (unfold slim_step_def, elim disjE)
  assume "inv_control s" "inv_callback s" "fill_step s t"
  then show ?thesis
    by (elim fill_stepE)
      (auto simp: inv_control_def inv_callback_def slim_defs split: slim_splits)
next
  assume "inv_control s" "inv_callback s" "cons_step s t"
  then show ?thesis
    by (elim cons_stepE)
      (auto simp: inv_control_def inv_callback_def slim_defs split: slim_splits)
qed

lemma inv_error_step:
  "inv_control s \<Longrightarrow> inv_staging s \<Longrightarrow> inv_error s \<Longrightarrow> slim_step s t \<Longrightarrow> inv_error t"
proof (unfold slim_step_def, elim disjE)
  assume "inv_control s" "inv_staging s" "inv_error s" "fill_step s t"
  then show ?thesis
    by (elim fill_stepE)
      (auto simp: inv_control_def inv_error_def slim_defs split: slim_splits)
next
  assume "inv_control s" "inv_staging s" "inv_error s" "cons_step s t"
  then show ?thesis
    by (elim cons_stepE)
      (auto simp: inv_control_def inv_error_def inv_staging_def slim_defs finish_call_drained
        split: slim_splits)
qed

lemma pipeline_store:
  "pipeline (fill_store r s) = (if sb_shutdown s then pipeline s else pipeline s @ read_bytes r)"
  by (cases r) (auto simp: pipeline_def fill_store_def Let_def)

lemma store_frame:
  "g_fetched (fill_store r s) = g_fetched s" "sb_shutdown (fill_store r s) = sb_shutdown s"
  "in_flight (sb_fill (fill_store r s)) = []"
  by (auto simp: fill_store_def Let_def split: read_result.split)

lemma fill_frame:
  "g_fetched (fill_top s) = g_fetched s" "g_fetched (fill_signal r f s) = g_fetched s"
  "sb_shutdown (fill_top s) = sb_shutdown s" "sb_shutdown (fill_signal r f s) = sb_shutdown s"
  "in_flight (sb_fill (fill_top s)) = []" "in_flight (sb_fill (fill_signal r f s)) = []"
  by (auto simp: fill_top_def fill_signal_def Let_def)

lemma inv_data_step:
  "inv_staging s \<Longrightarrow> inv_data s \<Longrightarrow> slim_step s t \<Longrightarrow> inv_data t"
proof (unfold slim_step_def, elim disjE)
  assume "inv_data s" "fill_step s t"
  then show ?thesis
  proof (elim fill_stepE)
    fix r assume "inv_data s" "t = fill_store r s" "sb_fill s = FGot r"
    then show ?thesis by (auto simp: inv_data_def pipeline_store store_frame)
  qed (auto simp: inv_data_def fill_frame)
next
  assume "inv_staging s" "inv_data s" "cons_step s t"
  then show ?thesis
    by (elim cons_stepE)
      (auto simp: inv_data_def inv_staging_def slim_read_def slim_fill_buf_def slim_consume_def
        pipeline_refill_locked)
qed

lemma advance_count:
  assumes "n \<le> length (sb_staging s) - sb_pos s" and "inv_status s"
  shows "inv_status (slim_advance n s)"
  using assms by (simp add: inv_status_def slim_advance_def status_setters min_absorb2)

lemma inv_status_control [simp]:
  "inv_status (s\<lparr>sb_cons := x\<rparr>) = inv_status s" "inv_status (s\<lparr>sb_shutdown := b\<rparr>) = inv_status s"
  by (simp_all add: inv_status_def)

lemma finish_call_count: "inv_status s \<Longrightarrow> inv_status (finish_call c s)"
  using advance_count [of _ s] by (cases c) (simp_all add: finish_call.simps Let_def)

lemma refill_enter_count: "inv_status s \<Longrightarrow> inv_status (refill_enter c s)"
  using finish_call_count [of s c] by (simp add: refill_enter_def) (simp add: inv_status_def)

lemma refill_locked_count:
  "inv_status s \<Longrightarrow> inv_status (refill_locked c s)"
  using finish_call_count [of s c]
  by (auto simp: refill_locked_def Let_def split: option.split) (auto simp: inv_status_def status_setters)

lemma inv_status_step: "inv_status s \<Longrightarrow> slim_step s t \<Longrightarrow> inv_status t"
proof (unfold slim_step_def, elim disjE)
  assume "inv_status s" "fill_step s t"
  then show ?thesis
    by (elim fill_stepE)
      (auto simp: inv_status_def slim_defs status_setters split: slim_splits)
next
  assume inv: "inv_status s" and "cons_step s t"
  have n: "inv_status (notify_writable s)"
    using inv by (simp add: inv_status_def notify_writable_def)
  from n have "inv_status (notify_readable (notify_writable s))"
    by (simp add: notify_readable_def split: cons_pc.split)
  with \<open>cons_step s t\<close> inv n show ?thesis
    by (elim cons_stepE)
      (auto simp: slim_read_def slim_fill_buf_def slim_consume_def
        intro!: finish_call_count advance_count refill_locked_count refill_enter_count)
qed

section \<open>The invariant of the system\<close>

definition slim_inv :: "slim \<Rightarrow> bool" where
  "slim_inv s \<longleftrightarrow> inv_capacity s \<and> inv_staging s \<and> inv_control s \<and> inv_wakeup s \<and> inv_data s \<and>
     inv_callback s \<and> inv_error s \<and> inv_status s"

lemma slim_inv_init: "slim_init s \<Longrightarrow> slim_inv s"
  by (auto simp: slim_init_def slim_inv_def with_capacity_def Let_def inv_capacity_def
      inv_staging_def inv_control_def inv_wakeup_def inv_data_def pipeline_def inv_callback_def
      inv_error_def inv_status_def set_buffer_size_def)

lemma slim_inv_step: "slim_inv s \<Longrightarrow> slim_step s t \<Longrightarrow> slim_inv t"
  unfolding slim_inv_def
  using inv_capacity_step inv_staging_step inv_control_step inv_wakeup_step inv_data_step
    inv_callback_step inv_error_step inv_status_step by blast

interpretation slim: invariant slim_init slim_step slim_inv
  by unfold_locales (fact slim_inv_init slim_inv_step)+

section \<open>Consequences\<close>

lemmas slim_reach_inv = slim.reach_inv [unfolded slim_inv_def]

text \<open>While the buffer is open and nothing is left to hand out after the end of the source,
  everything fetched has been delivered.\<close>

lemma slim_complete:
  assumes "slim_reach s" "\<not> sb_shutdown s" "sb_eof s" "sb_buf s = []"
    "drop (sb_pos s) (sb_staging s) = []"
  shows "g_delivered s = g_fetched s"
  using slim_reach_inv [OF assms(1)] assms(2-)
  by (auto simp: inv_data_def inv_control_def pipeline_def)

text \<open>A parked consumer is never left alone: the fill thread is neither parked nor gone, and it
  can take a step.\<close>

lemma fill_can_step: "sb_fill s \<noteq> FDone \<Longrightarrow> \<exists>t. fill_step s t"
proof (cases "sb_fill s")
  case (FRead want)
  then have "fill_step s (s\<lparr>sb_fill := FGot (ReadOk []), g_fetched := g_fetched s @ read_bytes (ReadOk [])\<rparr>)"
    by (rule fs_read) simp
  then show ?thesis by blast
qed (auto intro: fill_step.intros)

lemma parked_consumer:
  assumes "slim_reach s" "sb_cons s = CSleep c"
  shows "sb_fill s \<noteq> FSleep \<and> sb_fill s \<noteq> FDone \<and> (\<exists>t. fill_step s t)"
proof -
  have inv: "inv_capacity s" "inv_control s" "inv_wakeup s"
    using slim_reach_inv [OF assms(1)] by auto
  have "\<not> sb_shutdown s" using inv(2) assms(2) by (simp add: inv_control_def)
  moreover have "sb_buf s = [] \<and> \<not> sb_eof s \<or> (\<exists>r f. sb_fill s = FNotify r f)"
    using inv(3) assms(2) by (simp add: inv_wakeup_def)
  ultimately have "sb_fill s \<noteq> FSleep" "sb_fill s \<noteq> FDone"
    using inv assms(2) by (auto simp: inv_capacity_def inv_control_def inv_wakeup_def)
  then show ?thesis using fill_can_step by blast
qed

text \<open>Once the shutdown flag is set, each step of the fill thread brings it closer to its end,
  and in the join it is not parked.\<close>

fun fill_rank :: "fill_pc \<Rightarrow> nat" where
  "fill_rank FDone = 0"
| "fill_rank FTop = 1"
| "fill_rank FSleep = 2"
| "fill_rank (FGot r) = 1"
| "fill_rank (FRead n) = 2"
| "fill_rank (FSignal r f) = (if f then 1 else 2)"
| "fill_rank (FNotify r f) = 3"

lemma shutdown_progress:
  assumes "sb_shutdown s" "fill_step s t"
  shows "sb_shutdown t" "fill_rank (sb_fill t) < fill_rank (sb_fill s)"
  using assms(2,1) by (cases, auto simp: slim_defs split: slim_splits)+

lemma join_not_parked: "slim_reach s \<Longrightarrow> sb_cons s = CJoin \<Longrightarrow> sb_fill s \<noteq> FSleep"
  using slim_reach_inv [of s] by (auto simp: inv_wakeup_def inv_control_def)

text \<open>In a join a thread that is not inside a read runs to its end by itself, without another read;
  one that is waits for the source alone, and then ends.\<close>

lemma join_no_new_read:
  assumes "sb_shutdown s" "fill_step s t" shows "sb_fill t \<noteq> FRead want"
  using assms(2,1) by cases (auto simp: slim_defs split: slim_splits)

lemma join_waits_for_read:
  assumes "slim_step s u" "sb_cons s = CJoin" "sb_fill s = FRead want"
  shows "\<exists>r. legal_read want r \<and> sb_fill u = FGot r"
  using assms unfolding slim_step_def by (auto elim!: fill_stepE cons_stepE)

lemma join_read_returns:
  assumes "sb_shutdown s" "sb_fill s = FRead want" "legal_read want r"
  shows "\<exists>u v. fill_step s u \<and> sb_fill u = FGot r \<and> fill_step u v \<and> sb_fill v = FDone"
proof -
  let ?u = "s\<lparr>sb_fill := FGot r, g_fetched := g_fetched s @ read_bytes r\<rparr>"
  have "fill_step ?u (fill_store r ?u)" by (rule fs_store) simp
  moreover have "sb_fill (fill_store r ?u) = FDone" using assms(1) by (simp add: fill_store_def)
  ultimately show ?thesis using fs_read [OF assms(2,3)] by (intro exI conjI) simp_all
qed

lemma fill_steps_join:
  assumes "slim_reach s" "sb_cons s = CJoin" "(fill_step ^^ n) s t"
  shows "slim_reach t \<and> sb_cons t = CJoin \<and> n + fill_rank (sb_fill t) \<le> fill_rank (sb_fill s)"
  using assms(3)
proof (induction n arbitrary: t)
  case (Suc n)
  then obtain u where u: "(fill_step ^^ n) s u" "fill_step u t" by auto
  with Suc.IH have ih: "slim_reach u" "sb_cons u = CJoin"
    "n + fill_rank (sb_fill u) \<le> fill_rank (sb_fill s)" by auto
  then have "sb_shutdown u" using slim_reach_inv [of u] by (simp add: inv_control_def)
  moreover have "slim_reach t" by (rule reach_step [OF ih(1)]) (simp add: slim_step_def u)
  moreover have "sb_cons t = CJoin"
    using u(2) ih(2) by cases (auto simp: slim_defs split: slim_splits)
  ultimately show ?case using shutdown_progress(2) [OF _ u(2)] ih(3) by simp
qed (simp add: assms)

section \<open>Sample runs\<close>

text \<open>A capacity of 4 with threshold 2: the source yields three bytes and the consumer reads two
  of them; then the source ends and the consumer reads the rest; a consumer that parks before
  anything was read; a source that fails; a buffer dropped while the fill thread is parked.\<close>

lemma reach_fill: "slim_reach s \<Longrightarrow> fill_step s t \<Longrightarrow> slim_reach t"
  by (rule reach_step [of _ _ s t]) (simp_all add: slim_step_def)

lemma reach_cons: "slim_reach s \<Longrightarrow> cons_step s t \<Longrightarrow> slim_reach t"
  by (rule reach_step [of _ _ s t]) (simp_all add: slim_step_def)

definition run_empty :: slim where
  "run_empty = with_capacity 4 (status_default 0) 2 True"

definition fetch :: "read_result \<Rightarrow> slim \<Rightarrow> slim" where
  "fetch r s = (fill_top s)\<lparr>sb_fill := FGot r, g_fetched := g_fetched s @ read_bytes r\<rparr>"

definition publish :: "bool \<Rightarrow> bool \<Rightarrow> slim \<Rightarrow> slim" where
  "publish reached finished s =
     fill_signal reached finished ((notify_readable s)\<lparr>sb_fill := FSignal reached finished\<rparr>)"

lemma reach_fetch:
  assumes "slim_reach s" "sb_fill s = FTop" "sb_fill (fill_top s) = FRead want" "legal_read want r"
  shows "slim_reach (fetch r s)"
proof -
  have "slim_reach (fill_top s)" by (rule reach_fill [OF assms(1)]) (rule fs_top [OF assms(2)])
  from reach_fill [OF this fs_read [OF assms(3,4)]] show ?thesis
    by (simp add: fetch_def fill_frame)
qed

lemma reach_publish:
  assumes "slim_reach s" "sb_fill s = FNotify reached finished"
  shows "slim_reach (publish reached finished s)"
  unfolding publish_def
  by (rule reach_fill [OF reach_fill [OF assms(1) fs_notify [OF assms(2)]]]) (rule fs_signal, simp)

definition run_three :: slim where
  "run_three = publish True False (fill_store (ReadOk [1, 2, 3]) (fetch (ReadOk [1, 2, 3]) run_empty))"

definition run_read :: "nat \<Rightarrow> slim \<Rightarrow> slim" where
  "run_read n s =
     finish_call (CallRead n) (notify_writable (refill_locked (CallRead n) (slim_read n s)))"

definition run_two :: slim where
  "run_two = run_read 2 run_three"

definition run_end :: slim where
  "run_end = slim_read 5 (publish True True (fill_store (ReadOk []) (fetch (ReadOk []) run_two)))"

definition run_parked :: slim where
  "run_parked = refill_locked (CallRead 1) (slim_read 1 run_empty)"

definition the_error :: io_error where
  "the_error = IoError ConnectionReset ''reset''"

definition run_failed :: slim where
  "run_failed = refill_locked (CallRead 1) (slim_read 1
     (publish True True (fill_store (ReadErr the_error) (fetch (ReadErr the_error) run_empty))))"

definition run_full :: slim where
  "run_full = fill_top (publish True False
     (fill_store (ReadOk [1, 2, 3, 4]) (fetch (ReadOk [1, 2, 3, 4]) run_empty)))"

definition run_dropped :: slim where
  "run_dropped = (notify_readable (notify_writable
     (run_full\<lparr>sb_shutdown := True, sb_cons := CDropNotify\<rparr>)))\<lparr>sb_cons := CJoin\<rparr>"

lemmas run_defs =
  run_empty_def fetch_def publish_def run_three_def run_read_def run_two_def run_end_def
  run_parked_def run_failed_def run_full_def run_dropped_def with_capacity_def slim_defs
  finish_call.simps READ_CHUNK_def STAGING_SIZE_def the_error_def retriable_def

lemma run_empty_reach: "slim_reach run_empty"
  by (rule reach_init) (auto simp: slim_init_def run_empty_def)

lemma run_three_reach: "slim_reach run_three"
  unfolding run_three_def
  by (intro reach_publish reach_fill [OF _ fs_store] reach_fetch [where want = 4] run_empty_reach)
    (simp_all add: run_defs)

lemma run_two_reach: "slim_reach run_two"
proof -
  have "slim_reach (slim_read 2 run_three)"
    by (rule reach_cons [OF run_three_reach]) (rule cs_read, simp add: run_defs)
  then have "slim_reach (refill_locked (CallRead 2) (slim_read 2 run_three))"
    by (rule reach_cons) (rule cs_refill, simp add: run_defs)
  then show ?thesis
    unfolding run_two_def run_read_def
    by (rule reach_cons) (rule cs_notify, simp add: run_defs)
qed

lemma run_end_reach: "slim_reach run_end"
  unfolding run_end_def
  by (intro reach_cons [OF _ cs_read] reach_publish reach_fill [OF _ fs_store]
      reach_fetch [where want = 4] run_two_reach)
    (simp_all add: run_defs)

lemma run_parked_reach: "slim_reach run_parked"
  unfolding run_parked_def
  by (intro reach_cons [OF _ cs_refill] reach_cons [OF _ cs_read] run_empty_reach)
    (simp_all add: run_defs)

lemma run_failed_reach: "slim_reach run_failed"
  unfolding run_failed_def
  by (intro reach_cons [OF _ cs_refill] reach_cons [OF _ cs_read] reach_publish
      reach_fill [OF _ fs_store] reach_fetch [where want = 4] run_empty_reach)
    (simp_all add: run_defs)

lemma run_full_reach: "slim_reach run_full"
  unfolding run_full_def
  by (intro reach_fill [OF _ fs_top] reach_publish reach_fill [OF _ fs_store]
      reach_fetch [where want = 4] run_empty_reach)
    (simp_all add: run_defs)

lemma run_dropped_reach: "slim_reach run_dropped"
  unfolding run_dropped_def
  by (intro reach_cons [OF _ cs_drop_notify] reach_cons [OF _ cs_drop] run_full_reach)
    (simp_all add: run_defs)

lemma run_values:
  "sb_fill run_full = FSleep" "sb_fill run_dropped = FTop" "sb_cons run_dropped = CJoin"
  "sb_cons run_parked = CSleep (CallRead 1)" "g_raised run_failed = [the_error]"
  "g_delivered run_two = [1, 2]" "sb_shutdown run_two = False" "g_delivered run_end = [1, 2, 3]"
  "g_fetched run_end = [1, 2, 3]" "sb_shutdown run_end = False" "sb_eof run_end"
  "sb_buf run_end = []" "drop (sb_pos run_end) (sb_staging run_end) = []" "g_calls run_end = 1"
  by (simp_all add: run_defs)

end
