(* ===== verification/Slim_Pipe.thy ===== *)
theory Slim_Pipe
  imports Slim_Buffer
begin

text \<open>
  What \<^verbatim>\<open>SlimBuffer\<close> promises its user, without threads, locks or staging: a bounded queue of
  bytes that is filled at one end, emptied at the other, and ended once, possibly with an error
  that is handed over after the last byte.  The concurrent buffer of theory \<^verbatim>\<open>Slim_Buffer\<close> is
  shown to implement it by a simulation.
\<close>

record pipe =
  pi_bound :: nat
  pi_queue :: bytes
  pi_out :: bytes
  pi_ended :: bool
  pi_pending :: "io_error option"
  pi_raised :: "io_error list"

definition pipe_init :: "pipe \<Rightarrow> bool" where
  "pipe_init p \<longleftrightarrow>
     pi_queue p = [] \<and> pi_out p = [] \<and> \<not> pi_ended p \<and> pi_pending p = None \<and> pi_raised p = []"

inductive pipe_step :: "pipe \<Rightarrow> pipe \<Rightarrow> bool" where
  put: "\<not> pi_ended p \<Longrightarrow> c \<noteq> [] \<Longrightarrow> length (pi_queue p) + length c \<le> pi_bound p \<Longrightarrow>
    pipe_step p (p\<lparr>pi_queue := pi_queue p @ c\<rparr>)"
| get: "pi_queue p = c @ q \<Longrightarrow> pipe_step p (p\<lparr>pi_queue := q, pi_out := pi_out p @ c\<rparr>)"
| finish: "\<not> pi_ended p \<Longrightarrow> pipe_step p (p\<lparr>pi_ended := True, pi_pending := e\<rparr>)"
| raise: "pi_ended p \<Longrightarrow> pi_queue p = [] \<Longrightarrow> pi_pending p = Some e \<Longrightarrow>
    pipe_step p (p\<lparr>pi_pending := None, pi_raised := pi_raised p @ [e]\<rparr>)"

definition pipe_of :: "slim \<Rightarrow> pipe" where
  "pipe_of s =
     \<lparr>pi_bound = sb_capacity s + STAGING_SIZE, pi_queue = drop (sb_pos s) (sb_staging s) @ sb_buf s,
      pi_out = g_delivered s, pi_ended = sb_eof s, pi_pending = sb_error s, pi_raised = g_raised s\<rparr>"

section \<open>Simulation\<close>

lemma pipe_of_control [simp]:
  "pipe_of (s\<lparr>sb_cons := c\<rparr>) = pipe_of s" "pipe_of (s\<lparr>sb_fill := f\<rparr>) = pipe_of s"
  "pipe_of (s\<lparr>sb_shutdown := b\<rparr>) = pipe_of s" "pipe_of (s\<lparr>g_fetched := x\<rparr>) = pipe_of s"
  "pipe_of (notify_readable s) = pipe_of s" "pipe_of (notify_writable s) = pipe_of s"
  "pipe_of (fill_top s) = pipe_of s" "pipe_of (fill_signal r fin s) = pipe_of s"
  by (auto simp: pipe_of_def slim_defs split: cons_pc.split)

lemma pipe_of_advance: "pipe_step (pipe_of s) (pipe_of (slim_advance n s))"
proof -
  let ?a = "drop (sb_pos s) (sb_staging s)"
  have "pi_queue (pipe_of s) = take n ?a @ drop n ?a @ sb_buf s"
    unfolding append_assoc [symmetric] append_take_drop_id by (simp add: pipe_of_def)
  from get [OF this] show ?thesis
    by (simp add: pipe_of_def slim_advance_def add.commute)
qed

lemma pipe_of_finish_call: "pipe_of (finish_call c s) = pipe_of s \<or> pipe_step (pipe_of s) (pipe_of (finish_call c s))"
  using pipe_of_advance by (cases c) (simp_all add: finish_call.simps Let_def)

lemma pipe_of_refill_enter:
  "pipe_of (refill_enter c s) = pipe_of s \<or> pipe_step (pipe_of s) (pipe_of (refill_enter c s))"
proof (cases "sb_pos s < length (sb_staging s)")
  case False
  then show ?thesis by (simp add: refill_enter_def pipe_of_def)
qed (use pipe_of_finish_call [of c s] in \<open>simp add: refill_enter_def\<close>)

lemma pipe_of_refill_locked:
  assumes "inv_staging s" "sb_cons s = CRefill c"
  shows "pipe_of (refill_locked c s) = pipe_of s \<or> pipe_step (pipe_of s) (pipe_of (refill_locked c s))"
proof -
  have empty: "sb_staging s = []" "sb_pos s = 0" using assms by (auto simp: inv_staging_def)
  consider "sb_buf s = []" "\<not> sb_eof s" | e where "sb_buf s = []" "sb_eof s" "sb_error s = Some e"
    | "sb_buf s = []" "sb_eof s" "sb_error s = None" | "sb_buf s \<noteq> []" by blast
  then show ?thesis
  proof cases
    case (2 e)
    then have "pipe_step (pipe_of s) ((pipe_of s)\<lparr>pi_pending := None, pi_raised := pi_raised (pipe_of s) @ [e]\<rparr>)"
      by (intro raise) (simp_all add: pipe_of_def empty)
    with 2 show ?thesis by (simp add: refill_locked_def pipe_of_def)
  next
    case 3
    then show ?thesis using pipe_of_finish_call [of c s] by (simp add: refill_locked_def)
  next
    case 4
    then show ?thesis by (simp add: refill_locked_def Let_def pipe_of_def empty)
  qed (simp add: refill_locked_def)
qed

lemma pipe_of_store:
  assumes "inv_capacity s" "inv_staging s" "inv_control s" "inv_error s" "sb_fill s = FGot r"
  shows "pipe_of (fill_store r s) = pipe_of s \<or> pipe_step (pipe_of s) (pipe_of (fill_store r s))"
proof -
  have open_end: "\<not> sb_eof s" using assms(3,5) by (auto simp: inv_control_def)
  have none: "sb_error s = None"
    using assms(4) open_end by (auto simp: inv_error_def split: option.splits)
  have room: "length (pi_queue (pipe_of s)) + length (read_bytes r) \<le> pi_bound (pipe_of s)"
    using assms(1,2,5) by (auto simp: inv_capacity_def inv_staging_def pipe_of_def)
  have fin: "pipe_step (pipe_of s) ((pipe_of s)\<lparr>pi_ended := True, pi_pending := e\<rparr>)" for e
    using open_end by (intro finish) (simp add: pipe_of_def)
  show ?thesis
  proof (cases r)
    case (ReadOk c)
    show ?thesis
    proof (cases "c = [] \<or> sb_shutdown s")
      case True
      then show ?thesis using ReadOk fin [of None] none
        by (auto simp: fill_store_def pipe_of_def)
    next
      case False
      then have "pipe_step (pipe_of s) ((pipe_of s)\<lparr>pi_queue := pi_queue (pipe_of s) @ c\<rparr>)"
        using ReadOk room open_end by (intro put) (simp_all add: pipe_of_def)
      then show ?thesis using False ReadOk by (simp add: fill_store_def Let_def pipe_of_def)
    qed
  next
    case (ReadErr e)
    then show ?thesis using fin [of "Some e"] by (auto simp: fill_store_def pipe_of_def)
  qed
qed

lemma pipe_of_step:
  assumes "slim_inv s" "slim_step s t"
  shows "pipe_of t = pipe_of s \<or> pipe_step (pipe_of s) (pipe_of t)"
proof -
  have inv: "inv_capacity s" "inv_staging s" "inv_control s" "inv_error s"
    using assms(1) by (simp_all add: slim_inv_def)
  from assms(2) consider "fill_step s t" | "cons_step s t" by (auto simp: slim_step_def)
  then show ?thesis
  proof cases
    case 1
    then show ?thesis
      by cases (use pipe_of_store [OF inv] in \<open>auto simp: slim_step_def\<close>)
  next
    case 2
    then show ?thesis
    proof cases
      case (cs_notify c)
      then show ?thesis using pipe_of_finish_call [of c "notify_writable s"] by simp
    qed (use pipe_of_refill_enter pipe_of_refill_locked [OF inv(2)] pipe_of_advance in
        \<open>auto simp: slim_read_def slim_fill_buf_def slim_consume_def\<close>)
  qed
qed

interpretation pipe: simulation slim_init slim_step slim_inv pipe_init pipe_step pipe_of
proof
  fix s assume "slim_init s"
  then show "pipe_init (pipe_of s)"
    by (auto simp: slim_init_def pipe_init_def pipe_of_def with_capacity_def Let_def)
qed (fact pipe_of_step)

end
