(* ===== verification/Proto_Properties.thy ===== *)
theory Proto_Properties
  imports Hello Discovery Slim_Pipe
begin

text \<open>
  The properties of the protocol crate (\<^verbatim>\<open>lms-proto\<close>): what is parsed and serialised on the control
  connection, how the connection is opened, how a server is found, and what the stream buffer
  guarantees in every interleaving of its two threads.  Each property is a consequence of the
  lemmas of the component it is about; each with hypotheses is followed by a witness.
\<close>

section \<open>Messages from the server\<close>

text \<open>\<^bold>\<open>C2\<close> However the bytes of a stream of well-formed frames are cut into reads, and however
  often a read is interrupted or would block, the receiver delivers exactly the messages of the
  frames, in order, and keeps the bytes of the frame that is not complete yet.\<close>

theorem recv_chunking:
  assumes "list_all live rs"
    and "received rs = concat (map server_frame fs) @ tail"
    and "list_all good_body fs" and "\<forall>f \<in> set fs. length f < 2 ^ 16"
    and "frames_of tail = ([], tail)"
  shows "session [] rs = (map (\<lambda>f. the (server_message_from f)) fs, Waiting tail)"
proof -
  have "\<forall>f \<in> set fs. f \<noteq> [] \<and> length f < 2 ^ 16"
    using assms(3,4) by (auto simp: list_all_iff good_body_def)
  then have "frames_of ([] @ received rs) = (fs, tail)"
    using assms(2,5) frames_of_stream [of fs tail] by simp
  with session_frames [of rs "[]"] assms(1,3) show ?thesis
    by (simp add: frames_of_none)
qed

theorem recv_chunking_witness:
  "session []
     [ReadOk [0], ReadErr (IoError WouldBlock []), ReadOk [6, 97, 117, 100],
      ReadErr (IoError Interrupted []), ReadOk [101, 0, 1, 0, 5, 115], ReadOk [101, 116, 100, 4, 0, 9]] =
   ([Enable False True, DisableDac], Waiting [0, 9])"
proof -
  let ?rs = "[ReadOk [0], ReadErr (IoError WouldBlock []), ReadOk [6, 97, 117, 100],
      ReadErr (IoError Interrupted []), ReadOk [101, 0, 1, 0, 5, 115], ReadOk [101, 116, 100, 4, 0, 9]]"
  let ?a = "encode_server (WEnable 0 1)" and ?b = "encode_server WDisableDac"
  have a: "?a = [97, 117, 100, 101, 0, 1]" and b: "?b = [115, 101, 116, 100, 4]"
    by (simp_all add: as_bytes_def byte_of_def)
  have good: "good_body ?a" "good_body ?b"
    unfolding good_body_def
    using server_message_from_Error [of ?a] server_message_from_Error [of ?b]
      server_message_from_encode [of "WEnable 0 1"] server_message_from_encode [of WDisableDac]
    by simp_all
  have "session [] ?rs = (map (\<lambda>f. the (server_message_from f)) [?a, ?b], Waiting [0, 9])"
  proof (rule recv_chunking)
    show "received ?rs = concat (map server_frame [?a, ?b]) @ [0, 9]"
      unfolding a b by (simp add: received_def server_frame_def put_u16_def be_bytes_numerals)
    show "frames_of [0, 9] = ([], [0, 9])" by (simp add: frames_of_none)
  qed (use good in \<open>simp_all add: a b\<close>)
  then show ?thesis
    using server_message_from_encode [of "WEnable 0 1"] server_message_from_encode [of WDisableDac]
    by simp
qed

text \<open>\<^bold>\<open>C3\<close> Every command the server can send, in the layout of the protocol, is parsed to the
  message it stands for: all fields of the stream command (including the threshold in KiB, the
  fixed point gain, the masking of unknown flags and the header text), gains, intervals, names.\<close>

theorem server_layout_parsed:
  assumes "wire_ok w"
  shows "server_message_from (encode_server w) = Some (meaning w)"
  using assms by (rule server_message_from_encode)

theorem server_layout_parsed_witness:
  "server_message_from (encode_server (WStream
     \<lparr>w_autostart = Auto, w_format = format.Mp3, w_samplesize = Twenty, w_samplerate = Rate 44100,
      w_channels = ChannelsSelfDescribing, w_endian = Big, w_threshold_kb = 1, w_spdif = Off,
      w_period_s = 3, w_trans = FadeInOut, w_flags = 1, w_output_ds = 2, w_reserved = 0,
      w_gain = 98304, w_port = 9001, w_ip = 0xAC100102, w_headers = []\<rparr>)) =
   Some (Stream
     \<lparr>autostart = Auto, sformat = format.Mp3, pcmsamplesize = Twenty, pcmsamplerate = Rate 44100,
      pcmchannels = ChannelsSelfDescribing, pcmendian = Big, threshold = 1024, spdif = Off,
      trans_period = from_secs 3, transtype = FadeInOut, flags = INVERT_POLARITY_LEFT,
      output_threshold = from_millis 200, replay_gain = 3 / 2, server_port = 9001,
      server_ip = 0xAC100102, http_headers = None\<rparr>)"
  by (subst server_layout_parsed)
    (simp_all add: stream_of_def rate_table_def INVERT_POLARITY_LEFT_def)

text \<open>\<^bold>\<open>C15\<close> A frame with an opcode is answered with \<open>Error\<close> exactly when it is malformed: too short
  for its command, or a stream command with one of the eight checked fields out of range.
  Unknown opcodes and unknown sub-commands are not errors.\<close>

theorem server_parser_errors:
  assumes "4 \<le> length src"
  shows "server_message_from src = Some Error \<longleftrightarrow> malformed src"
  using assms by (rule server_message_from_Error)

theorem server_parser_errors_witness:
  "server_message_from [97, 117, 100, 101, 1] = Some Error \<and> malformed [97, 117, 100, 101, 1]"
proof -
  have "malformed [97, 117, 100, 101, 1]"
    by (simp add: malformed_def Let_def as_bytes_def byte_of_def)
  then show ?thesis using server_parser_errors [of "[97, 117, 100, 101, 1]"] by simp
qed

text \<open>Every string in a parsed message (sync group, HTTP headers, player name, unrecognised
  command) is well-formed UTF-8, whatever the server sent.\<close>

lemma server_strings_wellformed: "server_message_from src = Some m \<Longrightarrow> server_strings_ok m"
  by (rule server_message_from_strings)

text \<open>\<^bold>\<open>C14\<close> One call of \<^verbatim>\<open>decode\<close>: the complete frames of the buffer are parsed in order up to the
  first bad one.  Without a bad frame the messages are returned (never an empty list) and the
  incomplete rest is kept; a malformed frame discards the whole buffer, the messages before it
  included; a frame of less than four bytes panics.\<close>

theorem decode_spec:
  "decode buf =
    (let (fs, r) = frames_of buf
     in case find (\<lambda>f. \<not> good_body f) fs of
          None \<Rightarrow> Some (r, Inr (if fs = [] then None
                                else Some (map (\<lambda>f. the (server_message_from f)) fs)))
        | Some f \<Rightarrow> if length f < 4 then None else Some ([], Inl data_corrupted))"
proof (cases "frames_of buf")
  case (Pair fs r)
  then show ?thesis
    using decode_frames [OF Pair] by (simp add: run_frames_first_bad split: option.split)
qed

section \<open>Messages to the server\<close>

text \<open>\<^bold>\<open>C4\<close> A server that reads the opcode, the length and the fields gets back every message of
  a stream of serialised client messages, each with all its fields as far as the format carries
  them, and finds the end of each message by its length field.\<close>

theorem client_stream_roundtrip:
  assumes "list_all client_ok ms"
  shows "dec_many decode_client (length ms) (concat (map client_to_bytes ms) @ rest) =
    Some (map wire_view ms, rest)"
  using assms by (rule client_wire.dec_stream)

theorem client_stream_roundtrip_witness:
  "dec_many decode_client 2 (client_to_bytes (Bye 55) @ client_to_bytes (Name ''BadBoy'') @ [9]) =
    Some ([Bye 55, Name ''BadBoy''], [9])"
proof -
  have "list_all client_ok [Bye 55, Name ''BadBoy'']" by (simp add: client_ok_def)
  from client_stream_roundtrip [OF this, of "[9]"] show ?thesis
    by (simp add: numeral_2_eq_2)
qed

text \<open>\<^bold>\<open>C22\<close> Every STAT message is 61 bytes: opcode, the length 53, the four letters of the status
  code, and the fixed fields; the clock field carries the milliseconds since the status block was
  created, and 0 from $2^{32}$ milliseconds (about 49.7 days) on.\<close>

theorem stat_message_layout:
  assumes "make_status_message now code st = (msg, st')"
  shows "length (client_to_bytes msg) = 61 \<and>
    take 12 (client_to_bytes msg) =
      as_bytes ''STAT'' @ [0, 0, 0, 53] @ as_bytes (show_status_code code) \<and>
    take 4 (drop 33 (client_to_bytes msg)) =
      be_bytes 4 (if (now - start st) div 10 ^ 6 < 2 ^ 32 then (now - start st) div 10 ^ 6 else 0) \<and>
    st' = st\<lparr>jiffies := Duration (now - start st)\<rparr>"
proof -
  let ?st = "st\<lparr>jiffies := Duration (now - start st)\<rparr>"
  have msg: "msg = Stat (show_status_code code) ?st" and st': "st' = ?st"
    using assms by (auto simp: make_status_message_def set_jiffies_def Let_def)
  have len: "length (client_payload msg) = 57" by (simp add: msg stat_payload_def)
  have field: "put_u32 (u32_saturating_sub 57 4) = [0, 0, 0, 53]"
    by (simp add: u32_saturating_sub_def put_u32_def be_bytes_numerals)
  have frame: "client_to_bytes msg = as_bytes ''STAT'' @ [0, 0, 0, 53] @ drop 4 (client_payload msg)"
    using len by (simp add: client_to_bytes_def Let_def field msg take4_payload)
  have "unat (millis_try_u32 (Duration (now - start st))) =
      (if (now - start st) div 10 ^ 6 < 2 ^ 32 then (now - start st) div 10 ^ 6 else 0)"
    by (simp add: millis_try_u32_def as_millis_def unat_of_nat)
  then show ?thesis
    using len st' frame by (simp add: msg stat_payload_def put_u32_def)
qed

theorem stat_message_layout_witness:
  "length (client_to_bytes (fst (make_status_message (5 * 10 ^ 6) Timer (status_default 0)))) = 61"
  using stat_message_layout [of "5 * 10 ^ 6" Timer "status_default 0"]
  by (metis prod.collapse)

text \<open>\<^bold>\<open>C19\<close> \<^verbatim>\<open>send\<close> copes with short writes: whatever the socket does, the peer has received a
  prefix of the serialised message, and exactly the message when \<^verbatim>\<open>send\<close> reports success.  It
  does not spin on a socket that accepts data: it has returned, with the result of the flush, as
  soon as as many writes made progress as the message has bytes.\<close>

theorem send_exact:
  "(\<exists>k. sent (send fl msg ws) = take k (client_to_bytes msg)) \<and>
   (\<forall>out ws'. send fl msg ws = SendReturns out ws' (Inr ()) \<longrightarrow> out = client_to_bytes msg) \<and>
   (list_all write_live ws \<and> length (client_to_bytes msg) \<le> length (filter is_write ws) \<longrightarrow>
      (\<exists>ws'. send fl msg ws = SendReturns (client_to_bytes msg) ws' fl))"
proof (intro conjI impI allI)
  show "\<exists>k. sent (send fl msg ws) = take k (client_to_bytes msg)"
    using send_loop_prefix [where out = "[]"] unfolding send_def by (metis append_Nil)
  show "out = client_to_bytes msg" if "send fl msg ws = SendReturns out ws' (Inr ())" for out ws'
    using send_loop_complete [where out = "[]"] that unfolding send_def by (metis append_Nil)
  show "\<exists>ws'. send fl msg ws = SendReturns (client_to_bytes msg) ws' fl"
    if "list_all write_live ws \<and> length (client_to_bytes msg) \<le> length (filter is_write ws)"
    using that send_loop_terminates [OF _ client_to_bytes_nonempty, where out = "[]"]
    by (simp add: send_def)
qed

theorem send_exact_witness:
  "\<exists>ws'. send (Inr ()) (Bye 55)
      (WriteOk 4 # WriteErr (IoError Interrupted []) # replicate 8 (WriteOk 1)) =
    SendReturns [66, 89, 69, 33, 0, 0, 0, 1, 55] ws' (Inr ())"
proof -
  have b: "client_to_bytes (Bye 55) = [66, 89, 69, 33, 0, 0, 0, 1, 55]"
    by (simp add: client_to_bytes_def Let_def put_u8_def put_u32_def be_bytes_numerals
        u32_saturating_sub_def as_bytes_def byte_of_def)
  show ?thesis
    using send_exact [of "Inr ()" "Bye 55"
        "WriteOk 4 # WriteErr (IoError Interrupted []) # replicate 8 (WriteOk 1)"]
    by (simp add: b list_all_iff)
qed

section \<open>Connecting\<close>

text \<open>\<^bold>\<open>C25\<close> A reader that splits the capability string of the HELO message at the commas and looks
  the tokens up in the table of the protocol gets back the announced list exactly if the list is
  not empty and no model, model name, firmware or sync group contains a comma.  The first always
  holds for the player; the sync group comes from the server and is not checked.\<close>

theorem capabilities_roundtrip:
  "parse_caps (show_caplist caps) = map Some caps \<longleftrightarrow> caps \<noteq> [] \<and> list_all cap_ok caps"
  by (rule parse_show_caplist_iff)

text \<open>\<^bold>\<open>C24\<close> \<^verbatim>\<open>connect_with_retry\<close> retries transient failures only: its result is the first
  attempt that succeeds or fails for another reason, and the sleep after the $k$-th failure is
  \<open>min (10 ms * 2 ^ k) (5 s)\<close>, so it never overflows and never exceeds five seconds.\<close>

theorem connect_backoff:
  assumes "connect_with_retry rs = (sleeps, r)"
  shows "sleeps = map (\<lambda>k. Duration (min (10 ^ 7 * 2 ^ k) (5 * 10 ^ 9))) [0 ..< length sleeps] \<and>
    r = (case dropWhile (\<lambda>a. case a of Inl e \<Rightarrow> transient (kind e) | Inr _ \<Rightarrow> False) rs of
           [] \<Rightarrow> None | a # _ \<Rightarrow> Some a)"
proof -
  have "retry_loop (backoff 0) rs = (sleeps, r)"
    using assms by (simp only: connect_with_retry_def backoff_0)
  then show ?thesis
    using retry_loop_sleeps [of 0 rs sleeps r] retry_loop_result [of "backoff 0" rs]
    by (simp add: backoff_def [abs_def])
qed

theorem connect_backoff_witness:
  "connect_with_retry [Inl (IoError ConnectionRefused []), Inl (IoError NetworkDown []), Inr ()] =
    ([Duration (10 ^ 7), Duration (2 * 10 ^ 7)], Some (Inr ()))"
proof -
  let ?rs = "[Inl (IoError ConnectionRefused []), Inl (IoError NetworkDown []), Inr ()]"
  obtain sleeps r where *: "connect_with_retry ?rs = (sleeps, r)" by force
  moreover from * have "length sleeps = 2"
    by (auto simp: connect_with_retry_def transient_def Let_def split: prod.splits)
  ultimately show ?thesis
    using connect_backoff [OF *] by (simp add: transient_def numeral_2_eq_2)
qed

text \<open>\<^bold>\<open>C23\<close> After a successful \<^verbatim>\<open>connect\<close> the server has received exactly one HELO message with
  the builder's fields, the reconnect bit set when the builder asks for it and the other channel
  bits kept, and the receiver starts with an empty buffer.\<close>

theorem connect_handshake:
  assumes "connect h net = ConnectReturns out (Inr buf)" and "hello_ok h"
  shows "decode_client out =
      Some (Helo (h_device_id h) (h_revision h) (h_mac h) (h_uuid h)
              (if h_reconnect h then or (h_wlan_channel_list h) 0x0400 else h_wlan_channel_list h)
              (h_bytes_received h)
              (ucast (ucast (fst (h_language h)) :: u8), ucast (ucast (snd (h_language h)) :: u8))
              (show_caplist (h_caps h)), []) \<and> buf = []"
  using connect_ok [OF assms(1)] decode_client_frame [OF client_ok_helo [OF assms(2)], of "[]"]
  by (simp add: helo_message_def Let_def)

theorem connect_handshake_witness:
  "\<exists>out. connect (with_reconnect True (with_device_id 12 hello_new))
      \<lparr>n_connects = [Inr ()], n_nodelay = Inr (), n_clone = Inr (), n_writes = [WriteOk 1000],
       n_flush = Inr ()\<rparr> = ConnectReturns out (Inr []) \<and>
    decode_client out = Some (Helo 12 0 (replicate 6 0) (replicate 16 0) 0x0400 0 (0, 0) [], [])"
proof -
  let ?h = "with_reconnect True (with_device_id 12 hello_new)"
  let ?net = "\<lparr>n_connects = [Inr ()], n_nodelay = Inr (), n_clone = Inr (),
    n_writes = [WriteOk 1000], n_flush = Inr ()\<rparr> :: net_script"
  have "length (client_to_bytes (helo_message ?h)) \<le> 1000"
    by (simp add: length_client_to_bytes helo_message_def Let_def helo_payload_def with_reconnect_def
        with_device_id_def hello_new_def show_caplist_def)
  then have *: "connect ?h ?net = ConnectReturns (client_to_bytes (helo_message ?h)) (Inr [])"
    by (simp add: connect_def connect_with_retry_def send_def split: unit.split)
  have "hello_ok ?h"
    by (simp add: hello_ok_def with_reconnect_def with_device_id_def hello_new_def show_caplist_def)
  from connect_handshake [OF * this] * show ?thesis
    by (simp add: with_reconnect_def with_device_id_def hello_new_def show_caplist_def)
qed

text \<open>\<^bold>\<open>C26\<close> The discovery decoder recovers the items a server sent: later items win over earlier
  ones with the same token, and the zero bytes behind the datagram in the receive buffer add
  nothing.\<close>

theorem discovery_items:
  assumes "list_all tlv_ok ts"
  shows "decode_tlv (concat (map encode_tlv ts) @ replicate n 0) =
    map_of (rev (map (\<lambda>t. (tlv_token t, t)) ts))"
  unfolding decode_tlv_def using decode_tlv_loop_items [OF assms stops_zeros] by simp

theorem discovery_items_witness:
  "decode_tlv (concat (map encode_tlv [TlvName ''box'', TlvAddress 0xC0A80001, TlvPort 9000])
      @ replicate 100 0) ''IPAD'' = Some (TlvAddress 0xC0A80001)"
proof -
  have "length (show_ipv4 0xC0A80001) < 256" "length (show_nat 9000) < 256"
    by (simp_all add: show_ipv4_def be_bytes_numerals show_nat.simps)
  then have "list_all tlv_ok [TlvName ''box'', TlvAddress 0xC0A80001, TlvPort 9000]"
    by (simp add: tlv_ok_def)
  from discovery_items [OF this, of 100] show ?thesis by simp
qed

section \<open>The stream buffer\<close>

text \<open>\<^bold>\<open>C1\<close> In every interleaving of the fill thread and the consumer no byte of the source is
  lost, duplicated or reordered: what was fetched is what the consumer got, then what is staged,
  then what is buffered, then what the fill thread holds; only a dropped buffer discards the
  bytes the fill thread holds.\<close>

theorem slim_data_integrity:
  assumes "slim_reach s"
  shows "\<exists>rest. g_fetched s = g_delivered s @ drop (sb_pos s) (sb_staging s) @ sb_buf s @ rest \<and>
    (\<not> sb_shutdown s \<longrightarrow> rest = in_flight (sb_fill s))"
  using slim_reach_inv [OF assms] by (simp add: inv_data_def pipeline_def)

theorem slim_data_integrity_witness:
  "g_fetched run_two = [1, 2] @ drop (sb_pos run_two) (sb_staging run_two) @ sb_buf run_two @
    in_flight (sb_fill run_two)"
  using slim_data_integrity [OF run_two_reach] by (auto simp: run_values)

text \<open>\<^bold>\<open>C5\<close> The buffer implements a bounded queue: whatever the two threads do, each of their steps
  appends bytes to the queue within its bound, removes bytes from its front, ends it once, hands
  over the error of the end after the last byte, or changes nothing a user can see.\<close>

theorem slim_refines_pipe:
  assumes "slim_reach s"
  shows "reach pipe_init pipe_step (pipe_of s) \<and>
    (\<forall>t. slim_step s t \<longrightarrow> pipe_of t = pipe_of s \<or> pipe_step (pipe_of s) (pipe_of t))"
  using pipe.reach_abs [OF assms] pipe.step_abs [OF assms] by blast

theorem slim_refines_pipe_witness:
  "reach pipe_init pipe_step
    \<lparr>pi_bound = 4 + 8 * 1024, pi_queue = [], pi_out = [], pi_ended = True, pi_pending = None,
     pi_raised = [the_error]\<rparr>"
proof -
  have "pipe_of run_failed = \<lparr>pi_bound = 4 + 8 * 1024, pi_queue = [], pi_out = [], pi_ended = True,
      pi_pending = None, pi_raised = [the_error]\<rparr>"
    by (simp add: pipe_of_def run_defs)
  with slim_refines_pipe [OF run_failed_reach] show ?thesis by simp
qed

text \<open>\<^bold>\<open>C13\<close> A \<^verbatim>\<open>read\<close> or \<^verbatim>\<open>fill_buf\<close> comes back from the locked section without data only at the
  end: the source has ended, every byte fetched from it has been delivered, and the call raises
  the error of the source, if it has one that was not raised yet, or returns no bytes.\<close>

theorem slim_end_of_stream:
  assumes "slim_reach s" and "sb_cons s = CRefill c" and "sb_cons (refill_locked c s) = CIdle"
  shows "sb_eof s \<and> g_delivered s = g_fetched s \<and> call_bytes c s = [] \<and>
    g_raised (refill_locked c s) = g_raised s @ (case sb_error s of None \<Rightarrow> [] | Some e \<Rightarrow> [e])"
proof -
  have inv: "inv_staging s" "inv_control s" using slim_reach_inv [OF assms(1)] by auto
  have empty: "sb_buf s = []" "sb_eof s"
    using assms(3) by (auto simp: refill_locked_def Let_def split: if_splits)
  have staged: "sb_staging s = []" and "\<not> sb_shutdown s"
    using inv assms(2) by (auto simp: inv_staging_def inv_control_def)
  then have "g_delivered s = g_fetched s"
    using slim_complete [OF assms(1)] empty by simp
  with empty staged show ?thesis
    by (cases c) (auto simp: refill_locked_def split: option.split)
qed

theorem slim_end_of_stream_witness:
  "\<exists>s. slim_reach s \<and> sb_cons s = CRefill (CallRead 1) \<and>
    sb_cons (refill_locked (CallRead 1) s) = CIdle \<and> g_delivered s = [1, 2, 3] \<and>
    call_bytes (CallRead 1) s = []"
proof -
  let ?s = "slim_read 1 run_end"
  have idle: "sb_cons run_end = CIdle" by (simp add: run_defs)
  have r: "slim_reach ?s" by (rule reach_cons [OF run_end_reach cs_read [OF idle]])
  have c: "sb_cons ?s = CRefill (CallRead 1)" "sb_cons (refill_locked (CallRead 1) ?s) = CIdle"
    "g_fetched ?s = [1, 2, 3]" by (simp_all add: run_defs)
  from slim_end_of_stream [OF r c(1,2)] r c show ?thesis by auto
qed

text \<open>\<^bold>\<open>C18\<close> The buffer never holds more than its capacity, counting the bytes the
  fill thread is about to store, and the capacity is at least one and at least the threshold, so
  the threshold can be reached.  The shared status block tells the truth about it: bytes received
  counts the bytes handed out (modulo $2^{64}$, on top of its value at creation), the size is the
  capacity and the fullness, once the first bytes arrived, is the number of buffered bytes (both
  modulo $2^{32}$).\<close>

theorem slim_bounds_counters:
  assumes "slim_reach s"
  shows "buffered s + length (in_flight (sb_fill s)) \<le> sb_capacity s \<and>
    0 < sb_capacity s \<and> unat (sb_threshold s) \<le> sb_capacity s \<and>
    bytes_received (sb_status s) = g_base s + of_nat (length (g_delivered s)) \<and>
    buffer_size (sb_status s) = of_nat (sb_capacity s) \<and>
    (g_lens s \<noteq> [] \<longrightarrow> fullness (sb_status s) = of_nat (buffered s))"
proof -
  have "length (in_flight f) \<le> claimed f" for f by (cases f) simp_all
  then have "buffered s + length (in_flight (sb_fill s)) \<le> sb_capacity s \<and>
      0 < sb_capacity s \<and> unat (sb_threshold s) \<le> sb_capacity s"
    using slim_reach_inv [OF assms] by (simp add: inv_capacity_def buffered_def) (meson add_left_mono le_trans)
  moreover have "bytes_received (sb_status s) = g_base s + of_nat (length (g_delivered s)) \<and>
      buffer_size (sb_status s) = of_nat (sb_capacity s) \<and>
      (g_lens s \<noteq> [] \<longrightarrow> fullness (sb_status s) = of_nat (buffered s))"
    using slim_reach_inv [OF assms] by (simp add: inv_status_def buffered_def)
  ultimately show ?thesis by blast
qed

theorem slim_bounds_counters_witness:
  "buffered run_full \<le> 4 \<and> bytes_received (sb_status run_two) = 2 \<and> buffer_size (sb_status run_two) = 4"
proof -
  have "g_base run_two = 0" "sb_capacity run_two = 4"
    by (simp_all add: run_defs status_default_def)
  moreover have "buffered run_full \<le> 4"
    using slim_bounds_counters [OF run_full_reach] by (simp add: run_defs)
  ultimately show ?thesis
    using slim_bounds_counters [OF run_two_reach] by (simp add: run_values)
qed

text \<open>\<^bold>\<open>C16\<close> The threshold callback runs at most once.  It has run, or the thread is about
  to run it, exactly when the source has ended or the buffer once held at least the threshold; a
  fill thread that ended with the source has run it.  The error that ends the source is raised to
  the consumer at most once, and only after every buffered and staged byte was handed out.\<close>

theorem slim_once:
  assumes "slim_reach s"
  shows "(sb_has_cb s \<longrightarrow> g_calls s \<le> 1 \<and>
      (g_calls s = 1 \<longrightarrow> sb_eof s \<or> (\<exists>l \<in> set (g_lens s). unat (sb_threshold s) \<le> l)) \<and>
      (sb_fill s \<in> {FTop, FSleep, FDone} \<longrightarrow>
         (g_calls s = 1 \<longleftrightarrow> sb_eof s \<or> (\<exists>l \<in> set (g_lens s). unat (sb_threshold s) \<le> l)))) \<and>
    length (g_raised s) \<le> 1 \<and> (\<exists>rest. g_failed s = g_raised s @ rest) \<and>
    (g_raised s \<noteq> [] \<longrightarrow> sb_eof s \<and> sb_buf s = [] \<and> drop (sb_pos s) (sb_staging s) = [])"
proof -
  have "sb_has_cb s \<longrightarrow> g_calls s \<le> 1 \<and>
      (g_calls s = 1 \<longrightarrow> sb_eof s \<or> (\<exists>l \<in> set (g_lens s). unat (sb_threshold s) \<le> l)) \<and>
      (sb_fill s \<in> {FTop, FSleep, FDone} \<longrightarrow>
         (g_calls s = 1 \<longleftrightarrow> sb_eof s \<or> (\<exists>l \<in> set (g_lens s). unat (sb_threshold s) \<le> l)))"
    using slim_reach_inv [OF assms] unfolding inv_callback_def by auto
  moreover have "length (g_raised s) \<le> 1 \<and> (\<exists>rest. g_failed s = g_raised s @ rest) \<and>
      (g_raised s \<noteq> [] \<longrightarrow> sb_eof s \<and> sb_buf s = [] \<and> drop (sb_pos s) (sb_staging s) = [])"
    using slim_reach_inv [OF assms] by (auto simp: inv_error_def)
  ultimately show ?thesis by blast
qed

theorem slim_once_witness:
  "g_calls run_end = 1 \<and> g_calls run_empty = 0 \<and> g_raised run_failed = [the_error] \<and> sb_buf run_failed = []"
proof -
  have "sb_has_cb run_end" "sb_fill run_end = FDone"
    "sb_has_cb run_empty" "sb_fill run_empty = FTop" "\<not> sb_eof run_empty" "g_lens run_empty = []"
    by (simp_all add: run_defs)
  then show ?thesis
    using slim_once [OF run_end_reach] slim_once [OF run_empty_reach] slim_once [OF run_failed_reach]
    by (simp add: run_values)
qed

text \<open>\<^bold>\<open>C6\<close> No wakeup is lost.  A consumer parked on \<^verbatim>\<open>readable\<close> sees an empty open buffer or a
  notification that is on its way, and the fill thread is running; a fill thread parked on
  \<^verbatim>\<open>writable\<close> sees a full open buffer or a notification that is on its way.  The two are never
  parked together.\<close>

theorem slim_no_lost_wakeup:
  assumes "slim_reach s"
  shows "(\<forall>c. sb_cons s = CSleep c \<longrightarrow>
      (sb_buf s = [] \<and> \<not> sb_eof s \<or> (\<exists>r f. sb_fill s = FNotify r f)) \<and>
      sb_fill s \<noteq> FSleep \<and> (\<exists>t. fill_step s t)) \<and>
    (sb_fill s = FSleep \<longrightarrow>
      sb_capacity s \<le> buffered s \<and> \<not> sb_shutdown s \<or>
      (\<exists>c. sb_cons s = CNotify c) \<or> sb_cons s = CDropNotify)"
  using slim_reach_inv [OF assms] parked_consumer [OF assms]
  by (auto simp: inv_wakeup_def buffered_def)

theorem slim_no_lost_wakeup_witness:
  "(\<exists>t. fill_step run_parked t) \<and> sb_capacity run_full \<le> buffered run_full"
proof -
  have "sb_cons run_full = CIdle" by (simp add: run_defs)
  then show ?thesis
    using slim_no_lost_wakeup [OF run_parked_reach] slim_no_lost_wakeup [OF run_full_reach]
    by (simp add: run_values)
qed



end
