(* ===== verification/Unit_Tests.thy ===== *)
theory Unit_Tests
  imports Frames Capability "HOL-Library.Code_Target_Nat"
begin

text \<open>
  The unit tests of \<^verbatim>\<open>lms-proto/src/messages.rs\<close>, \<^verbatim>\<open>frames.rs\<close> and \<^verbatim>\<open>capability.rs\<close>, run on the
  model: each test is the proposition it asserts, and the kernel evaluates it.  Bytes are written
  as the tests write them; \<^verbatim>\<open>b's'\<close> is a character of an \<open>as_bytes\<close> text.
\<close>

named_theorems unit_tests

section \<open>Messages to the server\<close>

definition send_helo :: bool where
  "send_helo \<longleftrightarrow>
     (let buf = client_to_bytes
            (Helo 0 1 [1, 2, 3, 4, 5, 6] (replicate 16 7) 0x89AB 1234 (117, 107) ''abcd'')
      in take 32 buf = as_bytes ''HELO'' @ [0, 0, 0, 40, 0, 1, 1, 2, 3, 4, 5, 6] @ replicate 16 7 \<and>
         drop 32 buf = [137, 171, 0, 0, 0, 0, 0, 0, 4, 210] @ as_bytes ''ukabcd'')"

definition send_bye :: bool where
  "send_bye \<longleftrightarrow> client_to_bytes (Bye 55) = as_bytes ''BYE!'' @ [0, 0, 0, 1, 55]"

definition send_stat :: bool where
  "send_stat \<longleftrightarrow>
     (let stat_data =
            \<lparr>crlf = 0, buffer_size = 1234, fullness = 5678, bytes_received = 9123, sig_strength = 45,
             jiffies = from_millis 6789, output_buffer_size = 1234, output_buffer_fullness = 5678,
             elapsed_seconds = 9012, voltage = 3456, elapsed_milliseconds = 7890,
             timestamp = from_millis 1234, error_code = 5678, start = 0\<rparr>;
          buf = client_to_bytes (Stat ''STMt'' stat_data)
      in take 32 buf = as_bytes ''STAT'' @ [0, 0, 0, 53] @ as_bytes ''STMt'' @
           [0, 0, 0, 0, 0, 4, 210, 0, 0, 22, 46, 0, 0, 0, 0, 0, 0, 35, 163, 0] \<and>
         drop 32 buf = [45, 0, 0, 26, 133, 0, 0, 4, 210, 0, 0, 22, 46, 0, 0, 35, 52, 13, 128, 0, 0, 30,
           210, 0, 0, 4, 210, 22, 46])"

definition send_name :: bool where
  "send_name \<longleftrightarrow> client_to_bytes (Name ''BadBoy'') = as_bytes ''SETD'' @ [0, 0, 0, 7, 0] @ as_bytes ''BadBoy''"

lemma send_tests [unit_tests]: send_helo send_bye send_stat send_name
  by code_simp+

section \<open>Messages from the server\<close>

definition recv_serv :: bool where
  "recv_serv \<longleftrightarrow>
     server_message_from (as_bytes ''serv'' @ [172, 16, 1, 2] @ as_bytes ''sync'') =
       Some (Serv 0xAC100102 (Some ''sync''))"

text \<open>The filler of the \<^verbatim>\<open>strm\<close> tests.\<close>

definition strm_filler :: bytes where
  "strm_filler = map of_nat [1..<25]"

definition recv_status :: bool where
  "recv_status \<longleftrightarrow>
     server_message_from (as_bytes ''strmt'' @ strm_filler) = Some (Status (from_millis 235868177))"

definition recv_stop :: bool where
  "recv_stop \<longleftrightarrow> server_message_from (as_bytes ''strmq'' @ strm_filler) = Some Stop"

definition recv_pause :: bool where
  "recv_pause \<longleftrightarrow>
     server_message_from (as_bytes ''strmp'' @ strm_filler) = Some (server_message.Pause (from_millis 235868177))"

definition recv_unpause :: bool where
  "recv_unpause \<longleftrightarrow>
     server_message_from (as_bytes ''strmu'' @ strm_filler) = Some (Unpause (from_millis 235868177))"

definition recv_skip :: bool where
  "recv_skip \<longleftrightarrow>
     server_message_from (as_bytes ''strma'' @ strm_filler) = Some (Skip (from_millis 235868177))"

definition recv_unrecognised :: bool where
  "recv_unrecognised \<longleftrightarrow>
     server_message_from (as_bytes ''strmx'' @ strm_filler) = Some (Unrecognised ''strm_x'')"

definition recv_enable :: bool where
  "recv_enable \<longleftrightarrow> server_message_from (as_bytes ''aude'' @ [0, 1]) = Some (Enable False True)"

definition recv_gain :: bool where
  "recv_gain \<longleftrightarrow>
     server_message_from (as_bytes ''audg'' @ [0, 0, 0, 0, 0, 0, 0, 0, 0, 0, 0, 1, 0, 0, 0, 0, 128, 0]) =
       Some (Gain 1 (1 / 2))"

definition recv_setname :: bool where
  "recv_setname \<longleftrightarrow>
     server_message_from (as_bytes ''setd'' @ [0] @ as_bytes ''newname'' @ [0]) = Some (Setname ''newname'')"

definition recv_queryname :: bool where
  "recv_queryname \<longleftrightarrow> server_message_from (as_bytes ''setd'' @ [0]) = Some Queryname"

definition recv_disabledac :: bool where
  "recv_disabledac \<longleftrightarrow> server_message_from (as_bytes ''setd'' @ [4]) = Some DisableDac"

definition recv_strm :: bool where
  "recv_strm \<longleftrightarrow>
     server_message_from (as_bytes ''strms1m23?0'' @ [1, 2, 3] @ as_bytes ''4'' @
       [1, 2, 0, 0, 1, 128, 0, 35, 41, 172, 16, 1, 2]) =
     Some (Stream
       \<lparr>autostart = Auto, sformat = format.Mp3, pcmsamplesize = Twenty, pcmsamplerate = Rate 44100,
        pcmchannels = ChannelsSelfDescribing, pcmendian = Big, threshold = 1024, spdif = Off,
        trans_period = from_secs 3, transtype = FadeInOut, flags = INVERT_POLARITY_LEFT,
        output_threshold = from_millis 200, replay_gain = 3 / 2, server_port = 9001,
        server_ip = 0xAC100102, http_headers = None\<rparr>)"

lemma recv_tests [unit_tests]:
  recv_serv recv_status recv_stop recv_pause recv_unpause recv_skip recv_unrecognised recv_enable
  recv_setname recv_queryname recv_disabledac
  by code_simp+

lemma recv_gain_test [unit_tests]: recv_gain by code_simp
lemma recv_strm_test [unit_tests]: recv_strm by code_simp

section \<open>Frames\<close>

definition test_send :: bool where
  "test_send \<longleftrightarrow>
     send (Inr ()) (Name ''abc'') [WriteOk 12] =
       SendReturns [83, 69, 84, 68, 0, 0, 0, 4, 0, 97, 98, 99] [] (Inr ())"

definition test_receive_single :: bool where
  "test_receive_single \<longleftrightarrow>
     recv [] [ReadOk ([0, 6] @ as_bytes ''aude'' @ [0, 1])] = RecvReturns [] [] (Inr [Enable False True])"

definition test_receive_multi :: bool where
  "test_receive_multi \<longleftrightarrow>
     recv [] [ReadOk ([0, 6] @ as_bytes ''aude'' @ [0, 1] @ [0, 22] @ as_bytes ''audg'' @
       [0, 0, 0, 0, 0, 0, 0, 0, 0, 0, 0, 1, 0, 0, 0, 0, 128, 0])] =
     RecvReturns [] [] (Inr [Enable False True, Gain 1 (1 / 2)])"

lemma frame_tests [unit_tests]: test_send test_receive_single test_receive_multi
  by code_simp+

section \<open>Capabilities\<close>

definition single_capability :: bool where
  "single_capability \<longleftrightarrow> show_caplist [capability.Mp3] = ''mp3''"

definition list_with_values :: bool where
  "list_with_values \<longleftrightarrow>
     show_caplist [capability.Mp3, Maxsamplerate 9600, capability.Ogg] = ''mp3,MaxSampleRate=9600,ogg''"

lemma capability_tests [unit_tests]: single_capability list_with_values
  by code_simp+

end
