(* ===== verification/Float32.thy ===== *)
theory Float32
  imports Vibe_Prelude
begin

unbundle bit_operations_syntax

text \<open>
  The \<^verbatim>\<open>f32\<close> arithmetic the player uses: the cast from \<^verbatim>\<open>f64\<close>, \<^verbatim>\<open>sqrt\<close> and multiplication of
  IEEE 754 binary32 numbers with rounding to nearest, ties to even.  A number is its bit pattern;
  a finite magnitude is a multiple of the smallest positive number, so all rounding is done on
  natural numbers.  The payload of a NaN result is the one of the usual quiet NaN (Rust leaves
  it open).
\<close>

type_synonym f32 = u32

definition f32_one :: f32 where
  "f32_one = 0x3F800000"

definition f32_nan :: f32 where
  "f32_nan = 0x7FC00000"

section \<open>Magnitudes\<close>

text \<open>The magnitude bits (everything but the sign), and the finite ones in units of $2^{-149}$.\<close>

definition f32_inf :: nat where
  "f32_inf = 255 * 2 ^ 23"

definition f32_mag :: "f32 \<Rightarrow> nat" where
  "f32_mag x = unat x mod 2 ^ 31"

definition f32_neg :: "f32 \<Rightarrow> bool" where
  "f32_neg x \<longleftrightarrow> 2 ^ 31 \<le> unat x"

definition f32_units :: "nat \<Rightarrow> nat" where
  "f32_units b =
     (let ex = b div 2 ^ 23; fr = b mod 2 ^ 23
      in if ex = 0 then fr else (2 ^ 23 + fr) * 2 ^ (ex - 1))"

fun bit_length :: "nat \<Rightarrow> nat" where
  "bit_length n = (if n = 0 then 0 else Suc (bit_length (n div 2)))"

declare bit_length.simps [simp del]

text \<open>$n / 2^k$ rounded to the nearest integer, ties to even.\<close>

definition round_shift :: "nat \<Rightarrow> nat \<Rightarrow> nat" where
  "round_shift n k =
     (let q = n div 2 ^ k; r = n mod 2 ^ k
      in if 2 ^ k < 2 * r \<or> 2 ^ k = 2 * r \<and> odd q then q + 1 else q)"

text \<open>The magnitude nearest to $n / 2^k$ units: drop enough bits to leave 24, at least down to
  the unit; the carry of the rounding moves into the exponent by itself.\<close>

definition f32_encode :: "nat \<Rightarrow> nat \<Rightarrow> nat" where
  "f32_encode n k =
     (let sh = max k (bit_length n - 24)
      in min f32_inf (round_shift n sh + (sh - k) * 2 ^ 23))"

section \<open>Operations\<close>

definition f32_make :: "bool \<Rightarrow> nat \<Rightarrow> f32" where
  "f32_make neg m = of_nat (m + (if neg then 2 ^ 31 else 0))"

definition f32_mul :: "f32 \<Rightarrow> f32 \<Rightarrow> f32" where
  "f32_mul x y =
     (let a = f32_mag x; b = f32_mag y; neg = (f32_neg x \<noteq> f32_neg y)
      in if f32_inf < a \<or> f32_inf < b then f32_nan
         else if a = f32_inf \<or> b = f32_inf then
           (if a = 0 \<or> b = 0 then f32_nan else f32_make neg f32_inf)
         else f32_make neg (f32_encode (f32_units a * f32_units b) 149))"

text \<open>\<^verbatim>\<open>x as f32\<close> of a non-negative \<^verbatim>\<open>f64\<close>, which is a multiple of $2^{-1074}$.\<close>

definition f32_of_f64 :: "rat \<Rightarrow> f32" where
  "f32_of_f64 x = f32_make False (f32_encode (nat \<lfloor>x * 2 ^ 1074\<rfloor>) 925)"

fun isqrt :: "nat \<Rightarrow> nat" where
  "isqrt n =
     (if n = 0 then 0
      else let r = 2 * isqrt (n div 4) in if (r + 1) * (r + 1) \<le> n then r + 1 else r)"

declare isqrt.simps [simp del]

text \<open>\<^verbatim>\<open>f32::sqrt\<close>: the integer root of the magnitude at double precision, with one sticky bit
  for the part that is cut off.\<close>

definition f32_sqrt :: "f32 \<Rightarrow> f32" where
  "f32_sqrt x =
     (let m = f32_mag x; w = f32_units m * 2 ^ 149; r = isqrt w
      in if f32_inf < m then f32_nan
         else if m = 0 then x
         else if f32_neg x then f32_nan
         else if m = f32_inf then x
         else f32_make False (f32_encode (2 * r + (if r * r = w then 0 else 1)) 1))"

text \<open>\<^verbatim>\<open>f32::to_le_bytes\<close>, the memory layout on a little-endian machine.\<close>

definition f32_le_bytes :: "f32 \<Rightarrow> bytes" where
  "f32_le_bytes x = rev (put_u32 x)"

definition f32_value :: "f32 \<Rightarrow> real" where
  "f32_value x = (if f32_neg x then -1 else 1) * real (f32_units (f32_mag x)) / 2 ^ 149"

section \<open>Rounding\<close>

lemma bit_length_less: "n < 2 ^ bit_length n"
proof (induction n rule: bit_length.induct)
  case (1 n)
  then show ?case by (subst bit_length.simps) auto
qed

lemma bit_length_le: "0 < n \<Longrightarrow> 2 ^ (bit_length n - 1) \<le> n"
proof (induction n rule: bit_length.induct)
  case (1 n)
  show ?case
  proof (cases "n = 1")
    case False
    then have "0 < n div 2" "bit_length (n div 2) \<noteq> 0" using "1.prems"
      by (auto simp: bit_length.simps [of "n div 2"])
    with 1 have "2 ^ (bit_length (n div 2) - 1) \<le> n div 2" by simp
    then have "2 * 2 ^ (bit_length (n div 2) - 1) \<le> n" by simp
    with \<open>bit_length (n div 2) \<noteq> 0\<close> "1.prems" show ?thesis
      by (subst bit_length.simps) (cases "bit_length (n div 2)"; simp)
  qed (simp add: bit_length.simps)
qed

lemma bit_length_bound: "n < 2 ^ l \<Longrightarrow> bit_length n \<le> l"
proof (rule ccontr)
  assume n: "n < 2 ^ l" and l: "\<not> bit_length n \<le> l"
  then have "0 < n" by (cases "n = 0") (auto simp: bit_length.simps)
  moreover have "(2 :: nat) ^ l \<le> 2 ^ (bit_length n - 1)" using l by (intro power_increasing) auto
  ultimately show False using bit_length_le [of n] n by linarith
qed

lemma bit_length_eq:
  assumes "2 ^ (l - 1) \<le> n" "n < 2 ^ l"
  shows "bit_length n = l"
proof -
  have "(2 :: nat) ^ (l - 1) < 2 ^ bit_length n"
    using assms(1) bit_length_less [of n] by linarith
  then have "l - 1 < bit_length n" by simp
  with bit_length_bound [OF assms(2)] show ?thesis by linarith
qed

lemma round_shift_exact [simp]: "round_shift (n * 2 ^ k) k = n"
  by (simp add: round_shift_def)

lemma round_shift_le:
  assumes "n \<le> m * 2 ^ k"
  shows "round_shift n k \<le> m"
proof (cases "n div 2 ^ k < m")
  case True
  then show ?thesis by (simp add: round_shift_def Let_def)
next
  case False
  then have "m * 2 ^ k \<le> n div 2 ^ k * 2 ^ k" by simp
  also have "\<dots> \<le> n" by (rule div_times_less_eq_dividend)
  finally have "n = m * 2 ^ k" using assms by simp
  then show ?thesis by simp
qed

lemma round_shift_error: "\<bar>real (round_shift n k) * 2 ^ k - real n\<bar> \<le> 2 ^ k / 2"
proof -
  define q r where "q = n div 2 ^ k" and "r = n mod 2 ^ k"
  have "n = q * 2 ^ k + r" unfolding q_def r_def by (simp only: div_mult_mod_eq)
  then have n: "real n = real q * 2 ^ k + real r"
    by (metis of_nat_add of_nat_mult of_nat_numeral of_nat_power)
  have pow: "real (2 ^ k) = 2 ^ k" by simp
  have "r < 2 ^ k" unfolding r_def by simp
  then have r: "real r < 2 ^ k" using pow by (metis of_nat_less_iff)
  consider "round_shift n k = q" "2 * r \<le> 2 ^ k" | "round_shift n k = q + 1" "2 ^ k \<le> 2 * r"
    unfolding round_shift_def Let_def q_def [symmetric] r_def [symmetric]
    by (cases "2 ^ k < 2 * r \<or> 2 ^ k = 2 * r \<and> odd q") auto
  then show ?thesis
  proof cases
    case 1
    from 1(2) have "real (2 * r) \<le> 2 ^ k" using pow by (metis of_nat_le_iff)
    with 1 n show ?thesis by simp
  next
    case 2
    from 2(2) have "2 ^ k \<le> real (2 * r)" using pow by (metis of_nat_le_iff)
    with 2 n r show ?thesis by (simp add: algebra_simps)
  qed
qed

section \<open>Exact results\<close>

lemma f32_units_zero [simp]: "f32_units 0 = 0"
  by (simp add: f32_units_def)

text \<open>Encoding a magnitude that is a number already is the identity.\<close>

lemma f32_encode_units:
  assumes "b < f32_inf"
  shows "f32_encode (f32_units b * 2 ^ k) k = b"
proof -
  define ex fr where "ex = b div 2 ^ 23" and "fr = b mod 2 ^ 23"
  have fr: "fr < 2 ^ 23" and b: "b = ex * 2 ^ 23 + fr"
    unfolding ex_def fr_def by (simp_all only: div_mult_mod_eq) simp
  show ?thesis
  proof (cases "ex = 0")
    case True
    then have u: "f32_units b = fr" by (simp add: f32_units_def ex_def fr_def)
    have "fr * 2 ^ k < 2 ^ (23 + k)" using fr by (simp add: power_add)
    then have "bit_length (fr * 2 ^ k) - 24 \<le> k" using bit_length_bound by fastforce
    then have "f32_encode (f32_units b * 2 ^ k) k = min f32_inf fr"
      unfolding u f32_encode_def by (simp add: max_absorb1)
    then show ?thesis using True b assms by simp
  next
    case False
    then have u: "f32_units b = (2 ^ 23 + fr) * 2 ^ (ex - 1)"
      by (simp add: f32_units_def ex_def fr_def)
    define sh where "sh = ex - 1 + k"
    have n: "f32_units b * 2 ^ k = (2 ^ 23 + fr) * 2 ^ sh" by (simp add: u sh_def power_add)
    have "bit_length ((2 ^ 23 + fr) * 2 ^ sh) = 24 + sh"
    proof (rule bit_length_eq)
      show "2 ^ (24 + sh - 1) \<le> (2 ^ 23 + fr) * 2 ^ sh" by (simp add: power_add)
      show "(2 ^ 23 + fr) * 2 ^ sh < 2 ^ (24 + sh)" using fr by (simp add: power_add)
    qed
    then have "f32_encode (f32_units b * 2 ^ k) k = min f32_inf (2 ^ 23 + fr + (ex - 1) * 2 ^ 23)"
      by (simp add: f32_encode_def n Let_def sh_def)
    also have "2 ^ 23 + fr + (ex - 1) * 2 ^ 23 = b" using False b by (cases ex) simp_all
    finally show ?thesis using assms by simp
  qed
qed

lemma unat_f32_make:
  assumes "m < 2 ^ 31"
  shows "unat (f32_make neg m) = m + (if neg then 2 ^ 31 else 0)"
proof -
  have "m + (if neg then 2 ^ 31 else 0) < 2 ^ 32" using assms by simp
  then show ?thesis unfolding f32_make_def
    by (simp only: unat_of_nat take_bit_nat_eq_self_iff) (simp only: mod_less len_num0 len_bit0 len_num1 numeral_times_numeral semiring_norm power_numeral)
qed

lemma f32_make_parts [simp]: "f32_make (f32_neg x) (f32_mag x) = x"
proof -
  have "unat x = f32_mag x + (if f32_neg x then 2 ^ 31 else 0)"
    using unat_bound [of x] by (auto simp: f32_mag_def f32_neg_def mod_if le_mod_geq)
  then have "f32_make (f32_neg x) (f32_mag x) = of_nat (unat x)" by (simp only: f32_make_def)
  then show ?thesis by simp
qed

lemma f32_mag_make: "m < 2 ^ 31 \<Longrightarrow> f32_mag (f32_make neg m) = m"
  using unat_f32_make [of m neg] by (auto simp: f32_mag_def)

lemma f32_neg_make: "m < 2 ^ 31 \<Longrightarrow> f32_neg (f32_make neg m) = neg"
  using unat_f32_make [of m neg] by (auto simp: f32_neg_def)

lemma f32_one_parts [simp]: "f32_mag f32_one = 1065353216" "\<not> f32_neg f32_one"
  "f32_units 1065353216 = 2 ^ 149"
  by (simp_all add: f32_mag_def f32_one_def f32_neg_def f32_units_def)

lemma f32_mul_one:
  assumes "f32_mag x \<le> f32_inf"
  shows "f32_mul x f32_one = x"
proof (cases "f32_mag x = f32_inf")
  case True
  then show ?thesis
    using f32_make_parts [of x] by (simp add: f32_mul_def Let_def f32_inf_def)
next
  case False
  with assms have m: "f32_mag x < f32_inf" by simp
  have "f32_encode (f32_units (f32_mag x) * 2 ^ 149) 149 = f32_mag x"
    by (rule f32_encode_units [OF m])
  then show ?thesis
    using m f32_make_parts [of x] by (simp add: f32_mul_def f32_inf_def)
qed

lemma f32_mul_zero:
  assumes "f32_mag x < f32_inf"
  shows "f32_mul x 0 = f32_make (f32_neg x) 0"
  using assms
  by (simp add: f32_mul_def f32_mag_def [of 0] f32_neg_def [of 0] f32_encode_def round_shift_def
      bit_length.simps f32_inf_def)

section \<open>Square roots\<close>

lemma isqrt_bounds: "isqrt n * isqrt n \<le> n \<and> n < (isqrt n + 1) * (isqrt n + 1)"
proof (induction n rule: isqrt.induct)
  case (1 n)
  show ?case
  proof (cases "n = 0")
    case False
    let ?s = "isqrt (n div 4)"
    have ih: "?s * ?s \<le> n div 4" "n div 4 < (?s + 1) * (?s + 1)" using 1 False by auto
    have "4 * (?s * ?s) \<le> n" using ih(1) by linarith
    moreover have "n < 4 * ((?s + 1) * (?s + 1))" using ih(2) by linarith
    ultimately show ?thesis using False
      by (subst (1 2 3 4) isqrt.simps) (auto simp: Let_def algebra_simps)
  qed (simp add: isqrt.simps)
qed

lemma isqrt_unique: "r * r \<le> n \<Longrightarrow> n < (r + 1) * (r + 1) \<Longrightarrow> isqrt n = r"
proof (rule ccontr)
  assume a: "r * r \<le> n" "n < (r + 1) * (r + 1)" and "isqrt n \<noteq> r"
  then consider "r + 1 \<le> isqrt n" | "isqrt n + 1 \<le> r" by linarith
  then show False
  proof cases
    case 1
    from mult_le_mono [OF 1 1] show False using a isqrt_bounds [of n] by linarith
  next
    case 2
    from mult_le_mono [OF 2 2] show False using a isqrt_bounds [of n] by linarith
  qed
qed

section \<open>The value of a rounded magnitude\<close>

lemma round_shift_ge: "m * 2 ^ k \<le> n \<Longrightarrow> m \<le> round_shift n k"
  by (auto simp: round_shift_def Let_def less_eq_div_iff_mult_less_eq le_SucI)

lemma f32_units_carry:
  assumes "m \<le> 2 ^ 24" and "e = 0 \<or> 2 ^ 23 \<le> m"
  shows "f32_units (m + e * 2 ^ 23) = m * 2 ^ e"
proof -
  consider "m < 2 ^ 23" "e = 0" | "2 ^ 23 \<le> m" "m < 2 ^ 24" | "m = 2 ^ 24"
    using assms by linarith
  then show ?thesis
  proof cases
    case 2
    then obtain f where f: "m = 2 ^ 23 + f" "f < 2 ^ 23" using le_Suc_ex by fastforce
    then have "m + e * 2 ^ 23 = f + (e + 1) * 2 ^ 23" by simp
    moreover have "(f + (e + 1) * 2 ^ 23) div 2 ^ 23 = e + 1" "(f + (e + 1) * 2 ^ 23) mod 2 ^ 23 = f"
      using f(2) by (simp_all only: div_mult_self1 mod_mult_self1) simp_all
    ultimately show ?thesis using f by (simp only: f32_units_def Let_def) simp
  next
    case 3
    then have "m + e * 2 ^ 23 = (e + 2) * 2 ^ 23" by simp
    moreover have "((e + 2) * 2 ^ 23) div 2 ^ 23 = e + 2" "((e + 2) * 2 ^ 23) mod 2 ^ 23 = (0 :: nat)"
      by (simp_all only: nonzero_mult_div_cancel_right mod_mult_self2_is_0) simp
    ultimately show ?thesis using 3 by (simp only: f32_units_def Let_def) simp
  qed (simp add: f32_units_def)
qed

lemma f32_encode_value:
  assumes "f32_encode n k < f32_inf"
  shows "f32_units (f32_encode n k) =
    round_shift n (max k (bit_length n - 24)) * 2 ^ (max k (bit_length n - 24) - k)"
proof -
  define sh where "sh = max k (bit_length n - 24)"
  have "n < 2 ^ bit_length n" by (rule bit_length_less)
  also have "\<dots> \<le> 2 ^ (24 + sh)" by (rule power_increasing) (simp_all add: sh_def)
  finally have le: "round_shift n sh \<le> 2 ^ 24" by (intro round_shift_le) (simp add: power_add)
  have ge: "sh - k = 0 \<or> 2 ^ 23 \<le> round_shift n sh"
  proof (cases "sh = k")
    case False
    then have "bit_length n = 24 + sh" by (auto simp: sh_def max_def split: if_splits)
    then have "2 ^ (23 + sh) \<le> n" using bit_length_le [of n]
      by (cases "n = 0") (auto simp: bit_length.simps)
    then show ?thesis by (intro disjI2 round_shift_ge) (simp add: power_add)
  qed simp
  have "f32_encode n k = round_shift n sh + (sh - k) * 2 ^ 23"
    using assms by (auto simp: f32_encode_def Let_def sh_def min_def split: if_splits)
  then show ?thesis using f32_units_carry [OF le ge] by (simp add: sh_def)
qed

text \<open>The relative error of rounding, in units.\<close>

lemma f32_encode_error:
  assumes "f32_encode n k < f32_inf" "bit_length n \<le> 24 + l" "k \<le> l"
  shows "\<bar>real (f32_units (f32_encode n k)) * 2 ^ k - real n\<bar> \<le> 2 ^ l / 2"
proof -
  define sh where "sh = max k (bit_length n - 24)"
  have sh: "k \<le> sh" "sh \<le> l" using assms(2,3) by (auto simp: sh_def)
  have "real (f32_units (f32_encode n k)) * 2 ^ k = real (round_shift n sh) * 2 ^ sh"
    using f32_encode_value [OF assms(1)] sh(1) by (simp add: sh_def [symmetric] flip: power_add)
  with round_shift_error [of n sh] have "\<bar>real (f32_units (f32_encode n k)) * 2 ^ k - real n\<bar> \<le> 2 ^ sh / 2"
    by simp
  also have "\<dots> \<le> 2 ^ l / 2" using sh(2) by (simp add: power_increasing)
  finally show ?thesis .
qed

lemma f32_encode_bound:
  assumes "n \<le> 2 ^ (24 + e + k)"
  shows "f32_encode n k \<le> (e + 2) * 2 ^ 23"
proof (cases "n = 2 ^ (24 + e + k)")
  case True
  have "f32_units ((e + 2) * 2 ^ 23) = 2 ^ 24 * 2 ^ e"
    using f32_units_carry [of "2 ^ 24" e] by (simp add: algebra_simps)
  then have n: "n = f32_units ((e + 2) * 2 ^ 23) * 2 ^ k" using True by (simp add: power_add)
  show ?thesis
  proof (cases "(e + 2) * 2 ^ 23 < f32_inf")
    case True
    then show ?thesis using f32_encode_units [OF True, of k] n by simp
  next
    case False
    then show ?thesis by (auto simp: f32_encode_def Let_def)
  qed
next
  case False
  with assms have "bit_length n \<le> 24 + e + k" by (intro bit_length_bound) simp
  define sh where "sh = max k (bit_length n - 24)"
  have "n < 2 ^ bit_length n" by (rule bit_length_less)
  also have "\<dots> \<le> 2 ^ (24 + sh)" by (rule power_increasing) (simp_all add: sh_def)
  finally have "round_shift n sh \<le> 2 ^ 24" by (intro round_shift_le) (simp add: power_add)
  moreover have "sh - k \<le> e" using \<open>bit_length n \<le> 24 + e + k\<close> by (simp add: sh_def)
  ultimately have "round_shift n sh + (sh - k) * 2 ^ 23 \<le> 2 ^ 24 + e * 2 ^ 23"
    by (intro add_mono) simp_all
  then show ?thesis by (simp add: f32_encode_def Let_def sh_def [symmetric])
qed

section \<open>Roots of fixed point fractions\<close>

text \<open>A fraction of 65536 is an \<^verbatim>\<open>f32\<close> number.\<close>

lemma f32_fraction:
  assumes "n \<le> 2 ^ 16"
  shows "f32_units (f32_encode (n * 2 ^ 1058) 925) = n * 2 ^ 133"
    and "f32_encode (n * 2 ^ 1058) 925 \<le> 127 * 2 ^ 23"
proof -
  have "n * 2 ^ 1058 \<le> 2 ^ 16 * 2 ^ 1058" using assms by (rule mult_le_mono1)
  then have n: "n * 2 ^ 1058 \<le> 2 ^ 1074" by (simp only: power_add [symmetric]) simp
  then show bound: "f32_encode (n * 2 ^ 1058) 925 \<le> 127 * 2 ^ 23"
    using f32_encode_bound [of "n * 2 ^ 1058" 125 925] by simp
  then have fin: "f32_encode (n * 2 ^ 1058) 925 < f32_inf" by (simp add: f32_inf_def)
  define sh where "sh = max 925 (bit_length (n * 2 ^ 1058) - 24)"
  have "n * 2 ^ 1058 < 2 ^ 1075" using n by (rule le_less_trans) simp
  then have "bit_length (n * 2 ^ 1058) \<le> 1075" by (rule bit_length_bound)
  then have sh: "sh \<le> 1058" "925 \<le> sh" by (auto simp: sh_def)
  have "n * 2 ^ 1058 = n * 2 ^ (1058 - sh) * 2 ^ sh"
    using sh(1) by (simp only: mult.assoc power_add [symmetric] le_add_diff_inverse2)
  then have "round_shift (n * 2 ^ 1058) sh = n * 2 ^ (1058 - sh)" by (simp only: round_shift_exact)
  then have "f32_units (f32_encode (n * 2 ^ 1058) 925) = n * 2 ^ (1058 - sh) * 2 ^ (sh - 925)"
    using f32_encode_value [OF fin] by (simp only: sh_def [symmetric])
  also have "\<dots> = n * 2 ^ 133"
    using sh by (simp only: mult.assoc power_add [symmetric]) simp
  finally show "f32_units (f32_encode (n * 2 ^ 1058) 925) = n * 2 ^ 133" .
qed

lemma f32_of_fraction:
  assumes "n \<le> 2 ^ 16"
  shows "\<not> f32_neg (f32_of_f64 (of_nat n / 65536))"
    and "f32_mag (f32_of_f64 (of_nat n / 65536)) \<le> 127 * 2 ^ 23"
    and "f32_units (f32_mag (f32_of_f64 (of_nat n / 65536))) = n * 2 ^ 133"
proof -
  have "(of_nat n / 65536 :: rat) * 2 ^ 1074 = of_nat (n * 2 ^ 1058)" by simp
  then have "nat \<lfloor>(of_nat n / 65536 :: rat) * 2 ^ 1074\<rfloor> = n * 2 ^ 1058"
    by (simp only: floor_of_nat nat_int)
  then have e: "f32_of_f64 (of_nat n / 65536) = f32_make False (f32_encode (n * 2 ^ 1058) 925)"
    by (simp only: f32_of_f64_def)
  have b: "f32_encode (n * 2 ^ 1058) 925 < 2 ^ 31"
    using f32_fraction(2) [OF assms] by (rule le_less_trans) simp
  show "\<not> f32_neg (f32_of_f64 (of_nat n / 65536))"
    unfolding e using f32_neg_make [OF b] by simp
  show "f32_mag (f32_of_f64 (of_nat n / 65536)) \<le> 127 * 2 ^ 23"
    "f32_units (f32_mag (f32_of_f64 (of_nat n / 65536))) = n * 2 ^ 133"
    unfolding e f32_mag_make [OF b] by (rule f32_fraction [OF assms])+
qed

lemma isqrt_real: "real (isqrt n) \<le> sqrt (real n)" "sqrt (real n) < real (isqrt n) + 1"
proof -
  have "real (isqrt n * isqrt n) \<le> real n" "real n < real ((isqrt n + 1) * (isqrt n + 1))"
    using isqrt_bounds [of n] by (simp_all only: of_nat_le_iff of_nat_less_iff)
  then show "real (isqrt n) \<le> sqrt (real n)" "sqrt (real n) < real (isqrt n) + 1"
    by (auto intro!: real_le_rsqrt real_less_lsqrt simp: power2_eq_square algebra_simps)
qed

text \<open>The integer root with its sticky bit, for a radicand below the square of $2^{149}$.\<close>

definition sticky_root :: "nat \<Rightarrow> nat" where
  "sticky_root w = 2 * isqrt w + (if isqrt w * isqrt w = w then 0 else 1)"

lemma sticky_root_bounds: "\<bar>real (sticky_root w) / 2 - sqrt (real w)\<bar> \<le> 1"
  using isqrt_real [of w] by (auto simp: sticky_root_def abs_le_iff field_simps)

lemma sticky_root_less:
  assumes "w < 2 ^ l * 2 ^ l"
  shows "sticky_root w < 2 * 2 ^ l"
proof -
  have "isqrt w * isqrt w < 2 ^ l * 2 ^ l" using isqrt_bounds [of w] assms by linarith
  then have "isqrt w < 2 ^ l" by (metis linorder_not_le mult_le_mono)
  then show ?thesis by (simp add: sticky_root_def)
qed

lemma f32_encode_root:
  assumes "n < 2 ^ 16"
  shows "f32_encode (sticky_root (n * 2 ^ 282)) 1 \<le> 127 * 2 ^ 23"
    and "\<bar>real (f32_units (f32_encode (sticky_root (n * 2 ^ 282)) 1)) / 2 ^ 149 -
           sqrt (real n / 65536)\<bar> \<le> 1 / 2 ^ 24"
proof -
  define w where "w = n * 2 ^ 282"
  have "w < 2 ^ 149 * 2 ^ 149" using assms by (simp add: w_def)
  then have r: "sticky_root w < 2 ^ 150" using sticky_root_less [of w 149] by simp
  then show b: "f32_encode (sticky_root (n * 2 ^ 282)) 1 \<le> 127 * 2 ^ 23"
    using f32_encode_bound [of "sticky_root w" 125 1] by (simp add: w_def)
  have fin: "f32_encode (sticky_root w) 1 < f32_inf" using b by (simp add: w_def f32_inf_def)
  define u where "u = real (f32_units (f32_encode (sticky_root w) 1))"
  have "\<bar>u * 2 - real (sticky_root w)\<bar> \<le> 2 ^ 125"
    using f32_encode_error [OF fin, of 126] bit_length_bound [OF r] by (simp add: u_def)
  then have "\<bar>u - sqrt (real w)\<bar> \<le> 2 ^ 124 + 1" using sticky_root_bounds [of w] by simp
  moreover have "real w = (real n / 65536) * (2 ^ 149) ^ 2" by (simp add: w_def)
  then have "sqrt (real w) = sqrt (real n / 65536) * 2 ^ 149"
    by (simp only: real_sqrt_mult real_sqrt_abs) simp
  ultimately have "\<bar>u - sqrt (real n / 65536) * 2 ^ 149\<bar> \<le> 2 ^ 124 + 1" by simp
  then have "\<bar>u / 2 ^ 149 - sqrt (real n / 65536)\<bar> \<le> (2 ^ 124 + 1) / 2 ^ 149"
    by (simp add: abs_le_iff field_simps)
  also have "\<dots> \<le> 1 / 2 ^ 24" by simp
  finally show "\<bar>real (f32_units (f32_encode (sticky_root (n * 2 ^ 282)) 1)) / 2 ^ 149 -
           sqrt (real n / 65536)\<bar> \<le> 1 / 2 ^ 24" by (simp only: u_def w_def)
qed

lemma f32_sqrt_one: "f32_sqrt f32_one = f32_one"
proof -
  have r: "isqrt (2 ^ 149 * 2 ^ 149) = 2 ^ 149" by (rule isqrt_unique) simp_all
  have "f32_encode (2 * 2 ^ 149) 1 = 127 * 2 ^ 23"
    using f32_encode_units [of "127 * 2 ^ 23" 1] by (simp add: f32_inf_def mult.commute)
  then have "f32_sqrt f32_one = f32_make False (127 * 2 ^ 23)"
    using r by (simp add: f32_sqrt_def Let_def f32_inf_def)
  also have "\<dots> = f32_one" by (simp add: f32_make_def f32_one_def)
  finally show ?thesis .
qed

lemma f32_eq_parts:
  assumes "f32_mag x = f32_mag y" "f32_neg x = f32_neg y"
  shows "x = y"
proof -
  have "x = f32_make (f32_neg x) (f32_mag x)" by (simp only: f32_make_parts)
  also have "\<dots> = y" by (simp only: assms f32_make_parts)
  finally show ?thesis .
qed

lemma f32_units_inject:
  assumes "f32_units a = f32_units b" "a < f32_inf" "b < f32_inf"
  shows "a = b"
  using f32_encode_units [OF assms(2), of 0] f32_encode_units [OF assms(3), of 0] assms(1) by simp

lemma f32_of_f64_ends: "f32_of_f64 0 = 0" "f32_of_f64 1 = f32_one"
proof -
  have z: "f32_units (f32_mag (f32_of_f64 0)) = f32_units 0"
    "f32_mag (f32_of_f64 0) < f32_inf" "\<not> f32_neg (f32_of_f64 0)"
    using f32_of_fraction [of 0] by (simp_all add: f32_inf_def)
  show "f32_of_f64 0 = 0"
    using f32_units_inject [OF z(1,2)] z(3)
    by (intro f32_eq_parts) (simp_all add: f32_inf_def f32_mag_def [of 0] f32_neg_def [of 0])
  have o: "f32_units (f32_mag (f32_of_f64 1)) = f32_units (127 * 2 ^ 23)"
    "f32_mag (f32_of_f64 1) < f32_inf" "\<not> f32_neg (f32_of_f64 1)"
    using f32_of_fraction [of "2 ^ 16"] by (simp_all add: f32_inf_def)
  show "f32_of_f64 1 = f32_one"
    using f32_units_inject [OF o(1,2)] o(3)
    by (intro f32_eq_parts) (simp_all add: f32_inf_def)
qed

text \<open>The root of a fraction of 65536 lies between 0 and 1, is right up to $2^{-24}$, and is
  exact at both ends.\<close>

lemma f32_sqrt_fraction:
  assumes "n \<le> 2 ^ 16"
  defines "v \<equiv> f32_sqrt (f32_of_f64 (of_nat n / 65536))"
  shows "\<not> f32_neg v" "f32_mag v \<le> f32_mag f32_one"
    "\<bar>f32_value v - sqrt (real n / 65536)\<bar> \<le> 1 / 2 ^ 24"
proof -
  note x = f32_of_fraction [OF assms(1)]
  consider "n = 0" | "n = 2 ^ 16" | "0 < n" "n < 2 ^ 16" using assms(1) by linarith
  then have "\<not> f32_neg v \<and> f32_mag v \<le> f32_mag f32_one \<and>
    \<bar>f32_value v - sqrt (real n / 65536)\<bar> \<le> 1 / 2 ^ 24"
  proof cases
    case 1
    then have "v = 0"
      by (simp add: v_def f32_of_f64_ends f32_sqrt_def f32_mag_def f32_inf_def)
    then show ?thesis using 1 by (simp add: f32_neg_def f32_mag_def f32_value_def)
  next
    case 2
    then have "v = f32_one" by (simp add: v_def f32_of_f64_ends f32_sqrt_one)
    then show ?thesis using 2 by (simp add: f32_value_def)
  next
    case 3
    let ?x = "f32_of_f64 (of_nat n / 65536)" and ?e = "f32_encode (sticky_root (n * 2 ^ 282)) 1"
    have m: "f32_mag ?x \<noteq> 0" using x(3) 3(1) by (metis f32_units_zero mult_is_0 neq0_conv power_not_zero zero_neq_numeral)
    have w: "f32_units (f32_mag ?x) * 2 ^ 149 = n * 2 ^ 282" using x(3) by simp
    have "v = f32_make False ?e"
      unfolding v_def f32_sqrt_def Let_def w sticky_root_def
      using m x(1,2) by (simp add: f32_inf_def)
    moreover have "?e < 2 ^ 31" using f32_encode_root(1) [OF 3(2)] by (rule le_less_trans) simp
    ultimately have "\<not> f32_neg v" "f32_mag v = ?e" by (simp_all only: f32_neg_make f32_mag_make) simp
    then show ?thesis using f32_encode_root [OF 3(2)] by (simp add: f32_value_def)
  qed
  then show "\<not> f32_neg v" "f32_mag v \<le> f32_mag f32_one"
    "\<bar>f32_value v - sqrt (real n / 65536)\<bar> \<le> 1 / 2 ^ 24" by blast+
qed

section \<open>Attenuation\<close>

text \<open>Rounding is monotonic, so a factor of at most one does not make a number larger.\<close>

lemma bit_length_mono: "n \<le> m \<Longrightarrow> bit_length n \<le> bit_length m"
  using bit_length_less [of m] by (intro bit_length_bound) linarith

lemma round_shift_mono:
  assumes "n \<le> m"
  shows "round_shift n k \<le> round_shift m k"
proof (cases "n div 2 ^ k = m div 2 ^ k")
  case True
  then have "n mod 2 ^ k \<le> m mod 2 ^ k"
    using assms div_mult_mod_eq [of n "2 ^ k"] div_mult_mod_eq [of m "2 ^ k"] by simp
  then show ?thesis using True by (auto simp: round_shift_def Let_def)
next
  case False
  with div_le_mono [OF assms, of "2 ^ k"] have "n div 2 ^ k < m div 2 ^ k" by simp
  then show ?thesis by (simp add: round_shift_def Let_def)
qed

lemma f32_encode_mono:
  assumes "n \<le> m"
  shows "f32_encode n k \<le> f32_encode m k"
proof -
  define s t where "s = max k (bit_length n - 24)" and "t = max k (bit_length m - 24)"
  have st: "k \<le> s" "s \<le> t" using bit_length_mono [OF assms] by (auto simp: s_def t_def)
  have "round_shift n s + (s - k) * 2 ^ 23 \<le> round_shift m t + (t - k) * 2 ^ 23"
  proof (cases "s = t")
    case True
    then show ?thesis using round_shift_mono [OF assms] by simp
  next
    case False
    have "n < 2 ^ bit_length n" by (rule bit_length_less)
    also have "\<dots> \<le> 2 ^ (24 + s)" by (rule power_increasing) (simp_all add: s_def)
    finally have low: "round_shift n s \<le> 2 ^ 24" by (intro round_shift_le) (simp add: power_add)
    have "bit_length m = 24 + t" using False st by (auto simp: t_def max_def split: if_splits)
    then have "2 ^ (23 + t) \<le> m" using bit_length_le [of m]
      by (cases "m = 0") (auto simp: bit_length.simps)
    then have "2 ^ 23 \<le> round_shift m t" by (intro round_shift_ge) (simp add: power_add)
    moreover have "(s - k + 1) * 2 ^ 23 \<le> (t - k) * (2 ^ 23 :: nat)"
      using False st by (intro mult_le_mono1) linarith
    ultimately show ?thesis using low by simp
  qed
  then show ?thesis by (simp add: f32_encode_def Let_def s_def t_def min_le_iff_disj)
qed

lemma f32_units_le_one:
  assumes "b \<le> f32_mag f32_one"
  shows "f32_units b \<le> 2 ^ 149"
proof (cases "b = 127 * 2 ^ 23")
  case False
  then have "b < 127 * 2 ^ 23" using assms by simp
  then have "b div 2 ^ 23 < 127" by (intro less_mult_imp_div_less) simp
  then have "(2 :: nat) ^ (b div 2 ^ 23 - 1) \<le> 2 ^ 125" by (intro power_increasing) auto
  moreover have "b mod 2 ^ 23 < 2 ^ 23" by simp
  then have "2 ^ 23 + b mod 2 ^ 23 \<le> (2 ^ 24 :: nat)" by simp
  ultimately have "(2 ^ 23 + b mod 2 ^ 23) * 2 ^ (b div 2 ^ 23 - 1) \<le> (2 ^ 24 :: nat) * 2 ^ 125"
    by (intro mult_le_mono)
  moreover have "b \<le> 2 ^ 149"
    using \<open>b < 127 * 2 ^ 23\<close> by (rule order.trans [OF less_imp_le]) simp
  ultimately show ?thesis by (simp add: f32_units_def Let_def)
qed simp

lemma f32_mul_attenuates:
  assumes "f32_mag x < f32_inf" "f32_mag v \<le> f32_mag f32_one" "\<not> f32_neg v"
  shows "f32_mag (f32_mul x v) \<le> f32_mag x" "f32_neg (f32_mul x v) = f32_neg x"
proof -
  let ?e = "f32_encode (f32_units (f32_mag x) * f32_units (f32_mag v)) 149"
  have "?e \<le> f32_encode (f32_units (f32_mag x) * 2 ^ 149) 149"
    by (intro f32_encode_mono mult_le_mono2 f32_units_le_one assms(2))
  then have e: "?e \<le> f32_mag x" by (simp only: f32_encode_units [OF assms(1)])
  have "f32_mag v < f32_inf" using assms(2) by (simp add: f32_inf_def)
  then have "f32_mul x v = f32_make (f32_neg x) ?e"
    using assms by (simp add: f32_mul_def Let_def)
  moreover have "?e < 2 ^ 31" using e assms(1) by (simp add: f32_inf_def)
  ultimately show "f32_mag (f32_mul x v) \<le> f32_mag x" "f32_neg (f32_mul x v) = f32_neg x"
    using e by (simp_all only: f32_mag_make f32_neg_make)
qed

end
