(* ===== verification/Player_State.thy ===== *)
theory Player_State
  imports Float32 Status
begin

text \<open>
  \<^verbatim>\<open>vibe/src/state.rs\<close>: the state the event loop, the decoder and the audio outputs share, and
  the way the player uses mutexes: every access is \<^verbatim>\<open>if let Ok(..) = m.lock()\<close>, which does
  nothing when a thread has panicked while it held the lock.
\<close>

datatype 'a mutex = Mutex (poisoned: bool) (guarded: 'a)

definition lock :: "'a mutex \<Rightarrow> 'a option" where
  "lock m = (if poisoned m then None else Some (guarded m))"

text \<open>\<^verbatim>\<open>if let Ok(mut x) = m.lock() { .. }\<close>\<close>

definition update_locked :: "('a \<Rightarrow> 'a) \<Rightarrow> 'a mutex \<Rightarrow> 'a mutex" where
  "update_locked f m = (case lock m of None \<Rightarrow> m | Some x \<Rightarrow> Mutex False (f x))"

lemma lock_Mutex [simp]: "lock (Mutex p x) = (if p then None else Some x)"
  by (simp add: lock_def)

lemma update_locked_Mutex [simp]:
  "update_locked f (Mutex p x) = Mutex p (if p then x else f x)"
  by (simp add: update_locked_def)

text \<open>An \<^verbatim>\<open>anyhow::Error\<close> is its text.\<close>

type_synonym 'a anyhow = "string + 'a"

record globals =
  VOLUME :: "f32 list mutex"
  SKIP :: duration
  STATUS :: "status_data mutex"

definition initial_volume :: "f32 list mutex" where
  "initial_volume = Mutex False [f32_one, f32_one]"

definition initial_globals :: "instant \<Rightarrow> globals" where
  "initial_globals now =
     \<lparr>VOLUME = initial_volume, SKIP = duration_zero, STATUS = Mutex False (status_default now)\<rparr>"

text \<open>\<^verbatim>\<open>SKIP.take()\<close> leaves the default, zero.\<close>

definition take_skip :: "globals \<Rightarrow> duration \<times> globals" where
  "take_skip g = (SKIP g, g\<lparr>SKIP := duration_zero\<rparr>)"

end
