(* ===== verification/Notify.thy ===== *)
theory Notify
  imports Rust_Text
begin

text \<open>
  \<^verbatim>\<open>vibe/src/notify.rs\<close>: the text of the desktop notification that announces a track, from the
  tags of the stream.  Showing it is left to the notification service.
\<close>

section \<open>The tags\<close>

text \<open>The standard tags the code looks at; a year is an unsigned number.\<close>

datatype standard_tag =
    AlbumArtist string | Artist string | Album string | TrackTitle string | RecordingDate string
  | ReleaseYear nat | OriginalReleaseYear nat | RecordingYear nat | OriginalRecordingYear nat
  | OtherStandardTag

definition date_year :: "string \<Rightarrow> string" where
  "date_year date =
     concat (take 1 (filter (\<lambda>p. length p = 4) (map str_trim (split_on (CHR ''-'') date))))"

text \<open>\<^verbatim>\<open>tags.entry(key).or_insert(value)\<close>\<close>

definition or_insert :: "string \<Rightarrow> string \<Rightarrow> (string \<rightharpoonup> string) \<Rightarrow> (string \<rightharpoonup> string)" where
  "or_insert key value tags = (if tags key = None then tags(key \<mapsto> value) else tags)"

fun fold_tag :: "(string \<rightharpoonup> string) \<Rightarrow> standard_tag option \<Rightarrow> (string \<rightharpoonup> string)" where
  "fold_tag tags (Some (AlbumArtist a)) = tags(''artist'' \<mapsto> a)"
| "fold_tag tags (Some (Artist a)) = or_insert ''artist'' a tags"
| "fold_tag tags (Some (Album a)) = tags(''album'' \<mapsto> a)"
| "fold_tag tags (Some (TrackTitle t)) = tags(''track'' \<mapsto> t)"
| "fold_tag tags (Some (RecordingDate date)) =
     (let year = date_year date in if year \<noteq> [] then tags(''year'' \<mapsto> year) else tags)"
| "fold_tag tags (Some (ReleaseYear y)) = or_insert ''year'' (show_nat y) tags"
| "fold_tag tags (Some (OriginalReleaseYear y)) = or_insert ''year'' (show_nat y) tags"
| "fold_tag tags (Some (RecordingYear y)) = or_insert ''year'' (show_nat y) tags"
| "fold_tag tags (Some (OriginalRecordingYear y)) = or_insert ''year'' (show_nat y) tags"
| "fold_tag tags _ = tags"

definition notify_tags :: "standard_tag option list \<Rightarrow> (string \<rightharpoonup> string)" where
  "notify_tags ts = foldl fold_tag Map.empty ts"

section \<open>The notification\<close>

definition tag_text :: "string \<Rightarrow> string \<Rightarrow> string option \<Rightarrow> string" where
  "tag_text before after value = (case value of Some v \<Rightarrow> before @ v @ after | None \<Rightarrow> [])"

record notification =
  nt_summary :: string
  nt_body :: string
  nt_icon :: string
  nt_timeout :: nat

definition notify :: "standard_tag option list \<Rightarrow> notification option" where
  "notify ts =
     (let tags = notify_tags ts
      in case tags ''track'' of
           None \<Rightarrow> None
         | Some track \<Rightarrow>
             Some \<lparr>nt_summary = ''Now playing'',
                   nt_body = ''<b>'' @ track @ ''</b>'' @
                     tag_text '' by <b>'' ''</b>'' (tags ''artist'') @
                     tag_text '' from <b>'' ''</b>'' (tags ''album'') @
                     tag_text '' ('' '')'' (tags ''year''),
                   nt_icon = ''emblem-music-symbolic'', nt_timeout = 6000\<rparr>)"

section \<open>Which tag is shown\<close>

text \<open>For each field some tags replace what is there and some only fill a gap.\<close>

fun replacing :: "string \<Rightarrow> standard_tag option \<Rightarrow> string option" where
  "replacing k (Some (AlbumArtist a)) = (if k = ''artist'' then Some a else None)"
| "replacing k (Some (Album a)) = (if k = ''album'' then Some a else None)"
| "replacing k (Some (TrackTitle t)) = (if k = ''track'' then Some t else None)"
| "replacing k (Some (RecordingDate d)) =
     (if k = ''year'' \<and> date_year d \<noteq> [] then Some (date_year d) else None)"
| "replacing k _ = None"

fun filling :: "string \<Rightarrow> standard_tag option \<Rightarrow> string option" where
  "filling k (Some (Artist a)) = (if k = ''artist'' then Some a else None)"
| "filling k (Some (ReleaseYear y)) = (if k = ''year'' then Some (show_nat y) else None)"
| "filling k (Some (OriginalReleaseYear y)) = (if k = ''year'' then Some (show_nat y) else None)"
| "filling k (Some (RecordingYear y)) = (if k = ''year'' then Some (show_nat y) else None)"
| "filling k (Some (OriginalRecordingYear y)) = (if k = ''year'' then Some (show_nat y) else None)"
| "filling k _ = None"

text \<open>The last of the first kind, or else the first of the second.\<close>

definition pick :: "string \<Rightarrow> standard_tag option list \<Rightarrow> string option" where
  "pick k ts =
     (case List.map_filter (replacing k) ts of
        [] \<Rightarrow> (case List.map_filter (filling k) ts of [] \<Rightarrow> None | v # _ \<Rightarrow> Some v)
      | vs \<Rightarrow> Some (last vs))"

lemma fold_tag_field:
  "fold_tag tags t k =
    (case replacing k t of
       Some v \<Rightarrow> Some v
     | None \<Rightarrow> (case tags k of Some v \<Rightarrow> Some v | None \<Rightarrow> filling k t))"
  by (cases "(tags, t)" rule: fold_tag.cases)
    (auto simp: or_insert_def Let_def split: option.split)

lemma map_filter_append [simp]:
  "List.map_filter f (xs @ ys) = List.map_filter f xs @ List.map_filter f ys"
  by (simp add: List.map_filter_def)

lemma notify_tags_pick: "notify_tags ts k = pick k ts"
proof (induction ts rule: rev_induct)
  case Nil
  then show ?case by (simp add: notify_tags_def pick_def List.map_filter_def)
next
  case (snoc t ts)
  have "notify_tags (ts @ [t]) k =
      (case replacing k t of
         Some v \<Rightarrow> Some v
       | None \<Rightarrow> (case pick k ts of Some v \<Rightarrow> Some v | None \<Rightarrow> filling k t))"
    using snoc by (cases "replacing k t") (simp_all add: notify_tags_def fold_tag_field)
  then show ?case
    by (auto simp: pick_def List.map_filter_def split: option.split list.split)
qed

end
