(* ===== verification/Decode.thy ===== *)
theory Decode
  imports Player_State Frames Slim_Buffer Notify
begin

text \<open>
  \<^verbatim>\<open>vibe/src/decode.rs\<close>: the decoder of one stream and the connection to the data port.  The
  container and codec library (symphonia) is a script: the results of the successive
  \<^verbatim>\<open>next_packet\<close> and \<^verbatim>\<open>decode\<close> calls, and a record of functions for the probe.  A call that
  needs a result the script does not have is still waiting (\<open>None\<close>).
\<close>

section \<open>Types\<close>

record stream_params =
  sp_autostart :: auto_start
  sp_output_threshold :: duration

datatype decoder_error = Retry | StreamError string

fun show_decoder_error :: "decoder_error \<Rightarrow> string" where
  "show_decoder_error Retry = ''Decoder reset required''"
| "show_decoder_error (StreamError e) = e"

text \<open>One packet: the reader asks for a reset, fails, is at the end of the stream, or yields a
  packet that decodes to interleaved samples or fails to decode.\<close>

datatype packet_result =
    ResetRequired | ReaderError string | EndOfStream | Decoded "f32 list" | DecodeError string

record codec_params =
  cp_sample_rate :: "u32 option"
  cp_channels :: "nat option"

record vibe_decoder =
  vd_packets :: "packet_result list"
  vd_codec_params :: codec_params
  vd_spec_channels :: nat
  vd_spec_sample_rate :: u32
  vd_metadata :: "standard_tag option list option"

section \<open>Decoding\<close>

definition channels :: "vibe_decoder \<Rightarrow> nat" where
  "channels d = (case cp_channels (vd_codec_params d) of None \<Rightarrow> vd_spec_channels d | Some c \<Rightarrow> c)"

definition sample_rate :: "vibe_decoder \<Rightarrow> u32" where
  "sample_rate d =
     (case cp_sample_rate (vd_codec_params d) of None \<Rightarrow> vd_spec_sample_rate d | Some r \<Rightarrow> r)"

text \<open>\<^verbatim>\<open>as_chunks_mut::<2>().0\<close>: the complete pairs; a sample left over is not touched.\<close>

fun apply_volume :: "f32 \<Rightarrow> f32 \<Rightarrow> f32 list \<Rightarrow> f32 list" where
  "apply_volume left right (l # r # xs) = f32_mul l left # f32_mul r right # apply_volume left right xs"
| "apply_volume left right xs = xs"

definition volume_pair :: "f32 list mutex \<Rightarrow> f32 \<times> f32" where
  "volume_pair volume =
     (case lock volume of None \<Rightarrow> (0x3F000000, 0x3F000000) | Some vol \<Rightarrow> (vol ! 0, vol ! 1))"

definition get_audio_buffer ::
    "f32 list mutex \<Rightarrow> vibe_decoder \<Rightarrow> (vibe_decoder \<times> (decoder_error + f32 list option)) option" where
  "get_audio_buffer volume d =
     (case vd_packets d of
        [] \<Rightarrow> None
      | p # ps \<Rightarrow>
          Some (d\<lparr>vd_packets := ps\<rparr>,
            (case p of
               ResetRequired \<Rightarrow> Inl Retry
             | ReaderError e \<Rightarrow> Inl (StreamError e)
             | EndOfStream \<Rightarrow> Inr None
             | DecodeError e \<Rightarrow> Inl (StreamError e)
             | Decoded samples \<Rightarrow>
                 (let (left, right) = volume_pair volume
                  in Inr (Some (apply_volume left right samples))))))"

text \<open>The loop shared by \<^verbatim>\<open>fill_sample_buffer\<close> and \<^verbatim>\<open>fill_raw_buffer\<close>; \<open>conv\<close> is what is
  appended for a decoded packet.  The buffer keeps what was appended before an error.\<close>

function fill_buffer ::
    "(f32 list \<Rightarrow> 'a list) \<Rightarrow> f32 list mutex \<Rightarrow> nat \<Rightarrow> 'a list \<Rightarrow> vibe_decoder \<Rightarrow>
     (vibe_decoder \<times> 'a list \<times> (decoder_error + bool)) option" where
  "fill_buffer conv volume limit buffer d =
     (if length buffer < limit then
        (case get_audio_buffer volume d of
           None \<Rightarrow> None
         | Some (d', Inl e) \<Rightarrow> Some (d', buffer, Inl e)
         | Some (d', Inr None) \<Rightarrow> Some (d', buffer, Inr True)
         | Some (d', Inr (Some audio)) \<Rightarrow> fill_buffer conv volume limit (buffer @ conv audio) d')
      else Some (d, buffer, Inr False))"
  by pat_completeness auto
termination
  by (relation "measure (\<lambda>(_, _, _, _, d). length (vd_packets d))")
    (auto simp: get_audio_buffer_def Let_def split: list.splits packet_result.splits prod.splits)

declare fill_buffer.simps [simp del]

definition fill_limit :: "nat \<Rightarrow> nat option \<Rightarrow> nat" where
  "fill_limit capacity limit = (case limit of None \<Rightarrow> max (capacity div 2) 1024 | Some l \<Rightarrow> l)"

definition fill_sample_buffer ::
    "f32 list mutex \<Rightarrow> nat \<Rightarrow> nat option \<Rightarrow> f32 list \<Rightarrow> vibe_decoder \<Rightarrow>
     (vibe_decoder \<times> f32 list \<times> (decoder_error + bool)) option" where
  "fill_sample_buffer volume capacity limit buffer d =
     fill_buffer (\<lambda>xs. xs) volume (fill_limit capacity limit) buffer d"

definition raw_samples :: "f32 list \<Rightarrow> bytes" where
  "raw_samples xs = concat (map f32_le_bytes xs)"

definition fill_raw_buffer ::
    "f32 list mutex \<Rightarrow> nat \<Rightarrow> nat option \<Rightarrow> bytes \<Rightarrow> vibe_decoder \<Rightarrow>
     (vibe_decoder \<times> bytes \<times> (decoder_error + bool)) option" where
  "fill_raw_buffer volume capacity limit buffer d =
     fill_buffer raw_samples volume (fill_limit capacity limit) buffer d"

text \<open>\<^verbatim>\<open>metadata\<close>: the tags of the latest revision, which the reader then forgets to be new.\<close>

definition metadata :: "vibe_decoder \<Rightarrow> standard_tag option list option" where
  "metadata d = vd_metadata d"

text \<open>Sample counts and durations in \<^verbatim>\<open>u64\<close> arithmetic that wraps (the release profile); a
  division by zero panics.\<close>

definition frame_rate :: "vibe_decoder \<Rightarrow> u64" where
  "frame_rate d = ucast (sample_rate d) * of_nat (channels d)"

definition samples_to_dur :: "vibe_decoder \<Rightarrow> u64 \<Rightarrow> duration exec" where
  "samples_to_dur d samples =
     (if frame_rate d = 0 then None else Some (from_millis (samples * 1000 div frame_rate d)))"

definition dur_to_samples :: "vibe_decoder \<Rightarrow> duration \<Rightarrow> u64" where
  "dur_to_samples d dur = frame_rate d * of_nat (as_millis dur) div 1000"

section \<open>Opening the stream\<close>

text \<open>\<^verbatim>\<open>make_tcp_connection\<close> over the results of its calls: the bytes handed to the socket and
  the outcome.  \<^verbatim>\<open>write\<close> is not repeated after a short write.\<close>

record tcp_script =
  tc_connect :: "ipv4 \<Rightarrow> u16 \<Rightarrow> unit io_result"
  tc_timeout :: "unit io_result"
  tc_write1 :: write_result
  tc_write2 :: write_result
  tc_flush :: "unit io_result"

definition crlf_str :: string where
  "crlf_str = of_bytes [13, 10]"

definition make_tcp_connection ::
    "tcp_script \<Rightarrow> ipv4 \<Rightarrow> u16 \<Rightarrow> string \<Rightarrow> bytes \<times> unit io_result" where
  "make_tcp_connection net ip port headers_text =
     (case tc_connect net ip port of
        Inl e \<Rightarrow> ([], Inl e)
      | Inr _ \<Rightarrow>
     (case tc_timeout net of
        Inl e \<Rightarrow> ([], Inl e)
      | Inr _ \<Rightarrow>
     (let headers = str_trim headers_text in
      case tc_write1 net of
        WriteErr e \<Rightarrow> ([], Inl e)
      | WriteOk n \<Rightarrow>
     (let out = take n (as_bytes (headers @ crlf_str)) in
      case tc_write2 net of
        WriteErr e \<Rightarrow> (out, Inl e)
      | WriteOk m \<Rightarrow> (out @ take m (as_bytes (crlf_str @ crlf_str)), tc_flush net)))))"

text \<open>\<^verbatim>\<open>BufRead::read_line\<close> on the bytes still to come and the error that ends them, if any.\<close>

definition line_of :: "bytes \<Rightarrow> bytes" where
  "line_of bs = (let l = takeWhile (\<lambda>b. b \<noteq> 10) bs in if length l < length bs then l @ [10] else l)"

definition not_utf8 :: io_error where
  "not_utf8 = IoError InvalidData ''stream did not contain valid UTF-8''"

definition read_line :: "io_error option \<Rightarrow> bytes \<Rightarrow> (bytes \<times> string) io_result" where
  "read_line fin bs =
     (let line = line_of bs; rest = drop (length line) bs
      in case (if 10 \<in> set line then None else fin) of
           Some e \<Rightarrow> Inl e
         | None \<Rightarrow> (if utf8_valid line then Inr (rest, of_bytes line) else Inl not_utf8))"

text \<open>The loop that skips the HTTP response headers: the bytes left for the decoder.\<close>

function skip_headers :: "io_error option \<Rightarrow> bytes \<Rightarrow> bytes io_result" where
  "skip_headers fin bs =
     (case read_line fin bs of
        Inl e \<Rightarrow> Inl e
      | Inr (rest, line) \<Rightarrow>
          if line = [] \<or> line = crlf_str \<or> 8 * 1024 < length line then Inr rest
          else skip_headers fin rest)"
  by pat_completeness auto
termination
proof (relation "measure (\<lambda>(_, bs). length bs)")
  fix fin :: "io_error option" and bs :: bytes and p rest line
  assume "read_line fin bs = Inr p" "(rest, line) = p" and go: "\<not> (line = [] \<or> line = crlf_str \<or> 8 * 1024 < length line)"
  then have "rest = drop (length (line_of bs)) bs" "line = of_bytes (line_of bs)"
    by (auto simp: read_line_def Let_def split: option.splits if_splits)
  moreover from this go have "line_of bs \<noteq> []" by auto
  then have "bs \<noteq> []" by (auto simp: line_of_def Let_def)
  ultimately show "((fin, rest), (fin, bs)) \<in> measure (\<lambda>(_, bs). length bs)"
    using \<open>line_of bs \<noteq> []\<close> by (cases bs) (auto simp: neq_Nil_conv)
qed simp

declare skip_headers.simps [simp del]

text \<open>The library's probe of a stream (the MIME hint, the bytes and their end): the default
  audio track, with its codec parameters if it is an audio track; and for such parameters the
  decoder: its own parameters, the packets to come, and the tags of the stream.\<close>

record symphonia =
  sy_probe :: "string \<Rightarrow> bytes \<Rightarrow> io_error option \<Rightarrow> codec_params option option option"
  sy_decoder :: "codec_params \<Rightarrow> bytes \<Rightarrow> io_error option \<Rightarrow>
    (codec_params \<times> packet_result list \<times> standard_tag option list option) option"

fun mime_hint :: "format \<Rightarrow> string" where
  "mime_hint format.Pcm = ''audio/x-adpcm''"
| "mime_hint format.Mp3 = ''audio/mpeg''"
| "mime_hint format.Aac = ''audio/aac''"
| "mime_hint format.Ogg = ''audio/ogg''"
| "mime_hint Flac = ''audio/flac''"
| "mime_hint _ = []"

definition spec_sample_rate :: "pcm_sample_rate \<Rightarrow> codec_params option \<Rightarrow> u32" where
  "spec_sample_rate rate track =
     (case rate of
        Rate r \<Rightarrow> r
      | RateSelfDescribing \<Rightarrow>
          (case Option.bind track cp_sample_rate of Some r \<Rightarrow> r | None \<Rightarrow> 44100))"

definition spec_channels :: "pcm_channels \<Rightarrow> codec_params option \<Rightarrow> nat" where
  "spec_channels chans track =
     (case chans of
        Mono \<Rightarrow> 1
      | Stereo \<Rightarrow> 2
      | ChannelsSelfDescribing \<Rightarrow>
          (case Option.bind track cp_channels of Some c \<Rightarrow> c | None \<Rightarrow> 2))"

definition try_new ::
    "symphonia \<Rightarrow> io_error option \<Rightarrow> bytes \<Rightarrow> format \<Rightarrow> pcm_sample_rate \<Rightarrow> pcm_channels \<Rightarrow>
     vibe_decoder anyhow" where
  "try_new sy fin mss fmt rate chans =
     (case sy_probe sy (mime_hint fmt) mss fin of
        None \<Rightarrow> Inl ''Unrecognized container format''
      | Some None \<Rightarrow> Inl ''Unable to find default track''
      | Some (Some None) \<Rightarrow> Inl ''Unable to extract audio parameters from stream''
      | Some (Some (Some params)) \<Rightarrow>
          (case sy_decoder sy params mss fin of
             None \<Rightarrow> Inl ''Unable to find suitable decoder''
           | Some (codec, packets, tags) \<Rightarrow>
               Inr \<lparr>vd_packets = packets, vd_codec_params = codec,
                    vd_spec_channels = spec_channels chans (Some params),
                    vd_spec_sample_rate = spec_sample_rate rate (Some params),
                    vd_metadata = tags\<rparr>))"

section \<open>The factory\<close>

text \<open>\<^verbatim>\<open>PlayerMsg\<close> of \<^verbatim>\<open>vibe/src/message.rs\<close>.\<close>

datatype player_msg =
    EndOfDecode | Drained | Pause | Unpause | Connected | BufferThreshold | NotSupported
  | StreamEstablished | TrackStarted | Decoder vibe_decoder stream_params

definition STREAM_BUFFER_SIZE :: nat where
  "STREAM_BUFFER_SIZE = 2 * 1024 * 1024"

definition choose_ip :: "ipv4 \<Rightarrow> ipv4 \<Rightarrow> ipv4" where
  "choose_ip sip default_ip = (if sip = 0 then default_ip else sip)"

text \<open>What a call of \<^verbatim>\<open>make_decoder\<close> does: the messages it posts to the event loop, the request
  it writes to the data port, the buffer it creates, and its result.\<close>

record opened =
  op_msgs :: "player_msg list"
  op_request :: bytes
  op_buffer :: "slim option"
  op_result :: "(vibe_decoder \<times> stream_params) anyhow"

text \<open>The arguments \<open>mss\<close> and \<open>fin\<close> are the bytes the server sends on the data port and the
  error that ends them, if any; \<open>st\<close> is the shared status block.\<close>

definition make_decoder ::
    "symphonia \<Rightarrow> tcp_script \<Rightarrow> bytes \<Rightarrow> io_error option \<Rightarrow> status_data \<Rightarrow> ipv4 \<Rightarrow> stream_cmd \<Rightarrow>
     string \<Rightarrow> opened" where
  "make_decoder sy net mss fin st default_ip cmd headers_text =
     (let ip = choose_ip (server_ip cmd) default_ip;
          (request, conn) = make_tcp_connection net ip (server_port cmd) headers_text
      in case conn of
           Inl _ \<Rightarrow>
             \<lparr>op_msgs = [], op_request = request, op_buffer = None,
              op_result = Inl (''Unable to connect to data stream at '' @ show_ipv4 ip)\<rparr>
         | Inr _ \<Rightarrow>
             (let buffer = with_capacity (max STREAM_BUFFER_SIZE (unat (threshold cmd))) st
                             (threshold cmd) False
              in \<lparr>op_msgs = [Connected, BufferThreshold], op_request = request,
                  op_buffer = Some buffer,
                  op_result =
                    (case skip_headers fin mss of
                       Inl e \<Rightarrow> Inl (display e)
                     | Inr body \<Rightarrow>
                         map_sum (\<lambda>e. e)
                           (\<lambda>d. (d, \<lparr>sp_autostart = autostart cmd,
                                     sp_output_threshold = output_threshold cmd\<rparr>))
                           (try_new sy fin body (sformat cmd) (pcmsamplerate cmd) (pcmchannels cmd)))\<rparr>))"

section \<open>Volume\<close>

lemma length_apply_volume [simp]: "length (apply_volume l r xs) = length xs"
  by (induction l r xs rule: apply_volume.induct) simp_all

lemma nth_apply_volume:
  "i < length xs \<Longrightarrow> apply_volume l r xs ! i =
    (if i < 2 * (length xs div 2) then f32_mul (xs ! i) (if even i then l else r) else xs ! i)"
proof (induction l r xs arbitrary: i rule: apply_volume.induct)
  case (1 l r a b xs)
  then show ?case by (cases i; cases "i - 1") auto
qed auto

lemma apply_volume_one:
  "list_all (\<lambda>x. f32_mag x \<le> f32_inf) xs \<Longrightarrow> apply_volume f32_one f32_one xs = xs"
  by (induction f32_one f32_one xs rule: apply_volume.induct) (simp_all add: f32_mul_one)

section \<open>Filling a buffer\<close>

text \<open>What a fill consumes and appends, and why it stopped.\<close>

definition fill_stop :: "nat \<Rightarrow> nat \<Rightarrow> packet_result list \<Rightarrow> decoder_error + bool \<Rightarrow> bool" where
  "fill_stop limit len stop r \<longleftrightarrow>
     (case r of
        Inr False \<Rightarrow> stop = [] \<and> limit \<le> len
      | Inr True \<Rightarrow> stop = [EndOfStream] \<and> len < limit
      | Inl Retry \<Rightarrow> stop = [ResetRequired] \<and> len < limit
      | Inl (StreamError e) \<Rightarrow> (stop = [ReaderError e] \<or> stop = [DecodeError e]) \<and> len < limit)"

lemma fill_buffer_spec:
  assumes "fill_buffer conv volume limit buffer d = Some (d', buffer', r)"
    and "volume_pair volume = (left, right)"
  shows "\<exists>audio stop. vd_packets d = map Decoded audio @ stop @ vd_packets d' \<and>
    buffer' = buffer @ concat (map (\<lambda>a. conv (apply_volume left right a)) audio) \<and>
    d' = d\<lparr>vd_packets := vd_packets d'\<rparr> \<and> fill_stop limit (length buffer') stop r"
  using assms(1)
proof (induction "length (vd_packets d)" arbitrary: buffer d)
  case 0
  then show ?case
    by (subst (asm) fill_buffer.simps)
      (auto simp: get_audio_buffer_def fill_stop_def split: if_splits)
next
  case (Suc n)
  then obtain p ps where ps: "vd_packets d = p # ps" by (cases "vd_packets d") auto
  show ?case
  proof (cases "length buffer < limit")
    case False
    then show ?thesis using Suc.prems
      by (subst (asm) fill_buffer.simps) (auto simp: fill_stop_def)
  next
    case True
    show ?thesis
    proof (cases "\<exists>a. p = Decoded a")
      case True
      then obtain a where a: "p = Decoded a" by blast
      let ?d = "d\<lparr>vd_packets := ps\<rparr>" and ?b = "buffer @ conv (apply_volume left right a)"
      have "fill_buffer conv volume limit ?b ?d = Some (d', buffer', r)"
        using Suc.prems \<open>length buffer < limit\<close> ps a assms(2)
        by (subst (asm) fill_buffer.simps) (simp add: get_audio_buffer_def)
      from Suc.hyps(1) [OF _ this] Suc.hyps(2) ps obtain audio stop where
        "ps = map Decoded audio @ stop @ vd_packets d'"
        "buffer' = ?b @ concat (map (\<lambda>a. conv (apply_volume left right a)) audio)"
        "d' = d\<lparr>vd_packets := vd_packets d'\<rparr>" "fill_stop limit (length buffer') stop r"
        by auto
      then show ?thesis using ps a
        by (intro exI [of _ "a # audio"] exI [of _ stop]) simp
    next
      case False
      then show ?thesis using Suc.prems \<open>length buffer < limit\<close> ps
        by (intro exI [of _ "[]"] exI [of _ "[p]"], subst (asm) fill_buffer.simps)
          (auto simp: get_audio_buffer_def fill_stop_def split: packet_result.splits)
    qed
  qed
qed

section \<open>Headers\<close>

definition header_ok :: "bytes \<Rightarrow> bool" where
  "header_ok h \<longleftrightarrow> h \<noteq> [] \<and> 10 \<notin> set h \<and> utf8_valid (h @ [13, 10]) \<and> length h + 2 \<le> 8 * 1024"

lemma line_of_line: "10 \<notin> set h \<Longrightarrow> line_of (h @ 10 # rest) = h @ [10]"
proof -
  assume "10 \<notin> set h"
  then have "takeWhile (\<lambda>b. b \<noteq> 10) (h @ 10 # rest) = h"
    by (subst takeWhile_append2) auto
  then show ?thesis by (simp add: line_of_def)
qed

lemma skip_headers_block:
  assumes "list_all header_ok hs"
  shows "skip_headers fin (concat (map (\<lambda>h. h @ [13, 10]) hs) @ [13, 10] @ body) = Inr body"
  using assms
proof (induction hs)
  case Nil
  have "line_of ([13, 10] @ body) = [13, 10]" using line_of_line [of "[13]" body] by simp
  moreover have "utf8_valid [13, 10]" by (rule utf8_valid_ascii) auto
  ultimately show ?case
    by (subst skip_headers.simps) (simp add: read_line_def crlf_str_def)
next
  case (Cons h hs)
  let ?rest = "concat (map (\<lambda>h. h @ [13, 10]) hs) @ [13, 10] @ body"
  have h: "h \<noteq> []" "10 \<notin> set (h @ [13])" "utf8_valid (h @ [13, 10])" "length h + 2 \<le> 8 * 1024"
    using Cons.prems by (auto simp: header_ok_def)
  have line: "line_of (h @ 13 # 10 # ?rest) = h @ [13, 10]"
    using line_of_line [OF h(2), of ?rest] by simp
  have "map chr_of (h @ [13, 10]) \<noteq> crlf_str"
    using h(1) by (simp add: crlf_str_def of_bytes_def)
  then have "skip_headers fin (h @ 13 # 10 # ?rest) = skip_headers fin ?rest"
    using h line by (subst skip_headers.simps) (simp add: read_line_def of_bytes_def)
  with Cons show ?case by simp
qed

end
