(* ===== verification/Audio_Out.thy ===== *)
theory Audio_Out
  imports Decode
begin

text \<open>
  \<^verbatim>\<open>vibe/src/audio_out.rs\<close>: the trait \<^verbatim>\<open>AudioOutput\<close> as a record of functions on the state of
  an output, \<^verbatim>\<open>Box<dyn AudioOutput>\<close> as a tagged choice of the three outputs, and the selection
  by name.  What the event loop relies on is the locale \<open>audio_contract\<close>; the theories of the
  outputs interpret it.

  The decoding loop the outputs share (retry after a reset, give up on an error) is here too.
\<close>

text \<open>A call that runs on the decoder may still wait for the stream, or panic.\<close>

datatype 'a run = Waits | Panics | Done 'a

record 'o audio_output =
  ao_enqueue_new_stream ::
    "vibe_decoder \<Rightarrow> stream_params \<Rightarrow> string option \<Rightarrow> globals \<Rightarrow> 'o \<Rightarrow>
     ('o \<times> player_msg list \<times> unit anyhow) run"
  ao_unpause :: "'o \<Rightarrow> 'o \<times> bool"
  ao_pause :: "'o \<Rightarrow> 'o \<times> bool"
  ao_stop :: "'o \<Rightarrow> 'o"
  ao_flush :: "'o \<Rightarrow> 'o"
  ao_shift :: "'o \<Rightarrow> 'o"
  ao_get_dur :: "'o \<Rightarrow> duration"
  ao_get_output_device_names :: "'o \<Rightarrow> ('o \<times> (string \<times> string option) list anyhow) run"

locale audio_contract =
  fixes ops :: "'o audio_output" and is_playing :: "'o \<Rightarrow> bool"
  assumes pause_idle: "\<not> is_playing out \<Longrightarrow> ao_pause ops out = (out, False)"
    and unpause_idle: "\<not> is_playing out \<Longrightarrow> ao_unpause ops out = (out, False)"
    and pause_keeps: "is_playing (fst (ao_pause ops out)) = is_playing out"
    and unpause_keeps: "is_playing (fst (ao_unpause ops out)) = is_playing out"
    and stop_idle: "\<not> is_playing (ao_stop ops out)"
    and stop_dur: "ao_get_dur ops (ao_stop ops out) = duration_zero"
    and flush_idle: "\<not> is_playing (ao_flush ops out)"
    and flush_dur: "ao_get_dur ops (ao_flush ops out) = duration_zero"
    and enqueue_keeps:
      "ao_enqueue_new_stream ops d sp dev g out = Done (out', msgs, r) \<Longrightarrow> is_playing out \<Longrightarrow>
       is_playing out'"
    and enqueue_reports:
      "ao_enqueue_new_stream ops d sp dev g out = Done (out', msgs, Inr ()) \<Longrightarrow>
       msgs = [NotSupported] \<and> is_playing out' = is_playing out \<or>
       msgs = [StreamEstablished] \<and> is_playing out'"
    and names_keep:
      "ao_get_output_device_names ops out = Done (out', names) \<Longrightarrow> is_playing out' = is_playing out"
begin

lemma stopped_unpause: "ao_unpause ops (ao_stop ops out) = (ao_stop ops out, False)"
  by (rule unpause_idle [OF stop_idle])

lemma stopped_pause: "ao_pause ops (ao_stop ops out) = (ao_stop ops out, False)"
  by (rule pause_idle [OF stop_idle])

lemma unpause_true: "ao_unpause ops out = (out', True) \<Longrightarrow> is_playing out \<and> is_playing out'"
  using unpause_idle [of out] unpause_keeps [of out] by (cases "is_playing out") auto

lemma pause_true: "ao_pause ops out = (out', True) \<Longrightarrow> is_playing out \<and> is_playing out'"
  using pause_idle [of out] pause_keeps [of out] by (cases "is_playing out") auto

end

section \<open>Dynamic dispatch\<close>

datatype ('p, 'w, 'r) dyn_output = PulseOut 'p | PipewireOut 'w | RodioOut 'r

fun dyn_flag ::
    "('p \<Rightarrow> 'p \<times> bool) \<Rightarrow> ('w \<Rightarrow> 'w \<times> bool) \<Rightarrow> ('r \<Rightarrow> 'r \<times> bool) \<Rightarrow>
     ('p, 'w, 'r) dyn_output \<Rightarrow> ('p, 'w, 'r) dyn_output \<times> bool" where
  "dyn_flag f g h (PulseOut x) = apfst PulseOut (f x)"
| "dyn_flag f g h (PipewireOut x) = apfst PipewireOut (g x)"
| "dyn_flag f g h (RodioOut x) = apfst RodioOut (h x)"

fun map_run :: "('a \<Rightarrow> 'b) \<Rightarrow> 'a run \<Rightarrow> 'b run" where
  "map_run f Waits = Waits"
| "map_run f Panics = Panics"
| "map_run f (Done x) = Done (f x)"

lemma map_run_Done: "map_run f x = Done y \<longleftrightarrow> (\<exists>z. x = Done z \<and> y = f z)"
  by (cases x) auto

lemma map_run_Panics: "map_run f x = Panics \<longleftrightarrow> x = Panics"
  by (cases x) simp_all

definition dyn_ops ::
    "'p audio_output \<Rightarrow> 'w audio_output \<Rightarrow> 'r audio_output \<Rightarrow> ('p, 'w, 'r) dyn_output audio_output" where
  "dyn_ops p w r =
     \<lparr>ao_enqueue_new_stream = (\<lambda>d sp dev g out. case out of
          PulseOut x \<Rightarrow> map_run (apfst PulseOut) (ao_enqueue_new_stream p d sp dev g x)
        | PipewireOut x \<Rightarrow> map_run (apfst PipewireOut) (ao_enqueue_new_stream w d sp dev g x)
        | RodioOut x \<Rightarrow> map_run (apfst RodioOut) (ao_enqueue_new_stream r d sp dev g x)),
      ao_unpause = dyn_flag (ao_unpause p) (ao_unpause w) (ao_unpause r),
      ao_pause = dyn_flag (ao_pause p) (ao_pause w) (ao_pause r),
      ao_stop = map_dyn_output (ao_stop p) (ao_stop w) (ao_stop r),
      ao_flush = map_dyn_output (ao_flush p) (ao_flush w) (ao_flush r),
      ao_shift = map_dyn_output (ao_shift p) (ao_shift w) (ao_shift r),
      ao_get_dur = case_dyn_output (ao_get_dur p) (ao_get_dur w) (ao_get_dur r),
      ao_get_output_device_names = (\<lambda>out. case out of
          PulseOut x \<Rightarrow> map_run (apfst PulseOut) (ao_get_output_device_names p x)
        | PipewireOut x \<Rightarrow> map_run (apfst PipewireOut) (ao_get_output_device_names w x)
        | RodioOut x \<Rightarrow> map_run (apfst RodioOut) (ao_get_output_device_names r x))\<rparr>"

lemma dyn_contract:
  assumes "audio_contract p pp" "audio_contract w wp" "audio_contract r rp"
  shows "audio_contract (dyn_ops p w r) (case_dyn_output pp wp rp)"
proof -
  note laws =
    audio_contract.pause_idle audio_contract.unpause_idle audio_contract.pause_keeps
    audio_contract.unpause_keeps audio_contract.stop_idle audio_contract.stop_dur
    audio_contract.flush_idle audio_contract.flush_dur
  note rules = laws [OF assms(1)] laws [OF assms(2)] laws [OF assms(3)]
  show ?thesis
  proof (unfold_locales, goal_cases)
    case (9 d sp dev g out out' msgs res)
    then show ?case
      using audio_contract.enqueue_keeps [OF assms(1)] audio_contract.enqueue_keeps [OF assms(2)]
        audio_contract.enqueue_keeps [OF assms(3)]
      by (cases out) (auto simp: dyn_ops_def map_run_Done)
  next
    case (10 d sp dev g out out' msgs)
    then show ?case
      using audio_contract.enqueue_reports [OF assms(1)] audio_contract.enqueue_reports [OF assms(2)]
        audio_contract.enqueue_reports [OF assms(3)]
      by (cases out) (fastforce simp: dyn_ops_def map_run_Done)+
  next
    case (11 out out' names)
    then show ?case
      using audio_contract.names_keep [OF assms(1)] audio_contract.names_keep [OF assms(2)]
        audio_contract.names_keep [OF assms(3)]
      by (cases out) (auto simp: dyn_ops_def map_run_Done)
  qed (rename_tac out, case_tac out; simp add: dyn_ops_def rules)+
qed

section \<open>Selection\<close>

record features =
  feat_pulse :: bool
  feat_pipewire :: bool
  feat_rodio :: bool

text \<open>\<^verbatim>\<open>make_audio_output\<close>: the constructors of the outputs are arguments; \<^verbatim>\<open>unreachable!()\<close>
  panics.\<close>

definition make_audio_output ::
    "features \<Rightarrow> 'p anyhow run \<Rightarrow> 'w anyhow \<Rightarrow> (string option \<Rightarrow> 'r anyhow) \<Rightarrow> string \<Rightarrow>
     string option \<Rightarrow> ('p, 'w, 'r) dyn_output anyhow run" where
  "make_audio_output fs try_pulse try_pipewire try_rodio system device =
     (if feat_pulse fs \<and> system = ''pulse'' then map_run (map_sum (\<lambda>e. e) PulseOut) try_pulse
      else if feat_pipewire fs \<and> system = ''pipewire'' then
        Done (map_sum (\<lambda>e. e) PipewireOut try_pipewire)
      else if feat_rodio fs \<and> system = ''rodio'' then
        Done (map_sum (\<lambda>e. e) RodioOut (try_rodio device))
      else Panics)"

section \<open>Saturating arithmetic\<close>

definition sat_add :: "u64 \<Rightarrow> u64 \<Rightarrow> u64" where
  "sat_add a b = of_nat (min (2 ^ 64 - 1) (unat a + unat b))"

definition sat_mul :: "u64 \<Rightarrow> u64 \<Rightarrow> u64" where
  "sat_mul a b = of_nat (min (2 ^ 64 - 1) (unat a * unat b))"

definition sat_sub :: "u64 \<Rightarrow> u64 \<Rightarrow> u64" where
  "sat_sub a b = of_nat (unat a - unat b)"

lemma sat_sub_self [simp]: "sat_sub a a = 0"
  by (simp add: sat_sub_def)

lemma unat_sat_add: "unat (sat_add a b) = min (2 ^ 64 - 1) (unat a + unat b)"
  by (simp add: sat_add_def unat_of_nat)

lemma sat_zero [simp]: "sat_mul 0 a = 0" "sat_add 0 a = a"
proof -
  have "unat a < 2 ^ 64" using unat_bound [of a] by simp
  then have "min (2 ^ 64 - 1) (unat a) = unat a" by simp
  then show "sat_add 0 a = a" by (simp add: sat_add_def)
qed (simp add: sat_mul_def)

text \<open>The fullness of an output in the status block, \<^verbatim>\<open>held.min(u32::MAX as u64) as u32\<close>.\<close>

definition report_fullness :: "nat \<Rightarrow> u64 \<Rightarrow> globals \<Rightarrow> globals" where
  "report_fullness capacity held g =
     g\<lparr>STATUS := update_locked
         (\<lambda>st. set_output_buffer_fullness (of_nat (min (2 ^ 32 - 1) (unat held)))
                 (set_output_buffer_size (of_nat capacity) st)) (STATUS g)\<rparr>"

section \<open>Decoding with retries\<close>

lemma fill_buffer_consumes:
  "fill_buffer conv volume limit buffer d = Some (d', buffer', Inl e) \<Longrightarrow>
    length (vd_packets d') < length (vd_packets d)"
  by (cases "volume_pair volume"; cases e) (drule (1) fill_buffer_spec, auto simp: fill_stop_def)+

text \<open>The loop around \<^verbatim>\<open>fill_raw_buffer\<close> and \<^verbatim>\<open>fill_sample_buffer\<close>: the decoder, the buffer and
  the end of decoding or the error.  Each call works out its limit anew, from the capacity the
  buffer has then; \<open>limit i\<close> is that of the \<open>i\<close>-th call.\<close>

function fill_retry ::
    "(f32 list \<Rightarrow> 'a list) \<Rightarrow> f32 list mutex \<Rightarrow> (nat \<Rightarrow> nat) \<Rightarrow> 'a list \<Rightarrow> vibe_decoder \<Rightarrow>
     (vibe_decoder \<times> 'a list \<times> (string + bool)) option" where
  "fill_retry conv volume limit buffer d =
     (case fill_buffer conv volume (limit 0) buffer d of
        None \<Rightarrow> None
      | Some (d', buffer', Inr eod) \<Rightarrow> Some (d', buffer', Inr eod)
      | Some (d', buffer', Inl (StreamError e)) \<Rightarrow> Some (d', buffer', Inl e)
      | Some (d', buffer', Inl Retry) \<Rightarrow> fill_retry conv volume (\<lambda>i. limit (Suc i)) buffer' d')"
  by pat_completeness auto
termination
  by (relation "measure (\<lambda>(_, _, _, _, d). length (vd_packets d))")
    (auto dest: fill_buffer_consumes)

declare fill_retry.simps [simp del]

text \<open>What it appends comes from the packets it consumed; it stops short of the limit only at the
  end of the stream or on an error.\<close>

fun packet_audio :: "packet_result \<Rightarrow> f32 list" where
  "packet_audio (Decoded xs) = xs"
| "packet_audio _ = []"

lemma fill_retry_spec:
  assumes "fill_retry conv volume limit buffer d = Some (d', buffer', r)"
    and "volume_pair volume = (left, right)" and "conv [] = []"
  shows "\<exists>used k. vd_packets d = used @ vd_packets d' \<and>
    buffer' = buffer @ concat (map (\<lambda>p. conv (apply_volume left right (packet_audio p))) used) \<and>
    d' = d\<lparr>vd_packets := vd_packets d'\<rparr> \<and> (r \<noteq> Inr False \<longrightarrow> length buffer' < limit k) \<and>
    (r = Inr False \<longrightarrow> limit k \<le> length buffer') \<and> (r = Inr True \<longrightarrow> EndOfStream \<in> set used)"
  using assms(1)
proof (induction conv\<equiv>conv volume\<equiv>volume limit buffer d rule: fill_retry.induct)
  case (1 limit buffer d)
  obtain d1 b1 r1 where f: "fill_buffer conv volume (limit 0) buffer d = Some (d1, b1, r1)"
    using "1.prems" by (subst (asm) fill_retry.simps) (auto split: option.splits)
  from fill_buffer_spec [OF f assms(2)] obtain audio stop where fb:
    "vd_packets d = map Decoded audio @ stop @ vd_packets d1"
    "b1 = buffer @ concat (map (\<lambda>a. conv (apply_volume left right a)) audio)"
    "d1 = d\<lparr>vd_packets := vd_packets d1\<rparr>" "fill_stop (limit 0) (length b1) stop r1" by blast
  have silent: "concat (map (\<lambda>p. conv (apply_volume left right (packet_audio p)))
      (map Decoded audio @ stop)) = concat (map (\<lambda>a. conv (apply_volume left right a)) audio)"
    using fb(4) assms(3)
    by (auto simp: fill_stop_def comp_def split: sum.splits bool.splits decoder_error.splits)
  show ?case
  proof (cases "r1 = Inl Retry")
    case True
    then have "fill_retry conv volume (\<lambda>i. limit (Suc i)) b1 d1 = Some (d', buffer', r)"
      using "1.prems" f by (subst (asm) fill_retry.simps) simp
    from "1.hyps" [OF f refl refl] this True have "\<exists>used k. vd_packets d1 = used @ vd_packets d' \<and>
        buffer' = b1 @ concat (map (\<lambda>p. conv (apply_volume left right (packet_audio p))) used) \<and>
        d' = d1\<lparr>vd_packets := vd_packets d'\<rparr> \<and> (r \<noteq> Inr False \<longrightarrow> length buffer' < limit (Suc k)) \<and>
        (r = Inr False \<longrightarrow> limit (Suc k) \<le> length buffer') \<and> (r = Inr True \<longrightarrow> EndOfStream \<in> set used)"
      by simp
    then obtain used k where
      "vd_packets d1 = used @ vd_packets d'"
      "buffer' = b1 @ concat (map (\<lambda>p. conv (apply_volume left right (packet_audio p))) used)"
      "d' = d1\<lparr>vd_packets := vd_packets d'\<rparr>" "r \<noteq> Inr False \<longrightarrow> length buffer' < limit (Suc k)"
      "r = Inr False \<longrightarrow> limit (Suc k) \<le> length buffer'" "r = Inr True \<longrightarrow> EndOfStream \<in> set used" by blast
    then show ?thesis using fb silent
      by (intro exI [of _ "map Decoded audio @ stop @ used"] exI [of _ "Suc k"]) auto
  next
    case False
    then show ?thesis using "1.prems" f fb silent
      by (intro exI [of _ "map Decoded audio @ stop"] exI [of _ 0], subst (asm) fill_retry.simps)
        (auto simp: fill_stop_def split: sum.splits bool.splits decoder_error.splits)
  qed
qed

section \<open>Decoding with a skip request\<close>

lemma decoder_rates [simp]:
  "channels (d\<lparr>vd_packets := ps\<rparr>) = channels d" "sample_rate (d\<lparr>vd_packets := ps\<rparr>) = sample_rate d"
  "frame_rate (d\<lparr>vd_packets := ps\<rparr>) = frame_rate d"
  by (simp_all add: frame_rate_def channels_def sample_rate_def split: option.split)

text \<open>The loop of the rodio and pipewire outputs: decode, drop what the skip request covers, and
  start again when nothing is left.  \<open>unit\<close> is the number of buffer elements of a sample; the
  result has the decoder, the buffer, the end of decoding, the messages sent on the way, whether
  an error ended it, and the time that was skipped.  \<open>caps i\<close> is the capacity of the buffer at
  the \<open>i\<close>-th call of the decoder and \<open>request\<close> the limit the output asks for, if any.  With a
  limit of zero, which no output asks for, the loop would turn without ever asking for a packet:
  that is \<open>Waits\<close> too.\<close>

record 'a filled =
  fl_decoder :: vibe_decoder
  fl_buffer :: "'a list"
  fl_eod :: bool
  fl_msgs :: "player_msg list"
  fl_failed :: bool
  fl_skipped :: "duration list"

lemma fill_buffer_progress:
  assumes "fill_buffer conv volume limit buffer d = Some (d', buffer', r)" "length buffer < limit"
  shows "length (vd_packets d') < length (vd_packets d)"
proof -
  obtain left right where vp: "volume_pair volume = (left, right)" by fastforce
  from fill_buffer_spec [OF assms(1) vp] obtain audio stop where fb:
    "vd_packets d = map Decoded audio @ stop @ vd_packets d'"
    "buffer' = buffer @ concat (map (\<lambda>a. conv (apply_volume left right a)) audio)"
    "fill_stop limit (length buffer') stop r" by blast
  have "audio \<noteq> [] \<or> stop \<noteq> []"
    using fb assms(2) by (auto simp: fill_stop_def split: sum.splits bool.splits decoder_error.splits)
  then show ?thesis using fb(1) by (cases audio; cases stop) auto
qed

lemma fill_buffer_full: "\<not> length buffer < limit \<Longrightarrow>
    fill_buffer conv volume limit buffer d = Some (d, buffer, Inr False)"
  by (subst fill_buffer.simps) simp

lemma fill_limit_positive: "request \<noteq> Some 0 \<Longrightarrow> 0 < fill_limit capacity request"
  by (auto simp: fill_limit_def split: option.split)

function skip_fill ::
    "(f32 list \<Rightarrow> 'a list) \<Rightarrow> nat \<Rightarrow> f32 list mutex \<Rightarrow> (nat \<Rightarrow> nat) \<Rightarrow> nat option \<Rightarrow> duration \<Rightarrow>
     'a list \<Rightarrow> vibe_decoder \<Rightarrow> player_msg list \<Rightarrow> bool \<Rightarrow> duration list \<Rightarrow> 'a filled run" where
  "skip_fill conv unit volume caps request skip buffer d msgs failed skipped =
     (case fill_buffer conv volume (fill_limit (caps 0) request) buffer d of
        None \<Rightarrow> Waits
      | Some (d', buffer', Inl Retry) \<Rightarrow>
          skip_fill conv unit volume (\<lambda>i. caps (Suc i)) request skip buffer' d' msgs failed skipped
      | Some (d', buffer', r) \<Rightarrow>
          (let (eod, msgs, failed) =
             (case r of Inr e \<Rightarrow> (e, msgs, failed) | Inl _ \<Rightarrow> (True, msgs @ [NotSupported], True))
           in if duration_zero < skip then
                (let n = min (unat (dur_to_samples d' skip * of_nat unit)) (length buffer')
                 in case samples_to_dur d' (of_nat (n div unit)) of
                      None \<Rightarrow> Panics
                    | Some actual \<Rightarrow>
                        if drop n buffer' = [] then
                          if request = Some 0 then Waits else
                          skip_fill conv unit volume (\<lambda>i. caps (Suc i)) request
                            (duration_saturating_sub skip actual) [] d'
                            msgs failed (skipped @ [actual])
                        else Done \<lparr>fl_decoder = d', fl_buffer = drop n buffer', fl_eod = eod,
                          fl_msgs = msgs, fl_failed = failed, fl_skipped = skipped @ [actual]\<rparr>)
              else Done \<lparr>fl_decoder = d', fl_buffer = buffer', fl_eod = eod, fl_msgs = msgs,
                fl_failed = failed, fl_skipped = skipped\<rparr>))"
  by pat_completeness auto
termination
proof (relation "measure (\<lambda>(conv, unit, volume, caps, request, skip, buffer, d, msgs, failed, skipped).
    2 * length (vd_packets d) + (if buffer = [] then 0 else 1))", goal_cases)
  case (2 conv unit volume caps request skip buffer d msgs failed skipped p d' q buffer' r a)
  then have *: "fill_buffer conv volume (fill_limit (caps 0) request) buffer d =
      Some (d', buffer', Inl a)" by simp
  from fill_buffer_consumes [OF *] show ?case by simp
next
  case (3 conv unit volume caps request skip buffer d msgs failed skipped p d' q buffer' r a e)
  then have *: "fill_buffer conv volume (fill_limit (caps 0) request) buffer d =
      Some (d', buffer', Inl (StreamError e))"
    by simp
  from fill_buffer_consumes [OF *] show ?case by simp
next
  case (4 conv unit volume caps request skip buffer d msgs failed skipped p d' q buffer' r e)
  then have *: "fill_buffer conv volume (fill_limit (caps 0) request) buffer d =
      Some (d', buffer', Inr e)" by simp
  show ?case
  proof (cases "length buffer < fill_limit (caps 0) request")
    case True
    from fill_buffer_progress [OF * True] show ?thesis by simp
  next
    case False
    moreover have "0 < fill_limit (caps 0) request" using 4 by (intro fill_limit_positive) simp
    ultimately have "buffer \<noteq> []" by auto
    with fill_buffer_full [OF False] * show ?thesis by simp
  qed
qed simp

declare skip_fill.simps [simp del]

text \<open>Without a skip request it is the plain loop.\<close>

lemma skip_fill_plain:
  "skip_fill conv unit volume caps request duration_zero buffer d msgs failed skipped =
    (case fill_retry conv volume (\<lambda>i. fill_limit (caps i) request) buffer d of
       None \<Rightarrow> Waits
     | Some (d', buffer', Inr eod) \<Rightarrow>
         Done \<lparr>fl_decoder = d', fl_buffer = buffer', fl_eod = eod, fl_msgs = msgs,
               fl_failed = failed, fl_skipped = skipped\<rparr>
     | Some (d', buffer', Inl e) \<Rightarrow>
         Done \<lparr>fl_decoder = d', fl_buffer = buffer', fl_eod = True, fl_msgs = msgs @ [NotSupported],
               fl_failed = True, fl_skipped = skipped\<rparr>)"
proof (induction conv volume "\<lambda>i. fill_limit (caps i) request" buffer d arbitrary: caps
    rule: fill_retry.induct)
  case (1 conv volume buffer d)
  show ?case
    using 1 by (subst skip_fill.simps, subst fill_retry.simps)
      (auto split: option.splits sum.splits decoder_error.splits)
qed

text \<open>Unless decoding ended there is something to play, and each error is reported.\<close>

lemma skip_fill_result:
  assumes "skip_fill conv unit volume caps request skip buffer d msgs failed skipped = Done f"
    and "request \<noteq> Some 0"
  shows "(fl_eod f \<or> fl_buffer f \<noteq> []) \<and>
    (\<exists>k. fl_msgs f = msgs @ replicate k NotSupported \<and> (fl_failed f \<longleftrightarrow> failed \<or> 0 < k))"
  using assms
proof (induction conv unit volume caps request skip buffer d msgs failed skipped rule: skip_fill.induct)
  case (1 conv unit volume caps request skip buffer d msgs failed skipped)
  let ?limit = "fill_limit (caps 0) request"
  obtain d' buffer' r where fb: "fill_buffer conv volume ?limit buffer d = Some (d', buffer', r)"
    using "1.prems"(1) by (subst (asm) skip_fill.simps) (auto split: option.splits)
  have ne: "r = Inr False \<Longrightarrow> buffer' \<noteq> []"
    using fb fill_limit_positive [OF "1.prems"(2), of "caps 0"]
    by (cases "volume_pair volume") (drule (1) fill_buffer_spec, auto simp: fill_stop_def)
  note step = "1.prems"(1) [unfolded skip_fill.simps [of conv unit volume caps request skip buffer d] fb,
      simplified]
  consider "r = Inl Retry" | e where "r = Inl (StreamError e)" | eod where "r = Inr eod"
    by (cases r; cases "projl r") auto
  then show ?case
  proof cases
    case 1
    with step "1.IH"(1) [OF fb refl refl 1] show ?thesis using "1.prems"(2) by simp
  next
    case 2
    have "fl_eod f \<and> fl_msgs f = msgs @ replicate 1 NotSupported \<and> fl_failed f \<or>
      (fl_eod f \<or> fl_buffer f \<noteq> []) \<and>
        (\<exists>k. fl_msgs f = (msgs @ [NotSupported]) @ replicate k NotSupported \<and> fl_failed f)"
      using 2 step "1.IH"(2) [OF fb refl refl 2 refl] "1.prems"(2)
      by (simp add: Let_def split: option.splits if_splits) auto
    then consider "fl_eod f" "fl_msgs f = msgs @ replicate 1 NotSupported" "fl_failed f"
      | k where "fl_eod f \<or> fl_buffer f \<noteq> []" "fl_failed f"
          "fl_msgs f = msgs @ replicate (Suc k) NotSupported" by auto
    then show ?thesis
    proof cases
      case 1
      then show ?thesis by (intro conjI exI [of _ 1]) auto
    next
      case (2 k)
      then show ?thesis by (intro conjI exI [of _ "Suc k"]) auto
    qed
  next
    case 3
    show ?thesis
      using 3 step "1.IH"(3) [OF fb refl refl 3 refl] "1.prems"(2) ne
      by (auto simp: Let_def split: option.splits if_splits)
  qed
qed

text \<open>A skip request that reaches past the end of the stream is never served: as long as it covers
  all the audio the reader yields, the loop drops what it gets and asks again, however often the
  reader answers that the stream has ended or fails.\<close>

definition unread_samples :: "vibe_decoder \<Rightarrow> nat" where
  "unread_samples d = sum_list (map (\<lambda>p. length (packet_audio p)) (vd_packets d))"

lemma fill_buffer_unread:
  assumes "fill_buffer conv volume limit buffer d = Some (d', buffer', r)"
    and "\<And>xs. length (conv xs) = unit * length xs"
  shows "length buffer' + unit * unread_samples d' \<le> length buffer + unit * unread_samples d"
    and "frame_rate d' = frame_rate d"
proof -
  obtain left right where vp: "volume_pair volume = (left, right)" by fastforce
  from fill_buffer_spec [OF assms(1) vp] obtain audio stop where fb:
    "vd_packets d = map Decoded audio @ stop @ vd_packets d'"
    "buffer' = buffer @ concat (map (\<lambda>a. conv (apply_volume left right a)) audio)"
    "d' = d\<lparr>vd_packets := vd_packets d'\<rparr>" by blast
  have "length (concat (map (\<lambda>a. conv (apply_volume left right a)) audio)) =
      unit * sum_list (map length audio)"
    by (induction audio) (simp_all add: assms(2) algebra_simps)
  then show "length buffer' + unit * unread_samples d' \<le> length buffer + unit * unread_samples d"
    by (simp add: fb(1,2) unread_samples_def comp_def algebra_simps)
  show "frame_rate d' = frame_rate d" using fb(3) by (metis decoder_rates(3))
qed

lemma div_minus_multiple: "(a - k * c) div c = a div c - (k :: nat)"
proof (cases "k * c \<le> a \<and> 0 < c")
  case True
  then have "a div c = (a - k * c) div c + k"
    using div_mult_self1 [of c "a - k * c" k] by simp
  then show ?thesis by simp
next
  case False
  then show ?thesis using less_mult_imp_div_less [of a k c] by (cases "c = 0") auto
qed

lemma factor_less: "0 < c \<Longrightarrow> a * c < b \<Longrightarrow> a < (b :: nat)"
  by (cases c) auto

text \<open>One turn: a skip that covers the buffer drops it, and what is left of the skip covers what
  is left of the audio.\<close>

lemma skip_covers:
  fixes d :: vibe_decoder
  assumes "0 < unit" and "unat (frame_rate d) * as_millis skip * unit < 2 ^ 64"
    and "1000 * n < unat (frame_rate d) * as_millis skip" and "b \<le> unit * n"
  shows "min (unat (dur_to_samples d skip * of_nat unit)) b = b" and "duration_zero < skip"
    and "\<exists>actual. samples_to_dur d (of_nat (b div unit)) = Some actual \<and>
      1000 * (n - b div unit) < unat (frame_rate d) * as_millis (duration_saturating_sub skip actual) \<and>
      unat (frame_rate d) * as_millis (duration_saturating_sub skip actual) * unit < 2 ^ 64"
proof -
  let ?r = "unat (frame_rate d)" and ?m = "as_millis skip" and ?s = "b div unit"
  let ?k = "1000 * ?s div ?r"
  have pos: "0 < ?r" "0 < ?m" using assms(3) by (auto intro: ccontr)
  have rm: "?r * ?m < 2 ^ 64" by (rule factor_less [OF assms(1,2)])
  have m: "?m < 2 ^ 64" using factor_less [OF pos(1), of ?m] rm by (simp add: mult.commute)
  have "0 < ?r * ?m" using pos by simp
  then have unit: "unit < 2 ^ 64" using factor_less [of "?r * ?m" unit] assms(2) by (simp add: mult.commute)
  have dur: "unat (dur_to_samples d skip) = ?r * ?m div 1000"
    using rm m by (simp add: dur_to_samples_def unat_div unat_word_ariths unat_of_nat)
  show "duration_zero < skip" using pos(2)
    by (cases skip) (simp add: duration_zero_def less_duration_def as_millis_def)
  have n: "n \<le> ?r * ?m div 1000" using assms(3) by linarith
  have "?r * ?m div 1000 * unit < 2 ^ 64"
    by (rule le_less_trans [OF mult_le_mono1 assms(2)]) simp
  then have "unat (dur_to_samples d skip * of_nat unit) = ?r * ?m div 1000 * unit"
    using unit dur by (simp add: unat_word_ariths unat_of_nat)
  moreover have "b \<le> ?r * ?m div 1000 * unit"
    by (rule order.trans [OF assms(4)], subst mult.commute) (rule mult_le_mono1 [OF n])
  ultimately show "min (unat (dur_to_samples d skip * of_nat unit)) b = b" by simp
  have s: "?s \<le> n" using div_le_mono [OF assms(4), of unit] assms(1) by simp
  then have s1: "1000 * ?s < ?r * ?m" using assms(3) by linarith
  have k: "?r * ?k \<le> 1000 * ?s" by simp
  have "?k < 2 ^ 64" using div_le_dividend [of "1000 * ?s" ?r] s1 rm by linarith
  moreover have "unat (of_nat ?s * 1000 :: u64) = 1000 * ?s"
    using s1 rm by (simp add: unat_word_ariths unat_of_nat)
  ultimately have actual: "samples_to_dur d (of_nat ?s) = Some (Duration (?k * 10 ^ 6))"
    using pos(1) by (auto simp: samples_to_dur_def from_millis_def unat_div)
  have "as_millis (duration_saturating_sub skip (Duration (?k * 10 ^ 6))) = ?m - ?k"
    by (simp add: as_millis_def duration_saturating_sub_def div_minus_multiple)
  moreover have "1000 * (n - ?s) < ?r * (?m - ?k)"
    unfolding diff_mult_distrib2 using k assms(3) s1 by linarith
  moreover have "?r * (?m - ?k) * unit < 2 ^ 64"
    using assms(2) by (meson diff_le_self le_less_trans mult_le_mono1 mult_le_mono2)
  ultimately show "\<exists>actual. samples_to_dur d (of_nat ?s) = Some actual \<and>
      1000 * (n - ?s) < ?r * as_millis (duration_saturating_sub skip actual) \<and>
      ?r * as_millis (duration_saturating_sub skip actual) * unit < 2 ^ 64"
    using actual by auto
qed

lemma skip_fill_past_end:
  assumes "\<And>xs. length (conv xs) = unit * length xs" "0 < unit"
    and "unat (frame_rate d) * as_millis skip * unit < 2 ^ 64"
    and "length buffer + unit * unread_samples d \<le> unit * n"
    and "1000 * n < unat (frame_rate d) * as_millis skip"
  shows "skip_fill conv unit volume caps request skip buffer d msgs failed skipped = Waits"
  using assms
proof (induction conv unit volume caps request skip buffer d msgs failed skipped arbitrary: n
    rule: skip_fill.induct)
  case (1 conv unit volume caps request skip buffer d msgs failed skipped)
  show ?case
  proof (cases "fill_buffer conv volume (fill_limit (caps 0) request) buffer d")
    case None
    then show ?thesis by (subst skip_fill.simps) simp
  next
    case (Some t)
    then obtain d' buffer' r where fb: "fill_buffer conv volume (fill_limit (caps 0) request) buffer d =
        Some (d', buffer', r)" by (cases t) auto
    note unread = fill_buffer_unread [OF fb "1.prems"(1)]
    then have len: "length buffer' + unit * unread_samples d' \<le> unit * n" using "1.prems"(4) by linarith
    note prems = "1.prems"(1-3,5) [folded unread(2)]
    obtain actual where actual: "samples_to_dur d' (of_nat (length buffer' div unit)) = Some actual"
      "1000 * (n - length buffer' div unit) < unat (frame_rate d') * as_millis (duration_saturating_sub skip actual)"
      "unat (frame_rate d') * as_millis (duration_saturating_sub skip actual) * unit < 2 ^ 64"
      using skip_covers(3) [OF prems(2-4), of "length buffer'"] len by auto
    have covered: "min (unat (dur_to_samples d' skip * of_nat unit)) (length buffer') = length buffer'"
      "duration_zero < skip"
      using skip_covers(1,2) [OF prems(2-4), of "length buffer'"] len by auto
    have "unit * (length buffer' div unit) \<le> length buffer'" by (rule times_div_less_eq_dividend)
    then have rest: "length [] + unit * unread_samples d' \<le> unit * (n - length buffer' div unit)"
      unfolding diff_mult_distrib2 list.size(3) using len by linarith
    consider "r = Inl Retry" | e where "r = Inl (StreamError e)" | eod where "r = Inr eod"
      by (cases r; cases "projl r") auto
    then show ?thesis
    proof cases
      case 1
      then show ?thesis using fb "1.IH"(1) [OF fb refl refl 1 refl, of n] prems len
        by (subst skip_fill.simps) simp
    next
      case 2
      show ?thesis
        using fb 2 covered actual "1.IH"(2) [OF fb refl refl 2 refl] rest prems(1,2)
        by (subst skip_fill.simps) (simp add: Let_def)
    next
      case 3
      show ?thesis
        using fb 3 covered actual "1.IH"(3) [OF fb refl refl 3 refl] rest prems(1,2)
        by (subst skip_fill.simps) (simp add: Let_def)
    qed
  qed
qed

end
