(* ===== verification/Pulse_Out.thy ===== *)
theory Pulse_Out
  imports Audio_Out
begin

text \<open>
  \<^verbatim>\<open>vibe/src/pulse_out.rs\<close>: the write callback that feeds PulseAudio, as a function on its captured
  state, and the output.  The functions of libpulse are the fields of \<open>pulse_api\<close>; the lock of
  its threaded main loop is a depth, because the code takes and releases it by hand.
\<close>

section \<open>The write callback\<close>

definition PULSE_MIN_AUDIO_BUFFER :: nat where
  "PULSE_MIN_AUDIO_BUFFER = 8 * 1024"

datatype write_state = Starting | Running | Draining | Drained

record pulse_writer =
  wr_state :: write_state
  wr_buf :: bytes
  wr_decoder :: vibe_decoder
  wr_rate :: u32
  wr_channels :: u8

text \<open>The state the callback starts with: what was decoded in advance, and the decoder.\<close>

definition new_writer :: "bytes \<Rightarrow> vibe_decoder \<Rightarrow> pulse_writer" where
  "new_writer buf d =
     \<lparr>wr_state = Starting, wr_buf = buf, wr_decoder = d, wr_rate = sample_rate d,
      wr_channels = of_nat (channels d)\<rparr>"

text \<open>The bytes of a reported latency in microseconds.\<close>

definition latency_bytes :: "pulse_writer \<Rightarrow> u64 option \<Rightarrow> u64" where
  "latency_bytes w latency =
     (case latency of
        Some usecs \<Rightarrow> usecs * ucast (wr_rate w) * (4 * ucast (wr_channels w)) div 1000000
      | None \<Rightarrow> 0)"

text \<open>The part that runs unless the stream is draining: fill, write with the seek offset of a skip
  request, report, and announce the end.\<close>

definition write_chunk ::
    "nat \<Rightarrow> u64 option \<Rightarrow> nat \<Rightarrow> globals \<Rightarrow> pulse_writer \<Rightarrow>
     (pulse_writer \<times> globals \<times> player_msg list \<times> (bytes \<times> u64) option) run" where
  "write_chunk len latency capacity g w =
     (case fill_retry raw_samples (VOLUME g) (\<lambda>_. fill_limit 0 (Some len)) (wr_buf w) (wr_decoder w) of
        None \<Rightarrow> Waits
      | Some (d, buf, r) \<Rightarrow>
          (let (end_of_decode, st, errors) =
             (case r of Inr e \<Rightarrow> (e, wr_state w, []) | Inl _ \<Rightarrow> (True, Draining, [NotSupported]));
               n = min (length buf) len;
               (g1, written) =
                 (if buf = [] then (g, None)
                  else let (skip, g1) = take_skip g
                       in (g1, Some (take n buf, dur_to_samples d skip * 4)));
               rest = (if buf = [] then buf else drop n buf);
               held = sat_add (of_nat (length rest)) (latency_bytes w latency);
               g2 = report_fullness capacity held g1
           in Done (w\<lparr>wr_state := (if end_of_decode then Draining else st), wr_buf := rest,
                      wr_decoder := d\<rparr>, g2,
                    errors @ (if end_of_decode then [EndOfDecode] else []), written)))"

definition on_write ::
    "nat \<Rightarrow> u64 option \<Rightarrow> nat \<Rightarrow> globals \<Rightarrow> pulse_writer \<Rightarrow>
     (pulse_writer \<times> globals \<times> player_msg list \<times> (bytes \<times> u64) option) run" where
  "on_write len latency capacity g w =
     (if wr_state w = Drained then Done (w, g, [], None)
      else
        let started = (if wr_state w = Starting then [TrackStarted] else []);
            w = (if wr_state w = Starting then w\<lparr>wr_state := Running\<rparr> else w)
        in case (if wr_state w \<noteq> Draining then write_chunk len latency capacity g w
                 else Done (w, g, [], None)) of
             Waits \<Rightarrow> Waits
           | Panics \<Rightarrow> Panics
           | Done (w, g, msgs, written) \<Rightarrow>
               Done ((if wr_state w = Draining \<and> wr_buf w = [] then w\<lparr>wr_state := Drained\<rparr> else w),
                     g, started @ msgs, written))"

text \<open>The underflow callback.\<close>

definition on_underflow :: "pulse_writer \<Rightarrow> player_msg list" where
  "on_underflow w = (if wr_state w = Drained then [player_msg.Drained] else [])"

section \<open>The output\<close>

text \<open>The states of a connection or a stream, as far as the code tells them apart, and what the
  device introspection yields.\<close>

datatype pa_state = PaReady | PaFailed | PaTerminated | PaOther

datatype sink_result = SinkItem "string option" "string option" | SinkEnd | SinkError

text \<open>\<open>pa_context_states\<close> and \<open>pa_stream_states\<close> are what successive queries of the state yield;
  \<open>pa_capacity size i\<close> is the capacity, at the \<open>i\<close>-th call of the decoder, of a buffer created
  for \<open>size\<close> bytes.\<close>

record 's pulse_api =
  pa_mainloop_new :: bool
  pa_context_new :: bool
  pa_context_connect :: "unit anyhow"
  pa_mainloop_start :: "unit anyhow"
  pa_context_states :: "pa_state list"
  pa_refused :: string
  pa_stream_new :: "u32 \<Rightarrow> u8 \<Rightarrow> 's option"
  pa_set_callbacks :: "pulse_writer \<Rightarrow> 's \<Rightarrow> 's"
  pa_connect_playback :: "string option \<Rightarrow> 's \<Rightarrow> 's anyhow"
  pa_stream_states :: "'s \<Rightarrow> pa_state list"
  pa_terminated :: string
  pa_set_corked :: "bool \<Rightarrow> 's \<Rightarrow> 's \<times> bool"
  pa_clear_write :: "'s \<Rightarrow> 's"
  pa_disconnect :: "'s \<Rightarrow> 's"
  pa_get_time :: "'s \<Rightarrow> u64 option"
  pa_sinks :: "sink_result list"
  pa_capacity :: "nat \<Rightarrow> nat \<Rightarrow> nat"

text \<open>The field \<open>pu_closed\<close> records the streams that were disconnected before they were dropped.\<close>

record 's pulse_output =
  pu_locks :: nat
  pu_loop_stopped :: bool
  pu_playing :: "'s option"
  pu_next_up :: "'s option"
  pu_closed :: "'s list"

definition pulse_lock :: "'s pulse_output \<Rightarrow> 's pulse_output" where
  "pulse_lock out = out\<lparr>pu_locks := pu_locks out + 1\<rparr>"

definition pulse_unlock :: "'s pulse_output \<Rightarrow> 's pulse_output" where
  "pulse_unlock out = out\<lparr>pu_locks := pu_locks out - 1\<rparr>"

text \<open>The loops of \<^verbatim>\<open>try_new\<close> and \<^verbatim>\<open>connect_stream\<close> that wait for the context and for the stream see
  its successive states.\<close>

fun wait_ready :: "pa_state list \<Rightarrow> bool run" where
  "wait_ready [] = Waits"
| "wait_ready (PaReady # cs) = Done True"
| "wait_ready (PaFailed # cs) = Done False"
| "wait_ready (PaTerminated # cs) = Done False"
| "wait_ready (PaOther # cs) = wait_ready cs"

definition pulse_try_new :: "'s pulse_api \<Rightarrow> 's pulse_output anyhow run" where
  "pulse_try_new api =
     (if \<not> pa_mainloop_new api \<or> \<not> pa_context_new api then Done (Inl (pa_refused api))
      else case pa_context_connect api of
          Inl e \<Rightarrow> Done (Inl e)
        | Inr _ \<Rightarrow>
      (case pa_mainloop_start api of
          Inl e \<Rightarrow> Done (Inl e)
        | Inr _ \<Rightarrow>
            map_run (\<lambda>ready.
                if ready then
                  Inr \<lparr>pu_locks = 0, pu_loop_stopped = False, pu_playing = None, pu_next_up = None,
                       pu_closed = []\<rparr>
                else Inl ''Unable to connect with pulseaudio'')
              (wait_ready (pa_context_states api))))"

definition connect_stream ::
    "'s pulse_api \<Rightarrow> string option \<Rightarrow> 's \<Rightarrow> 's pulse_output \<Rightarrow> ('s pulse_output \<times> 's anyhow) run" where
  "connect_stream api device stream out =
     (let out = pulse_lock out
      in case pa_connect_playback api device stream of
           Inl e \<Rightarrow> Done (out, Inl e)
         | Inr stream \<Rightarrow>
             map_run (\<lambda>ready.
                 if ready then (pulse_unlock out, Inr stream)
                 else ((pulse_unlock out)\<lparr>pu_loop_stopped := True\<rparr>, Inl (pa_terminated api)))
               (wait_ready (pa_stream_states api stream)))"

definition set_cork_state :: "'s pulse_api \<Rightarrow> bool \<Rightarrow> 's pulse_output \<Rightarrow> 's pulse_output \<times> bool" where
  "set_cork_state api state out =
     (case pu_playing out of
        Some stream \<Rightarrow>
          (let (stream, success) = pa_set_corked api state stream
           in (pulse_unlock ((pulse_lock out)\<lparr>pu_playing := Some stream\<rparr>), success))
      | None \<Rightarrow> (out, False))"

definition pulse_enqueue :: "'s pulse_api \<Rightarrow> 's \<Rightarrow> auto_start \<Rightarrow> 's pulse_output \<Rightarrow> 's pulse_output" where
  "pulse_enqueue api stream auto out =
     (if pu_playing out \<noteq> None then out\<lparr>pu_next_up := Some stream\<rparr>
      else let out = out\<lparr>pu_playing := Some stream\<rparr>
           in if auto = Auto then fst (set_cork_state api False out) else out)"

definition pulse_enqueue_new_stream ::
    "'s pulse_api \<Rightarrow> vibe_decoder \<Rightarrow> stream_params \<Rightarrow> string option \<Rightarrow> globals \<Rightarrow> 's pulse_output \<Rightarrow>
     ('s pulse_output \<times> player_msg list \<times> unit anyhow) run" where
  "pulse_enqueue_new_stream api d sp device g out =
     (let buf_size = max (unat (dur_to_samples d (sp_output_threshold sp))) PULSE_MIN_AUDIO_BUFFER
      in case fill_retry raw_samples (VOLUME g) (\<lambda>i. fill_limit (pa_capacity api buf_size i) None) [] d of
           None \<Rightarrow> Waits
         | Some (d, buf, Inl e) \<Rightarrow> Done (out, [NotSupported], Inr ())
         | Some (d, buf, Inr _) \<Rightarrow>
             (let rate = sample_rate d; chans = of_nat (channels d); out = pulse_lock out
              in case pa_stream_new api rate chans of
                   None \<Rightarrow> Done (out, [NotSupported], Inr ())
                 | Some stream \<Rightarrow>
                     (let out = pulse_unlock out;
                          out = pulse_lock out;
                          stream = pa_set_callbacks api (new_writer buf d) stream;
                          out = pulse_unlock out
                      in case connect_stream api device stream out of
                           Waits \<Rightarrow> Waits
                         | Panics \<Rightarrow> Panics
                         | Done (out, Inl e) \<Rightarrow> Done (out, [], Inl e)
                         | Done (out, Inr stream) \<Rightarrow>
                             Done (pulse_enqueue api stream (sp_autostart sp) out,
                                   [StreamEstablished], Inr ()))))"

text \<open>\<^verbatim>\<open>stop\<close> disconnects the stream that plays; the one that waits is only dropped.\<close>

definition pulse_stop :: "'s pulse_api \<Rightarrow> 's pulse_output \<Rightarrow> 's pulse_output" where
  "pulse_stop api out =
     (let out =
        (case pu_playing out of
           Some stream \<Rightarrow>
             (let out = pulse_lock out;
                  stream = pa_disconnect api (pa_clear_write api stream)
              in pulse_unlock (out\<lparr>pu_closed := pu_closed out @ [stream]\<rparr>))
         | None \<Rightarrow> out)
      in out\<lparr>pu_next_up := None, pu_playing := None\<rparr>)"

definition pulse_shift :: "'s pulse_output \<Rightarrow> 's pulse_output" where
  "pulse_shift out = out\<lparr>pu_playing := pu_next_up out, pu_next_up := None\<rparr>"

definition from_micros :: "u64 \<Rightarrow> duration" where
  "from_micros us = Duration (unat us * 1000)"

definition pulse_get_dur :: "'s pulse_api \<Rightarrow> 's pulse_output \<Rightarrow> duration" where
  "pulse_get_dur api out =
     (case pu_playing out of
        Some stream \<Rightarrow> from_micros (case pa_get_time api stream of None \<Rightarrow> 0 | Some us \<Rightarrow> us)
      | None \<Rightarrow> duration_zero)"

text \<open>The devices: the introspection callback posts each item and a final \<^verbatim>\<open>None\<close>; the caller
  collects them.\<close>

fun sink_post :: "sink_result \<Rightarrow> (string \<times> string option) option" where
  "sink_post (SinkItem n desc) = Some (case n of None \<Rightarrow> [] | Some s \<Rightarrow> s, desc)"
| "sink_post SinkEnd = None"
| "sink_post SinkError = None"

fun collect_sinks :: "(string \<times> string option) option list \<Rightarrow> (string \<times> string option) list run" where
  "collect_sinks [] = Waits"
| "collect_sinks (None # posts) = Done []"
| "collect_sinks (Some item # posts) = map_run (Cons item) (collect_sinks posts)"

definition pulse_device_names ::
    "'s pulse_api \<Rightarrow> 's pulse_output \<Rightarrow> ('s pulse_output \<times> (string \<times> string option) list anyhow) run" where
  "pulse_device_names api out =
     map_run (\<lambda>names. (pulse_unlock (pulse_lock out), Inr names))
       (collect_sinks (map sink_post (pa_sinks api)))"

lemma collect_sinks_items:
  "collect_sinks (map Some items @ None # posts) = Done items"
  by (induction items) simp_all

definition pulse_ops :: "'s pulse_api \<Rightarrow> 's pulse_output audio_output" where
  "pulse_ops api =
     \<lparr>ao_enqueue_new_stream = pulse_enqueue_new_stream api,
      ao_unpause = set_cork_state api False,
      ao_pause = set_cork_state api True,
      ao_stop = pulse_stop api,
      ao_flush = pulse_stop api,
      ao_shift = pulse_shift,
      ao_get_dur = pulse_get_dur api,
      ao_get_output_device_names = pulse_device_names api\<rparr>"

definition pulse_playing :: "'s pulse_output \<Rightarrow> bool" where
  "pulse_playing out \<longleftrightarrow> pu_playing out \<noteq> None"

lemmas pulse_defs = pulse_ops_def pulse_playing_def pulse_lock_def pulse_unlock_def
  connect_stream_def set_cork_state_def pulse_enqueue_def pulse_enqueue_new_stream_def
  pulse_stop_def pulse_shift_def pulse_get_dur_def pulse_device_names_def map_run_Done Let_def

lemma pulse_stop_closes:
  "pulse_stop api out =
    out\<lparr>pu_next_up := None, pu_playing := None, pu_closed := pu_closed out @
      map (\<lambda>s. pa_disconnect api (pa_clear_write api s)) (case pu_playing out of None \<Rightarrow> [] | Some s \<Rightarrow> [s])\<rparr>"
  by (simp add: pulse_defs split: option.split)

interpretation pulse: audio_contract "pulse_ops api" pulse_playing
  for api :: "'s pulse_api"
  by unfold_locales
    (auto simp: pulse_defs split: option.splits sum.splits prod.splits if_splits run.splits)

section \<open>The life of a writer\<close>

lemma write_chunk_spec:
  assumes "write_chunk len latency capacity g w = Done (w', g', msgs, written)"
    and "wr_state w = Running" and "volume_pair (VOLUME g) = (left, right)"
  shows "(wr_state w' = Running \<and> EndOfDecode \<notin> set msgs \<or>
      wr_state w' = Draining \<and> wr_buf w' = [] \<and> EndOfDecode \<in> set msgs) \<and>
    TrackStarted \<notin> set msgs \<and>
    (\<exists>used. vd_packets (wr_decoder w) = used @ vd_packets (wr_decoder w') \<and>
      wr_buf w @ concat (map (\<lambda>p. raw_samples (apply_volume left right (packet_audio p))) used) =
        (case written of None \<Rightarrow> [] | Some (bytes, _) \<Rightarrow> bytes) @ wr_buf w')"
proof -
  obtain d buf r where f: "fill_retry raw_samples (VOLUME g) (\<lambda>_. len) (wr_buf w) (wr_decoder w) =
      Some (d, buf, r)"
    using assms(1) by (auto simp: write_chunk_def fill_limit_def split: option.splits)
  have "raw_samples [] = []" by (simp add: raw_samples_def)
  from fill_retry_spec [OF f assms(3) this] obtain used where used:
    "vd_packets (wr_decoder w) = used @ vd_packets d"
    "buf = wr_buf w @ concat (map (\<lambda>p. raw_samples (apply_volume left right (packet_audio p))) used)"
    "r \<noteq> Inr False \<longrightarrow> length buf < len" by blast
  have "(wr_state w' = Running \<and> EndOfDecode \<notin> set msgs \<or>
      wr_state w' = Draining \<and> wr_buf w' = [] \<and> EndOfDecode \<in> set msgs) \<and>
    TrackStarted \<notin> set msgs \<and> wr_decoder w' = d \<and>
    buf = (case written of None \<Rightarrow> [] | Some (bytes, _) \<Rightarrow> bytes) @ wr_buf w'"
    using assms(1,2) f used(3)
    by (auto simp: write_chunk_def fill_limit_def take_skip_def Let_def split: sum.splits if_splits)
  with used(1,2) show ?thesis by auto
qed

lemma on_write_spec:
  assumes "on_write len latency capacity g w = Done (w', g', msgs, written)"
    and "wr_state w \<noteq> Draining" and "volume_pair (VOLUME g) = (left, right)"
  shows "wr_state w' \<in> {Running, Drained}" "TrackStarted \<in> set msgs \<longleftrightarrow> wr_state w = Starting"
    "EndOfDecode \<in> set msgs \<longleftrightarrow> wr_state w \<noteq> Drained \<and> wr_state w' = Drained"
    "wr_state w' = Drained \<Longrightarrow> wr_state w \<noteq> Drained \<Longrightarrow> wr_buf w' = []"
    "\<exists>used. vd_packets (wr_decoder w) = used @ vd_packets (wr_decoder w') \<and>
      wr_buf w @ concat (map (\<lambda>p. raw_samples (apply_volume left right (packet_audio p))) used) =
        (case written of None \<Rightarrow> [] | Some (bytes, _) \<Rightarrow> bytes) @ wr_buf w'"
proof -
  let ?w = "if wr_state w = Starting then w\<lparr>wr_state := Running\<rparr> else w"
  have "wr_state w' \<in> {Running, Drained} \<and> (TrackStarted \<in> set msgs \<longleftrightarrow> wr_state w = Starting) \<and>
    (EndOfDecode \<in> set msgs \<longleftrightarrow> wr_state w \<noteq> Drained \<and> wr_state w' = Drained) \<and>
    (wr_state w' = Drained \<longrightarrow> wr_state w \<noteq> Drained \<longrightarrow> wr_buf w' = []) \<and>
    (\<exists>used. vd_packets (wr_decoder w) = used @ vd_packets (wr_decoder w') \<and>
      wr_buf w @ concat (map (\<lambda>p. raw_samples (apply_volume left right (packet_audio p))) used) =
        (case written of None \<Rightarrow> [] | Some (bytes, _) \<Rightarrow> bytes) @ wr_buf w')"
  proof (cases "wr_state w = Drained")
    case True
    then show ?thesis using assms(1) by (auto simp: on_write_def)
  next
    case False
    then have run: "wr_state ?w = Running" using assms(2) by (cases "wr_state w") auto
    then obtain w1 m1 where c: "write_chunk len latency capacity g ?w = Done (w1, g', m1, written)"
      and w': "w' = (if wr_state w1 = Draining \<and> wr_buf w1 = [] then w1\<lparr>wr_state := Drained\<rparr> else w1)"
      and m: "msgs = (if wr_state w = Starting then [TrackStarted] else []) @ m1"
      using assms(1) False by (auto simp: on_write_def Let_def split: run.splits if_splits)
    from write_chunk_spec [OF c run assms(3)] False show ?thesis
      by (auto simp: w' m split: if_splits)
  qed
  then show "wr_state w' \<in> {Running, Drained}" "TrackStarted \<in> set msgs \<longleftrightarrow> wr_state w = Starting"
    "EndOfDecode \<in> set msgs \<longleftrightarrow> wr_state w \<noteq> Drained \<and> wr_state w' = Drained"
    "wr_state w' = Drained \<Longrightarrow> wr_state w \<noteq> Drained \<Longrightarrow> wr_buf w' = []"
    "\<exists>used. vd_packets (wr_decoder w) = used @ vd_packets (wr_decoder w') \<and>
      wr_buf w @ concat (map (\<lambda>p. raw_samples (apply_volume left right (packet_audio p))) used) =
        (case written of None \<Rightarrow> [] | Some (bytes, _) \<Rightarrow> bytes) @ wr_buf w'" by blast+
qed

section \<open>A sample library\<close>

text \<open>A library that connects but cannot create streams.\<close>

definition sample_pulse_api :: "unit pulse_api" where
  "sample_pulse_api =
     \<lparr>pa_mainloop_new = True, pa_context_new = True, pa_context_connect = Inr (),
      pa_mainloop_start = Inr (), pa_context_states = [PaOther, PaReady], pa_refused = [],
      pa_stream_new = \<lambda>_ _. None, pa_set_callbacks = \<lambda>_ s. s, pa_connect_playback = \<lambda>_ s. Inr s,
      pa_stream_states = \<lambda>_. [PaOther, PaReady], pa_terminated = [], pa_set_corked = \<lambda>_ s. (s, True),
      pa_clear_write = \<lambda>s. s, pa_disconnect = \<lambda>s. s, pa_get_time = \<lambda>_. None,
      pa_sinks = [SinkItem (Some ''hdmi'') None, SinkEnd], pa_capacity = \<lambda>size _. size\<rparr>"

end
