(* ===== verification/Pipewire_Out.thy ===== *)
theory Pipewire_Out
  imports Audio_Out
begin

text \<open>
  \<^verbatim>\<open>vibe/src/pipewire_out.rs\<close>: the process callback, the clock shared between the callbacks and
  the output, and the output itself.  The functions of the pipewire bindings are the fields of
  \<open>pipewire_api\<close>; what a callback reads from its stream (the buffer it may fill, the time) is
  an argument, and so is the capacity the allocator gives the byte buffer, before decoding and
  when it is reported.
\<close>

section \<open>The clock\<close>

text \<open>Elapsed milliseconds, the graph clock at the start (ticks and rate), and the time to add.\<close>

record pw_clock =
  ck_duration :: u64
  ck_start_ticks :: "(u64 \<times> u32 \<times> u32) option"
  ck_skip_offset_ms :: u64

definition clock_reset :: "pw_clock \<Rightarrow> pw_clock" where
  "clock_reset c = c\<lparr>ck_duration := 0, ck_start_ticks := None, ck_skip_offset_ms := 0\<rparr>"

record pw_time =
  tm_ticks :: u64
  tm_num :: u32
  tm_denom :: u32
  tm_queued :: u64
  tm_delay :: int

definition elapsed_ms :: "u64 \<Rightarrow> u64 \<times> u32 \<times> u32 \<Rightarrow> u64" where
  "elapsed_ms ticks start_at =
     (case start_at of (start_tick, num, denom) \<Rightarrow>
        sat_mul (sat_mul (sat_sub ticks start_tick) 1000) (ucast (max num 1)) div
          ucast (max denom 1))"

text \<open>\<^verbatim>\<open>keep duration updated\<close>\<close>

definition clock_tick :: "pw_time \<Rightarrow> pw_clock \<Rightarrow> pw_clock" where
  "clock_tick t c =
     (if tm_denom t = 0 then c
      else let start_at = (case ck_start_ticks c of
                             None \<Rightarrow> (tm_ticks t, tm_num t, tm_denom t) | Some s \<Rightarrow> s)
           in c\<lparr>ck_start_ticks := Some start_at,
                ck_duration := sat_add (elapsed_ms (tm_ticks t) start_at) (ck_skip_offset_ms c)\<rparr>)"

section \<open>The process callback\<close>

definition PIPEWIRE_MIN_AUDIO_BUFFER :: nat where
  "PIPEWIRE_MIN_AUDIO_BUFFER = 8 * 1024"

datatype process_state = Running | Draining

record pw_process =
  pr_state :: process_state
  pr_buf :: bytes
  pr_decoder :: vibe_decoder
  pr_channels :: nat
  pr_rate :: u32

text \<open>The state the callback starts with: what was decoded in advance, and the decoder.\<close>

definition new_process :: "bytes \<Rightarrow> vibe_decoder \<Rightarrow> pw_process" where
  "new_process buf d =
     \<lparr>pr_state = Running, pr_buf = buf, pr_decoder = d, pr_channels = channels d,
      pr_rate = sample_rate d\<rparr>"

text \<open>What the callback does to its stream.\<close>

datatype stream_action = FlushDrain | Queue bytes | NoBuffer

text \<open>The decoding loop of the callback; \<open>capacity i\<close> is the capacity of the byte buffer at the
  \<open>i\<close>-th call of the decoder.\<close>

definition process_fill ::
    "(nat \<Rightarrow> nat) \<Rightarrow> f32 list mutex \<Rightarrow> duration \<Rightarrow> pw_process \<Rightarrow> u8 filled run" where
  "process_fill capacity volume skip p =
     skip_fill raw_samples 4 volume capacity None skip (pr_buf p)
       (pr_decoder p) [] False []"

definition driver_delay_bytes :: "pw_time \<Rightarrow> pw_process \<Rightarrow> u64" where
  "driver_delay_bytes t p =
     (if tm_denom t = 0 then 0
      else sat_mul (sat_mul (of_int (max (tm_delay t) 0)) (ucast (pr_rate p)))
             (of_nat (4 * pr_channels p)) div ucast (tm_denom t))"

definition process_status :: "nat \<Rightarrow> pw_time \<Rightarrow> pw_process \<Rightarrow> globals \<Rightarrow> globals" where
  "process_status capacity t p g =
     report_fullness capacity
       (sat_add (sat_add (of_nat (length (pr_buf p))) (tm_queued t)) (driver_delay_bytes t p)) g"

text \<open>Hand audio to the stream: at most as much as the dequeued buffer takes.\<close>

definition process_queue :: "nat option \<Rightarrow> pw_process \<Rightarrow> pw_process \<times> stream_action" where
  "process_queue room p =
     (if pr_buf p = [] then (p, FlushDrain)
      else case room of
          None \<Rightarrow> (p, NoBuffer)
        | Some space \<Rightarrow>
            (let len = min space (length (pr_buf p))
             in (p\<lparr>pr_buf := drop len (pr_buf p)\<rparr>, Queue (take len (pr_buf p)))))"

text \<open>The decoding step: the new state, the end of decoding, messages and the skipped time.\<close>

definition process_decode ::
    "(nat \<Rightarrow> nat) \<Rightarrow> globals \<Rightarrow> duration \<Rightarrow> pw_process \<Rightarrow> (pw_process \<times> bool \<times> player_msg list \<times> duration list) run" where
  "process_decode capacity g skip p =
     (if pr_state p = Draining then Done (p, True, [], [])
      else case process_fill capacity (VOLUME g) skip p of
          Waits \<Rightarrow> Waits
        | Panics \<Rightarrow> Panics
        | Done f \<Rightarrow>
            Done (p\<lparr>pr_state := (if fl_failed f then Draining else pr_state p),
                    pr_buf := fl_buffer f, pr_decoder := fl_decoder f\<rparr>,
                  fl_eod f, fl_msgs f, fl_skipped f))"

definition on_process ::
    "(nat \<Rightarrow> nat) \<Rightarrow> nat \<Rightarrow> nat option \<Rightarrow> pw_time option \<Rightarrow> globals \<Rightarrow> pw_clock \<Rightarrow> pw_process \<Rightarrow>
     (pw_process \<times> globals \<times> pw_clock \<times> player_msg list \<times> stream_action) run" where
  "on_process capacity capacity' room time g c p =
     (let (skip, g) = take_skip g
      in case process_decode capacity g skip p of
           Waits \<Rightarrow> Waits
         | Panics \<Rightarrow> Panics
         | Done (p, eod, msgs, skipped) \<Rightarrow>
             (let c = c\<lparr>ck_skip_offset_ms := ck_skip_offset_ms c +
                          (\<Sum>d \<leftarrow> skipped. of_nat (as_millis d))\<rparr>;
                  (p, action) = process_queue room p;
                  c = (case time of None \<Rightarrow> c | Some t \<Rightarrow> clock_tick t c);
                  g = (case time of None \<Rightarrow> g | Some t \<Rightarrow> process_status capacity' t p g);
                  ended = (eod \<and> pr_state p = Running)
              in Done ((if ended then p\<lparr>pr_state := Draining\<rparr> else p), g, c,
                       msgs @ (if ended then [EndOfDecode] else []), action)))"

text \<open>The other two callbacks.\<close>

datatype stream_state = StError | StUnconnected | StConnecting | StPaused | StStreaming

definition on_state_change ::
    "stream_state \<Rightarrow> stream_state \<Rightarrow> pw_clock \<Rightarrow> pw_clock \<times> player_msg list" where
  "on_state_change old new c =
     (if old = StConnecting \<and> (new = StPaused \<or> new = StStreaming) then (clock_reset c, [TrackStarted])
      else if old = StError \<or> new = StError then (c, [NotSupported])
      else (c, []))"

definition on_drained_callback :: "player_msg list" where
  "on_drained_callback = [Drained]"

section \<open>The output\<close>

text \<open>An object the registry announces.\<close>

record pw_global =
  gl_is_node :: bool
  gl_props :: "(string \<rightharpoonup> string) option"
  gl_id :: u32

text \<open>\<open>px_capacity size i\<close> is the capacity, at the \<open>i\<close>-th call of the decoder, of a buffer created for
  \<open>size\<close> bytes.\<close>

record 's pipewire_api =
  px_open :: "unit anyhow list"
  px_stream_new :: "nat \<Rightarrow> 's option"
  px_register :: "pw_process \<Rightarrow> 's \<Rightarrow> 's anyhow"
  px_connect :: "u32 option \<Rightarrow> u32 \<Rightarrow> u32 \<Rightarrow> 's \<Rightarrow> 's anyhow"
  px_set_active :: "bool \<Rightarrow> 's \<Rightarrow> 's \<times> bool"
  px_disconnect :: "'s \<Rightarrow> 's"
  px_registry :: "pw_global list anyhow"
  px_capacity :: "nat \<Rightarrow> nat \<Rightarrow> nat"

text \<open>The field \<open>pw_closed\<close> records the streams that were disconnected before they were dropped.\<close>

record 's pipewire_output =
  pw_nodes :: "(string \<rightharpoonup> u32) mutex"
  pw_clk :: pw_clock
  pw_next_up :: "'s option"
  pw_playing :: "'s option"
  pw_loop_stopped :: bool
  pw_closed :: "'s list"

text \<open>\<^verbatim>\<open>try_new\<close>: \<open>px_open\<close> has the results of creating the loop, the context, the connection and
  the registry.\<close>

definition pipewire_try_new :: "'s pipewire_api \<Rightarrow> 's pipewire_output anyhow" where
  "pipewire_try_new api =
     (case first_error (px_open api) of
        Some e \<Rightarrow> Inl e
      | None \<Rightarrow>
          Inr \<lparr>pw_nodes = Mutex False Map.empty,
               pw_clk = \<lparr>ck_duration = 0, ck_start_ticks = None, ck_skip_offset_ms = 0\<rparr>,
               pw_next_up = None, pw_playing = None, pw_loop_stopped = False, pw_closed = []\<rparr>)"

text \<open>The properties of an audio sink, and the registry callback that collects the node ids.\<close>

definition sink_props :: "pw_global \<Rightarrow> (string \<rightharpoonup> string) option" where
  "sink_props gl =
     (if gl_is_node gl then
        (case gl_props gl of
           Some props \<Rightarrow> if props ''media.class'' = Some ''Audio/Sink'' then Some props else None
         | None \<Rightarrow> None)
      else None)"

definition prop_or_default :: "(string \<rightharpoonup> string) \<Rightarrow> string \<Rightarrow> string" where
  "prop_or_default props key = (case props key of None \<Rightarrow> [] | Some v \<Rightarrow> v)"

definition on_global :: "pw_global \<Rightarrow> 's pipewire_output \<Rightarrow> 's pipewire_output" where
  "on_global gl out =
     (case sink_props gl of
        None \<Rightarrow> out
      | Some props \<Rightarrow>
          out\<lparr>pw_nodes := update_locked
                 (\<lambda>nodes. nodes(prop_or_default props ''node.name'' \<mapsto> gl_id gl)) (pw_nodes out)\<rparr>)"

definition pipewire_play :: "'s pipewire_api \<Rightarrow> 's pipewire_output \<Rightarrow> 's pipewire_output \<times> bool" where
  "pipewire_play api out =
     (case pw_playing out of
        Some stream \<Rightarrow>
          (let (stream, ok) = px_set_active api True stream
           in (out\<lparr>pw_playing := Some stream\<rparr>, ok))
      | None \<Rightarrow> (out, False))"

definition pipewire_enqueue ::
    "'s pipewire_api \<Rightarrow> 's \<Rightarrow> auto_start \<Rightarrow> 's pipewire_output \<Rightarrow> 's pipewire_output" where
  "pipewire_enqueue api stream auto out =
     (if pw_playing out \<noteq> None then out\<lparr>pw_next_up := Some stream\<rparr>
      else let out = out\<lparr>pw_playing := Some stream\<rparr>
           in if auto = Auto then fst (pipewire_play api out) else out)"

definition node_id :: "'s pipewire_output \<Rightarrow> string option \<Rightarrow> u32 option" where
  "node_id out device =
     (case lock (pw_nodes out) of
        Some nodes \<Rightarrow> Option.bind device nodes
      | None \<Rightarrow> None)"

definition pipewire_enqueue_new_stream ::
    "'s pipewire_api \<Rightarrow> vibe_decoder \<Rightarrow> stream_params \<Rightarrow> string option \<Rightarrow> globals \<Rightarrow>
     's pipewire_output \<Rightarrow> ('s pipewire_output \<times> player_msg list \<times> unit anyhow) run" where
  "pipewire_enqueue_new_stream api d sp device g out =
     (let buf_size = max (unat (dur_to_samples d (sp_output_threshold sp))) PIPEWIRE_MIN_AUDIO_BUFFER
      in case fill_retry raw_samples (VOLUME g) (\<lambda>i. fill_limit (px_capacity api buf_size i) None) [] d of
           None \<Rightarrow> Waits
         | Some (d, buf, Inl e) \<Rightarrow> Done (out, [NotSupported], Inr ())
         | Some (d, buf, Inr _) \<Rightarrow>
             (case px_stream_new api (channels d) of
                None \<Rightarrow> Done (out, [NotSupported], Inr ())
              | Some stream \<Rightarrow>
                  (case px_register api (new_process buf d) stream of
                     Inl e \<Rightarrow> Done (out, [], Inl e)
                   | Inr stream \<Rightarrow>
                       (case px_connect api (node_id out device) (sample_rate d) (of_nat (channels d)) stream of
                          Inl e \<Rightarrow> Done (out, [NotSupported], Inl e)
                        | Inr stream \<Rightarrow>
                            Done (pipewire_enqueue api stream (sp_autostart sp) out,
                                  [StreamEstablished], Inr ())))))"

definition pipewire_pause :: "'s pipewire_api \<Rightarrow> 's pipewire_output \<Rightarrow> 's pipewire_output \<times> bool" where
  "pipewire_pause api out =
     (case pw_playing out of
        Some stream \<Rightarrow>
          (let c = pw_clk out;
               (stream, ok) = px_set_active api False stream
           in (out\<lparr>pw_clk := c\<lparr>ck_skip_offset_ms := ck_duration c, ck_start_ticks := None\<rparr>,
                   pw_playing := Some stream\<rparr>, ok))
      | None \<Rightarrow> (out, False))"

definition close_stream :: "'s pipewire_api \<Rightarrow> 's \<Rightarrow> 's" where
  "close_stream api stream = px_disconnect api (fst (px_set_active api False stream))"

definition close_opt :: "'s pipewire_api \<Rightarrow> 's option \<Rightarrow> 's pipewire_output \<Rightarrow> 's pipewire_output" where
  "close_opt api stream out =
     (case stream of
        Some s \<Rightarrow> out\<lparr>pw_closed := pw_closed out @ [close_stream api s]\<rparr>
      | None \<Rightarrow> out)"

definition pipewire_shift :: "'s pipewire_api \<Rightarrow> 's pipewire_output \<Rightarrow> 's pipewire_output" where
  "pipewire_shift api out =
     (let out = close_opt api (pw_playing out) out
      in out\<lparr>pw_playing := pw_next_up out, pw_next_up := None, pw_clk := clock_reset (pw_clk out)\<rparr>)"

definition pipewire_stop :: "'s pipewire_api \<Rightarrow> 's pipewire_output \<Rightarrow> 's pipewire_output" where
  "pipewire_stop api out =
     (let out = close_opt api (pw_next_up out) (close_opt api (pw_playing out) out)
      in out\<lparr>pw_playing := None, pw_next_up := None, pw_clk := clock_reset (pw_clk out)\<rparr>)"

text \<open>The devices: what a new registry announces until it is silent for a while.  The loop is
  stopped afterwards.\<close>

definition pipewire_device_names ::
    "'s pipewire_api \<Rightarrow> 's pipewire_output \<Rightarrow> 's pipewire_output \<times> (string \<times> string option) list anyhow" where
  "pipewire_device_names api out =
     (case px_registry api of
        Inl e \<Rightarrow> (out, Inl e)
      | Inr globals \<Rightarrow>
          (out\<lparr>pw_loop_stopped := True\<rparr>,
           Inr (map (\<lambda>props. (prop_or_default props ''node.name'', props ''node.description''))
                 (List.map_filter sink_props globals))))"

text \<open>\<^verbatim>\<open>drop\<close>\<close>

definition pipewire_drop :: "'s pipewire_api \<Rightarrow> 's pipewire_output \<Rightarrow> 's pipewire_output" where
  "pipewire_drop api out = (pipewire_stop api out)\<lparr>pw_loop_stopped := True\<rparr>"

definition pipewire_get_dur :: "'s pipewire_output \<Rightarrow> duration" where
  "pipewire_get_dur out = from_millis (ck_duration (pw_clk out))"

definition pipewire_ops :: "'s pipewire_api \<Rightarrow> 's pipewire_output audio_output" where
  "pipewire_ops api =
     \<lparr>ao_enqueue_new_stream = pipewire_enqueue_new_stream api,
      ao_unpause = pipewire_play api,
      ao_pause = pipewire_pause api,
      ao_stop = pipewire_stop api,
      ao_flush = pipewire_stop api,
      ao_shift = pipewire_shift api,
      ao_get_dur = pipewire_get_dur,
      ao_get_output_device_names = (\<lambda>out. Done (pipewire_device_names api out))\<rparr>"

definition pipewire_playing :: "'s pipewire_output \<Rightarrow> bool" where
  "pipewire_playing out \<longleftrightarrow> pw_playing out \<noteq> None"

lemmas pipewire_defs = pipewire_ops_def pipewire_playing_def pipewire_play_def
  pipewire_enqueue_def pipewire_enqueue_new_stream_def pipewire_pause_def pipewire_shift_def
  pipewire_stop_def pipewire_get_dur_def pipewire_device_names_def close_opt_def clock_reset_def
  Let_def

lemma pipewire_drop_closes:
  "pw_closed (pipewire_drop api out) =
    pw_closed out @ map (close_stream api) (case pw_playing out of None \<Rightarrow> [] | Some s \<Rightarrow> [s]) @
      map (close_stream api) (case pw_next_up out of None \<Rightarrow> [] | Some s \<Rightarrow> [s])"
  by (simp add: pipewire_drop_def pipewire_defs split: option.split)

lemma from_millis_zero: "from_millis 0 = duration_zero"
  by (simp add: from_millis_def duration_zero_def)

interpretation pipewire: audio_contract "pipewire_ops api" pipewire_playing
  for api :: "'s pipewire_api"
  by unfold_locales
    (auto simp: pipewire_defs from_millis_zero split: option.splits sum.splits prod.splits if_splits)

section \<open>The life of a process callback\<close>

lemma on_process_messages:
  assumes "on_process capacity capacity' room time g c p = Done (p', g', c', msgs, action)"
  shows "(pr_state p = Draining \<longrightarrow> pr_state p' = Draining \<and> msgs = []) \<and>
    (EndOfDecode \<in> set msgs \<longrightarrow> pr_state p = Running \<and> pr_state p' = Draining) \<and>
    (pr_state p = Running \<and> pr_state p' = Draining \<longrightarrow> EndOfDecode \<in> set msgs \<or> NotSupported \<in> set msgs) \<and>
    set msgs \<subseteq> {EndOfDecode, NotSupported}"
proof (cases "pr_state p = Draining")
  case True
  then show ?thesis using assms
    by (auto simp: on_process_def take_skip_def process_decode_def process_queue_def Let_def
        split: if_splits option.splits prod.splits)
next
  case False
  then have run: "pr_state p = Running" by (cases "pr_state p") auto
  obtain f where f: "process_fill capacity (VOLUME g) (SKIP g) p = Done f"
    using assms run
    by (auto simp: on_process_def take_skip_def process_decode_def Let_def split: run.splits)
  have k: "set (fl_msgs f) = (if fl_failed f then {NotSupported} else {})"
    using skip_fill_result [OF f [unfolded process_fill_def]] by auto
  let ?p = "p\<lparr>pr_state := (if fl_failed f then Draining else pr_state p), pr_buf := fl_buffer f,
    pr_decoder := fl_decoder f\<rparr>"
  obtain p1 a1 where q: "process_queue room ?p = (p1, a1)" by fastforce
  then have st: "pr_state p1 = (if fl_failed f then Draining else Running)"
    using run by (auto simp: process_queue_def Let_def split: option.splits if_splits)
  have "p' = (if fl_eod f \<and> pr_state p1 = Running then p1\<lparr>pr_state := Draining\<rparr> else p1)"
    "msgs = fl_msgs f @ (if fl_eod f \<and> pr_state p1 = Running then [EndOfDecode] else [])"
    using assms run f q by (simp_all add: on_process_def take_skip_def process_decode_def Let_def)
  then show ?thesis using k st run by simp
qed

text \<open>A pause does not count as playing time: the first callback after it reports the time of
  the pause, whatever the graph clock did meanwhile.\<close>

lemma clock_after_pause:
  assumes "tm_denom t \<noteq> 0"
  shows "ck_duration (clock_tick t (c\<lparr>ck_skip_offset_ms := ck_duration c, ck_start_ticks := None\<rparr>)) =
    ck_duration c"
  using assms by (simp add: clock_tick_def elapsed_ms_def)

section \<open>A sample library\<close>

text \<open>A library that connects but cannot create streams.\<close>

definition sample_pipewire_api :: "unit pipewire_api" where
  "sample_pipewire_api =
     \<lparr>px_open = [Inr (), Inr (), Inr (), Inr ()], px_stream_new = \<lambda>_. None,
      px_register = \<lambda>_ s. Inr s, px_connect = \<lambda>_ _ _ s. Inr s, px_set_active = \<lambda>_ s. (s, True),
      px_disconnect = \<lambda>s. s, px_registry = Inr [], px_capacity = \<lambda>size _. size\<rparr>"

end
