(* ===== verification/Rodio_Out.thy ===== *)
theory Rodio_Out
  imports Audio_Out
begin

text \<open>
  \<^verbatim>\<open>vibe/src/rodio_out.rs\<close>: the source that feeds decoded samples to the rodio mixer, and the
  output built on rodio's player.  The functions of rodio and cpal are the fields of
  \<open>rodio_api\<close>; the capacity of the sample queue, which the allocator chooses, is an argument.
\<close>

section \<open>The sample source\<close>

definition RODIO_MIN_AUDIO_BUFFER :: nat where
  "RODIO_MIN_AUDIO_BUFFER = 4 * 1024"

record decoder_source =
  ds_decoder :: vibe_decoder
  ds_frame :: "f32 list"
  ds_start_flag :: bool
  ds_eod_flag :: bool

definition source_new :: "vibe_decoder \<Rightarrow> decoder_source" where
  "source_new d = \<lparr>ds_decoder = d, ds_frame = [], ds_start_flag = True, ds_eod_flag = False\<rparr>"

definition current_span_len :: "decoder_source \<Rightarrow> nat option" where
  "current_span_len s = (if ds_frame s = [] then None else Some (length (ds_frame s)))"

definition source_channels :: "decoder_source \<Rightarrow> u16" where
  "source_channels s =
     (let c = of_nat (channels (ds_decoder s)) in if c = 0 then 2 else c)"

definition source_sample_rate :: "decoder_source \<Rightarrow> u32" where
  "source_sample_rate s =
     (let r = sample_rate (ds_decoder s) in if r = 0 then 44100 else r)"

text \<open>The decoding loop of \<^verbatim>\<open>next\<close>.\<close>

definition source_fill :: "f32 list mutex \<Rightarrow> duration \<Rightarrow> vibe_decoder \<Rightarrow> f32 filled run" where
  "source_fill volume skip d =
     skip_fill (\<lambda>xs. xs) 1 volume (\<lambda>_. 0) (Some (2 * RODIO_MIN_AUDIO_BUFFER)) skip [] d [] False []"

text \<open>\<^verbatim>\<open>self.frame.pop_front().or_else(..)\<close>\<close>

definition source_pop ::
    "decoder_source \<Rightarrow> globals \<Rightarrow> player_msg list \<Rightarrow>
     decoder_source \<times> globals \<times> f32 option \<times> player_msg list" where
  "source_pop s g msgs =
     (case ds_frame s of
        [] \<Rightarrow> (s, g, None, msgs @ [Drained])
      | x # xs \<Rightarrow> (s\<lparr>ds_frame := xs\<rparr>, g, Some x, msgs))"

definition source_next ::
    "nat \<Rightarrow> globals \<Rightarrow> decoder_source \<Rightarrow>
     (decoder_source \<times> globals \<times> f32 option \<times> player_msg list) run" where
  "source_next capacity g s =
     (let started = (if ds_start_flag s then [TrackStarted] else []);
          s = s\<lparr>ds_start_flag := False\<rparr>
      in if length (ds_frame s) < RODIO_MIN_AUDIO_BUFFER \<and> \<not> ds_eod_flag s then
           (let (skip, g) = take_skip g
            in case source_fill (VOLUME g) skip (ds_decoder s) of
                 Waits \<Rightarrow> Waits
               | Panics \<Rightarrow> Panics
               | Done f \<Rightarrow>
                   (let s = s\<lparr>ds_decoder := fl_decoder f, ds_frame := ds_frame s @ fl_buffer f,
                              ds_eod_flag := fl_eod f\<rparr>;
                        g = g\<lparr>STATUS := update_locked
                               (\<lambda>st. set_output_buffer_fullness (of_nat (length (ds_frame s) * 4))
                                       (set_output_buffer_size (of_nat (capacity * 4)) st))
                               (STATUS g)\<rparr>
                    in Done (source_pop s g
                         (started @ fl_msgs f @ (if ds_eod_flag s then [EndOfDecode] else [])))))
         else Done (source_pop s g started))"

section \<open>The output\<close>

record ('dev, 'sink) rodio_api =
  ra_devices :: "'dev list anyhow"
  ra_supports_output :: "'dev \<Rightarrow> bool"
  ra_description :: "'dev \<Rightarrow> (string \<times> string option) option"
  ra_default_device :: "'dev option"
  ra_open :: "'dev \<Rightarrow> 'sink anyhow"
  ra_append :: "decoder_source \<Rightarrow> 'sink \<Rightarrow> 'sink"
  ra_play :: "'sink \<Rightarrow> 'sink"
  ra_pause :: "'sink \<Rightarrow> 'sink"
  ra_stop :: "'sink \<Rightarrow> 'sink"
  ra_get_pos :: "'sink \<Rightarrow> duration"

record ('dev, 'sink) rodio_output =
  ro_device :: 'dev
  ro_playing :: "'sink option"

definition find_device :: "('dev, 'sink) rodio_api \<Rightarrow> string \<Rightarrow> 'dev option" where
  "find_device api dev =
     (case ra_devices api of
        Inl _ \<Rightarrow> None
      | Inr devices \<Rightarrow>
          find (\<lambda>d. case ra_description api d of Some (n, _) \<Rightarrow> n = dev | None \<Rightarrow> False) devices)"

definition rodio_try_new ::
    "('dev, 'sink) rodio_api \<Rightarrow> string option \<Rightarrow> ('dev, 'sink) rodio_output anyhow" where
  "rodio_try_new api device_name =
     (case device_name of
        Some dev \<Rightarrow>
          (case find_device api dev of
             Some d \<Rightarrow> Inr \<lparr>ro_device = d, ro_playing = None\<rparr>
           | None \<Rightarrow> Inl (''Cannot find device: '' @ dev))
      | None \<Rightarrow>
          (case ra_default_device api of
             Some d \<Rightarrow> Inr \<lparr>ro_device = d, ro_playing = None\<rparr>
           | None \<Rightarrow> Inl ''No default device''))"

definition rodio_enqueue ::
    "('dev, 'sink) rodio_api \<Rightarrow> vibe_decoder \<Rightarrow> stream_params \<Rightarrow> ('dev, 'sink) rodio_output \<Rightarrow>
     ('dev, 'sink) rodio_output \<times> player_msg list \<times> unit anyhow" where
  "rodio_enqueue api d sp out =
     (let auto = (sp_autostart sp = Auto);
          src = source_new d
      in case ro_playing out of
           Some sink \<Rightarrow>
             (out\<lparr>ro_playing := Some (ra_append api src sink)\<rparr>, [StreamEstablished], Inr ())
         | None \<Rightarrow>
             (case ra_open api (ro_device out) of
                Inl e \<Rightarrow> (out, [StreamEstablished], Inl e)
              | Inr sink \<Rightarrow>
                  (let sink = ra_append api src sink;
                       sink = (if auto then sink else ra_pause api sink)
                   in (out\<lparr>ro_playing := Some sink\<rparr>, [StreamEstablished], Inr ()))))"

text \<open>\<^verbatim>\<open>unpause\<close> and \<^verbatim>\<open>pause\<close> act on the player if there is one.\<close>

definition rodio_with_sink ::
    "('sink \<Rightarrow> 'sink) \<Rightarrow> ('dev, 'sink) rodio_output \<Rightarrow> ('dev, 'sink) rodio_output \<times> bool" where
  "rodio_with_sink f out =
     (case ro_playing out of
        Some sink \<Rightarrow> (out\<lparr>ro_playing := Some (f sink)\<rparr>, True)
      | None \<Rightarrow> (out, False))"

definition rodio_flush :: "('dev, 'sink) rodio_output \<Rightarrow> ('dev, 'sink) rodio_output" where
  "rodio_flush out = out\<lparr>ro_playing := None\<rparr>"

definition rodio_stop ::
    "('dev, 'sink) rodio_api \<Rightarrow> ('dev, 'sink) rodio_output \<Rightarrow> ('dev, 'sink) rodio_output" where
  "rodio_stop api out = rodio_flush (fst (rodio_with_sink (ra_stop api) out))"

definition rodio_get_dur :: "('dev, 'sink) rodio_api \<Rightarrow> ('dev, 'sink) rodio_output \<Rightarrow> duration" where
  "rodio_get_dur api out =
     (case ro_playing out of Some sink \<Rightarrow> ra_get_pos api sink | None \<Rightarrow> duration_zero)"

definition rodio_device_names ::
    "('dev, 'sink) rodio_api \<Rightarrow> (string \<times> string option) list anyhow" where
  "rodio_device_names api =
     (case ra_devices api of
        Inl e \<Rightarrow> Inl e
      | Inr devices \<Rightarrow>
          Inr (List.map_filter (ra_description api) (filter (ra_supports_output api) devices)))"

definition rodio_ops :: "('dev, 'sink) rodio_api \<Rightarrow> ('dev, 'sink) rodio_output audio_output" where
  "rodio_ops api =
     \<lparr>ao_enqueue_new_stream = (\<lambda>d sp dev g out. Done (rodio_enqueue api d sp out)),
      ao_unpause = rodio_with_sink (ra_play api),
      ao_pause = rodio_with_sink (ra_pause api),
      ao_stop = rodio_stop api,
      ao_flush = rodio_flush,
      ao_shift = (\<lambda>out. out),
      ao_get_dur = rodio_get_dur api,
      ao_get_output_device_names = (\<lambda>out. Done (out, rodio_device_names api))\<rparr>"

definition rodio_playing :: "('dev, 'sink) rodio_output \<Rightarrow> bool" where
  "rodio_playing out \<longleftrightarrow> ro_playing out \<noteq> None"

lemmas rodio_defs = rodio_ops_def rodio_playing_def rodio_with_sink_def rodio_flush_def
  rodio_stop_def rodio_get_dur_def rodio_enqueue_def

interpretation rodio: audio_contract "rodio_ops api" rodio_playing
  for api :: "('dev, 'sink) rodio_api"
  by unfold_locales (auto simp: rodio_defs Let_def split: option.splits sum.splits)

section \<open>The life of a source\<close>

text \<open>Each flag moves once, and each message marks a move.\<close>

lemma source_next_flags:
  assumes "source_next capacity g s = Done (s', g', sample, msgs)"
  shows "\<not> ds_start_flag s'" "ds_eod_flag s \<Longrightarrow> ds_eod_flag s'"
    "TrackStarted \<in> set msgs \<longleftrightarrow> ds_start_flag s"
    "EndOfDecode \<in> set msgs \<longleftrightarrow> ds_eod_flag s' \<and> \<not> ds_eod_flag s"
    "Drained \<in> set msgs \<longleftrightarrow> sample = None"
    "sample = None \<Longrightarrow> ds_eod_flag s' \<and> ds_frame s' = []"
proof -
  let ?s = "s\<lparr>ds_start_flag := False\<rparr>" and ?m = "if ds_start_flag s then [TrackStarted] else []"
  have "\<not> ds_start_flag s' \<and> (ds_eod_flag s \<longrightarrow> ds_eod_flag s') \<and>
    (TrackStarted \<in> set msgs \<longleftrightarrow> ds_start_flag s) \<and>
    (EndOfDecode \<in> set msgs \<longleftrightarrow> ds_eod_flag s' \<and> \<not> ds_eod_flag s) \<and>
    (Drained \<in> set msgs \<longleftrightarrow> sample = None) \<and> (sample = None \<longrightarrow> ds_eod_flag s' \<and> ds_frame s' = [])"
  proof (cases "length (ds_frame s) < RODIO_MIN_AUDIO_BUFFER \<and> \<not> ds_eod_flag s")
    case False
    then have "source_pop ?s g ?m = (s', g', sample, msgs)"
      using assms by (auto simp: source_next_def Let_def split: if_splits)
    then show ?thesis using False
      by (auto simp: source_pop_def RODIO_MIN_AUDIO_BUFFER_def split: list.splits)
  next
    case True
    then obtain f where f: "source_fill (VOLUME g) (SKIP g) (ds_decoder s) = Done f"
      using assms by (auto simp: source_next_def take_skip_def Let_def split: run.splits)
    from skip_fill_result [OF f [unfolded source_fill_def]]
    have "set (fl_msgs f) \<subseteq> {NotSupported}" "fl_eod f \<or> fl_buffer f \<noteq> []"
      by (auto simp: RODIO_MIN_AUDIO_BUFFER_def)
    then show ?thesis using assms True f
      by (auto simp: source_next_def take_skip_def source_pop_def Let_def split: list.splits)
  qed
  then show "\<not> ds_start_flag s'" "ds_eod_flag s \<Longrightarrow> ds_eod_flag s'"
    "TrackStarted \<in> set msgs \<longleftrightarrow> ds_start_flag s"
    "EndOfDecode \<in> set msgs \<longleftrightarrow> ds_eod_flag s' \<and> \<not> ds_eod_flag s"
    "Drained \<in> set msgs \<longleftrightarrow> sample = None"
    "sample = None \<Longrightarrow> ds_eod_flag s' \<and> ds_frame s' = []" by blast+
qed

end
