(* ===== verification/Player.thy ===== *)
theory Player
  imports Pulse_Out Pipewire_Out Rodio_Out Client_Messages
begin

text \<open>
  \<^verbatim>\<open>vibe/src/message.rs\<close>: \<^verbatim>\<open>PlayerContext\<close> and its handlers, and the event loop of
  \<^verbatim>\<open>vibe/src/main.rs\<close> that calls them.  The shared globals are part of the context's state.  A
  handler returns the new state and its effects in order: messages to the server, messages to
  the event loop, and threads it starts.  Timer threads and the connecting thread are functions
  of their own.  The clock value of a step is the argument \<open>now\<close>.  A build without the feature
  \<^verbatim>\<open>notify\<close> behaves as one that is told to be quiet.
\<close>

section \<open>State and effects\<close>

record 'o player =
  p_output :: "'o option"
  p_server_default_ip :: ipv4
  p_name :: "string mutex"
  p_start_time :: instant
  p_output_system :: string
  p_device :: "string option"
  p_quiet :: bool
  p_globals :: globals

datatype effect =
    SlimSend client_message
  | StreamSend player_msg
  | PauseTimer duration
  | ResumeTimer duration duration
  | StreamConnect ipv4 stream_cmd string
  | NotifyTags "standard_tag option list"

type_synonym 'o handler = "'o player \<Rightarrow> 'o player \<times> effect list"

definition update_status :: "(status_data \<Rightarrow> status_data) \<Rightarrow> 'o player \<Rightarrow> 'o player" where
  "update_status f p =
     p\<lparr>p_globals := (p_globals p)\<lparr>STATUS := update_locked f (STATUS (p_globals p))\<rparr>\<rparr>"

text \<open>Lock the status block, change it, and send a status message from it.\<close>

definition status_message ::
    "instant \<Rightarrow> (status_data \<Rightarrow> status_data) \<Rightarrow> status_code \<Rightarrow> 'o handler" where
  "status_message now f code p =
     (case lock (STATUS (p_globals p)) of
        None \<Rightarrow> (p, [])
      | Some st \<Rightarrow>
          (let (msg, st') = make_status_message now code (f st)
           in (update_status (\<lambda>_. st') p, [SlimSend msg])))"

definition send_status :: "instant \<Rightarrow> status_code \<Rightarrow> 'o handler" where
  "send_status now code p = status_message now (\<lambda>st. st) code p"

definition set_elapsed :: "duration \<Rightarrow> status_data \<Rightarrow> status_data" where
  "set_elapsed play_time st =
     set_elapsed_seconds (secs_as_u32 play_time)
       (set_elapsed_milli_seconds (millis_as_u32 play_time) st)"

definition update_elapsed_and_send :: "instant \<Rightarrow> duration \<Rightarrow> status_code \<Rightarrow> 'o handler" where
  "update_elapsed_and_send now play_time code p = status_message now (set_elapsed play_time) code p"

definition current_play_time :: "'o audio_output \<Rightarrow> 'o player \<Rightarrow> duration" where
  "current_play_time ops p =
     (case p_output p of None \<Rightarrow> duration_zero | Some out \<Rightarrow> ao_get_dur ops out)"

section \<open>Server messages\<close>

definition on_serv :: "ipv4 \<Rightarrow> 'o handler" where
  "on_serv ip p = (p\<lparr>p_server_default_ip := ip\<rparr>, [])"

definition on_query_name :: "'o handler" where
  "on_query_name p =
     (case lock (p_name p) of None \<Rightarrow> (p, []) | Some name \<Rightarrow> (p, [SlimSend (Name name)]))"

definition on_set_name :: "string \<Rightarrow> 'o handler" where
  "on_set_name new_name p = (p\<lparr>p_name := update_locked (\<lambda>_. new_name) (p_name p)\<rparr>, [])"

text \<open>\<^verbatim>\<open>(gain.min(1.0) as f32).sqrt()\<close>\<close>

definition gain_volume :: "rat \<Rightarrow> f32" where
  "gain_volume gain = f32_sqrt (f32_of_f64 (min gain 1))"

definition on_gain :: "rat \<Rightarrow> rat \<Rightarrow> 'o handler" where
  "on_gain left right p =
     (p\<lparr>p_globals := (p_globals p)\<lparr>VOLUME :=
          update_locked (\<lambda>vol. vol[0 := gain_volume left, 1 := gain_volume right])
            (VOLUME (p_globals p))\<rparr>\<rparr>, [])"

definition on_status :: "'o audio_output \<Rightarrow> instant \<Rightarrow> duration \<Rightarrow> 'o handler" where
  "on_status ops now ts p =
     (let play_time = current_play_time ops p
      in status_message now (\<lambda>st. set_timestamp ts (set_elapsed play_time st)) Timer p)"

text \<open>The fields \<^verbatim>\<open>on_stop\<close> and \<^verbatim>\<open>on_flush\<close> clear.\<close>

definition clear_playback :: "status_data \<Rightarrow> status_data" where
  "clear_playback st =
     set_output_buffer_fullness 0 (set_output_buffer_size 0
       (set_elapsed_seconds 0 (set_elapsed_milli_seconds 0 st)))"

definition on_stop :: "'o audio_output \<Rightarrow> instant \<Rightarrow> 'o handler" where
  "on_stop ops now p =
     status_message now clear_playback Flushed
       (p\<lparr>p_output := map_option (ao_stop ops) (p_output p)\<rparr>)"

definition on_flush :: "'o audio_output \<Rightarrow> instant \<Rightarrow> 'o handler" where
  "on_flush ops now p =
     status_message now clear_playback Flushed
       (p\<lparr>p_output := map_option (ao_flush ops) (p_output p)\<rparr>)"

definition on_pause :: "'o audio_output \<Rightarrow> instant \<Rightarrow> duration \<Rightarrow> 'o handler" where
  "on_pause ops now interval p =
     (let play_time = current_play_time ops p
      in case p_output p of
           None \<Rightarrow> (p, [])
         | Some out \<Rightarrow>
             (let (out, ok) = ao_pause ops out; p = p\<lparr>p_output := Some out\<rparr>
              in if duration_is_zero interval then
                   (if ok then update_elapsed_and_send now play_time status_code.Pause p else (p, []))
                 else if ok then (p, [PauseTimer interval]) else (p, [])))"

definition on_unpause :: "'o audio_output \<Rightarrow> instant \<Rightarrow> duration \<Rightarrow> 'o handler" where
  "on_unpause ops now interval p =
     (let play_time = current_play_time ops p
      in if duration_is_zero interval then
           (case p_output p of
              None \<Rightarrow> (p, [])
            | Some out \<Rightarrow>
                (let (out, ok) = ao_unpause ops out; p = p\<lparr>p_output := Some out\<rparr>
                 in if ok then update_elapsed_and_send now play_time Resume p else (p, [])))
         else
           (p, [ResumeTimer (duration_saturating_sub interval (Duration (now - p_start_time p)))
                  play_time]))"

definition on_skip :: "duration \<Rightarrow> 'o handler" where
  "on_skip interval p = (p\<lparr>p_globals := (p_globals p)\<lparr>SKIP := interval\<rparr>\<rparr>, [])"

text \<open>\<^verbatim>\<open>matches("\r\n").count()\<close>\<close>

fun count_crlf :: "string \<Rightarrow> nat" where
  "count_crlf (a # b # s) =
     (if byte_of a = 13 \<and> byte_of b = 10 then Suc (count_crlf s) else count_crlf (b # s))"
| "count_crlf _ = 0"

definition on_stream :: "stream_cmd \<Rightarrow> 'o handler" where
  "on_stream cmd p =
     (case http_headers cmd of
        None \<Rightarrow> (p, [])
      | Some headers \<Rightarrow>
          (let num_crlf = count_crlf headers
           in if num_crlf = 0 then (p, [])
              else (update_status (add_crlf (of_nat num_crlf)) p,
                    [StreamConnect (p_server_default_ip p) cmd headers])))"

text \<open>\<^verbatim>\<open>make_out\<close> is \<^verbatim>\<open>make_audio_output\<close> for this build and host; it may wait or panic.\<close>

definition on_enable ::
    "(string \<Rightarrow> string option \<Rightarrow> 'o anyhow run) \<Rightarrow> bool \<Rightarrow> bool \<Rightarrow> 'o player \<Rightarrow>
     ('o player \<times> effect list) run" where
  "on_enable make_out spdf dac p =
     (if spdf \<and> dac then
        (case make_out (p_output_system p) (p_device p) of
           Waits \<Rightarrow> Waits
         | Panics \<Rightarrow> Panics
         | Done (Inl _) \<Rightarrow> Done (p\<lparr>p_output := None\<rparr>, [])
         | Done (Inr out) \<Rightarrow> Done (p\<lparr>p_output := Some out\<rparr>, []))
      else Done (p\<lparr>p_output := None\<rparr>, []))"

definition on_disable_dac :: "'o handler" where
  "on_disable_dac p = (p\<lparr>p_output := None\<rparr>, [])"

definition handle_server_message ::
    "'o audio_output \<Rightarrow> (string \<Rightarrow> string option \<Rightarrow> 'o anyhow run) \<Rightarrow> instant \<Rightarrow> server_message \<Rightarrow>
     'o player \<Rightarrow> ('o player \<times> effect list) run" where
  "handle_server_message ops make_out now msg p =
     (case msg of
        Serv ip _ \<Rightarrow> Done (on_serv ip p)
      | Queryname \<Rightarrow> Done (on_query_name p)
      | Setname new_name \<Rightarrow> Done (on_set_name new_name p)
      | Gain left right \<Rightarrow> Done (on_gain left right p)
      | Status ts \<Rightarrow> Done (on_status ops now ts p)
      | Stop \<Rightarrow> Done (on_stop ops now p)
      | Flush \<Rightarrow> Done (on_flush ops now p)
      | server_message.Pause interval \<Rightarrow> Done (on_pause ops now interval p)
      | server_message.Unpause interval \<Rightarrow> Done (on_unpause ops now interval p)
      | Skip interval \<Rightarrow> Done (on_skip interval p)
      | Stream cmd \<Rightarrow> Done (on_stream cmd p)
      | Enable spdf dac \<Rightarrow> on_enable make_out spdf dac p
      | DisableDac \<Rightarrow> Done (on_disable_dac p)
      | Unrecognised _ \<Rightarrow> Done (p, [])
      | Error \<Rightarrow> Done (p, []))"

section \<open>Player messages\<close>

definition on_end_of_decode :: "instant \<Rightarrow> 'o handler" where
  "on_end_of_decode now p = send_status now DecoderReady p"

definition on_drained :: "'o audio_output \<Rightarrow> 'o handler" where
  "on_drained ops p =
     (case p_output p of
        None \<Rightarrow> (p, [])
      | Some out \<Rightarrow>
          (update_status (\<lambda>st. set_elapsed_seconds 0 (set_elapsed_milli_seconds 0 st))
             (p\<lparr>p_output := Some (fst (ao_unpause ops (ao_shift ops out)))\<rparr>), []))"

definition on_player_pause :: "'o audio_output \<Rightarrow> 'o handler" where
  "on_player_pause ops p =
     (p\<lparr>p_output := map_option (\<lambda>out. fst (ao_pause ops out)) (p_output p)\<rparr>, [])"

definition on_player_unpause :: "'o audio_output \<Rightarrow> instant \<Rightarrow> 'o handler" where
  "on_player_unpause ops now p =
     (case p_output p of
        None \<Rightarrow> (p, [])
      | Some out \<Rightarrow>
          (let (out, ok) = ao_unpause ops out; p = p\<lparr>p_output := Some out\<rparr>
           in if ok then send_status now status_code.TrackStarted p else (p, [])))"

definition on_connected :: "instant \<Rightarrow> 'o handler" where
  "on_connected now p = send_status now Connect p"

definition on_buffer_threshold :: "instant \<Rightarrow> 'o handler" where
  "on_buffer_threshold now p = send_status now status_code.BufferThreshold p"

definition on_not_supported :: "instant \<Rightarrow> 'o handler" where
  "on_not_supported now p = send_status now status_code.NotSupported p"

definition on_stream_established :: "instant \<Rightarrow> 'o handler" where
  "on_stream_established now p = send_status now status_code.StreamEstablished p"

definition on_track_started :: "instant \<Rightarrow> 'o handler" where
  "on_track_started now p =
     status_message now (\<lambda>st. set_elapsed_seconds 0 (set_elapsed_milli_seconds 0 st))
       status_code.TrackStarted p"

definition on_decoder ::
    "'o audio_output \<Rightarrow> vibe_decoder \<Rightarrow> stream_params \<Rightarrow> 'o player \<Rightarrow> ('o player \<times> effect list) run" where
  "on_decoder ops d sp p =
     (let notes = (case metadata d of
                     Some tags \<Rightarrow> if \<not> p_quiet p then [NotifyTags tags] else []
                   | None \<Rightarrow> [])
      in case p_output p of
           None \<Rightarrow> Done (p, notes)
         | Some out \<Rightarrow>
             map_run (\<lambda>(out, msgs, _). (p\<lparr>p_output := Some out\<rparr>, notes @ map StreamSend msgs))
               (ao_enqueue_new_stream ops d sp (p_device p) (p_globals p) out))"

definition handle_player_message ::
    "'o audio_output \<Rightarrow> instant \<Rightarrow> player_msg \<Rightarrow> 'o player \<Rightarrow> ('o player \<times> effect list) run" where
  "handle_player_message ops now msg p =
     (case msg of
        EndOfDecode \<Rightarrow> Done (on_end_of_decode now p)
      | player_msg.Drained \<Rightarrow> Done (on_drained ops p)
      | player_msg.Pause \<Rightarrow> Done (on_player_pause ops p)
      | player_msg.Unpause \<Rightarrow> Done (on_player_unpause ops now p)
      | Connected \<Rightarrow> Done (on_connected now p)
      | player_msg.BufferThreshold \<Rightarrow> Done (on_buffer_threshold now p)
      | player_msg.NotSupported \<Rightarrow> Done (on_not_supported now p)
      | player_msg.StreamEstablished \<Rightarrow> Done (on_stream_established now p)
      | player_msg.TrackStarted \<Rightarrow> Done (on_track_started now p)
      | Decoder d sp \<Rightarrow> on_decoder ops d sp p)"

section \<open>Threads the handlers start\<close>

text \<open>The pause timer posts one message; the resume timer posts it and reports.\<close>

definition pause_timer :: "'o handler" where
  "pause_timer p = (p, [StreamSend player_msg.Unpause])"

definition resume_timer :: "instant \<Rightarrow> duration \<Rightarrow> 'o handler" where
  "resume_timer now play_time p =
     apsnd (\<lambda>effs. StreamSend player_msg.Unpause # effs)
       (status_message now (set_elapsed play_time) Resume p)"

text \<open>The connecting thread: what it posts to the event loop.\<close>

definition stream_connect ::
    "symphonia \<Rightarrow> tcp_script \<Rightarrow> bytes \<Rightarrow> io_error option \<Rightarrow> status_data \<Rightarrow> ipv4 \<Rightarrow> stream_cmd \<Rightarrow>
     string \<Rightarrow> player_msg list" where
  "stream_connect sy net mss fin st default_ip cmd headers =
     (let opened = make_decoder sy net mss fin st default_ip cmd headers
      in op_msgs opened @
         [case op_result opened of
            Inr (d, sp) \<Rightarrow> Decoder d sp
          | Inl _ \<Rightarrow> player_msg.NotSupported])"

section \<open>The event loop\<close>

text \<open>What \<^verbatim>\<open>select_timeout\<close> can yield: a message or the loss of the connection from the protocol
  thread, the end of that thread without notice, a player message, or nothing in time.\<close>

datatype event =
    SlimMsg server_message | SlimLost | SlimClosed | StreamMsg player_msg | Timeout

datatype 'o outcome = Continue "'o player" | Reconnect "'o player" | Exit

definition select_timeout :: "'o player \<Rightarrow> duration" where
  "select_timeout p = (if p_output p = None then from_secs 5 else from_secs 1)"

definition event_step ::
    "'o audio_output \<Rightarrow> (string \<Rightarrow> string option \<Rightarrow> 'o anyhow run) \<Rightarrow> instant \<Rightarrow> event \<Rightarrow>
     'o player \<Rightarrow> ('o outcome \<times> effect list) run" where
  "event_step ops make_out now ev p =
     (case ev of
        SlimMsg msg \<Rightarrow> map_run (apfst Continue) (handle_server_message ops make_out now msg p)
      | SlimLost \<Rightarrow>
          Done (Reconnect (p\<lparr>p_output := map_option (ao_stop ops) (p_output p)\<rparr>), [SlimSend (Bye 1)])
      | SlimClosed \<Rightarrow> Done (Exit, [])
      | StreamMsg msg \<Rightarrow> map_run (apfst Continue) (handle_player_message ops now msg p)
      | Timeout \<Rightarrow>
          Done (apfst Continue
            (status_message now (set_elapsed (current_play_time ops p)) Timer p)))"

section \<open>What the server is told\<close>

text \<open>The status messages among the effects: their event codes and the block they carry.\<close>

fun stats :: "effect list \<Rightarrow> (string \<times> status_data) list" where
  "stats (SlimSend (Stat code st) # effs) = (code, st) # stats effs"
| "stats (_ # effs) = stats effs"
| "stats [] = []"

lemma status_message_open:
  assumes "STATUS (p_globals p) = Mutex False st"
  shows "status_message now f code p =
    (let st' = (f st)\<lparr>jiffies := Duration (now - start (f st))\<rparr>
     in (update_status (\<lambda>_. st') p, [SlimSend (Stat (show_status_code code) st')]))"
  using assms by (simp add: status_message_def make_status_message_def set_jiffies_def Let_def)

lemma update_status_parts [simp]:
  "p_output (update_status f p) = p_output p" "p_name (update_status f p) = p_name p"
  "p_device (update_status f p) = p_device p" "p_start_time (update_status f p) = p_start_time p"
  "p_server_default_ip (update_status f p) = p_server_default_ip p"
  "VOLUME (p_globals (update_status f p)) = VOLUME (p_globals p)"
  "SKIP (p_globals (update_status f p)) = SKIP (p_globals p)"
  "STATUS (p_globals (update_status f p)) = update_locked f (STATUS (p_globals p))"
  by (simp_all add: update_status_def)

lemma status_message_output [simp]: "p_output (fst (status_message now f code p)) = p_output p"
  by (simp add: status_message_def split: option.split prod.split)

lemma player_output_same: "p_output p = x \<Longrightarrow> p\<lparr>p_output := x\<rparr> = p"
  by (cases p) simp

definition pauses :: "'o audio_output \<Rightarrow> 'o player \<Rightarrow> bool" where
  "pauses ops p \<longleftrightarrow> (\<exists>out. p_output p = Some out \<and> snd (ao_pause ops out))"

definition unpauses :: "'o audio_output \<Rightarrow> 'o player \<Rightarrow> bool" where
  "unpauses ops p \<longleftrightarrow> (\<exists>out. p_output p = Some out \<and> snd (ao_unpause ops out))"

text \<open>The status code a server message is answered with.\<close>

fun reply :: "'o audio_output \<Rightarrow> server_message \<Rightarrow> 'o player \<Rightarrow> status_code list" where
  "reply ops (Status ts) p = [Timer]"
| "reply ops Stop p = [Flushed]"
| "reply ops Flush p = [Flushed]"
| "reply ops (server_message.Pause d) p =
     (if duration_is_zero d \<and> pauses ops p then [status_code.Pause] else [])"
| "reply ops (server_message.Unpause d) p =
     (if duration_is_zero d \<and> unpauses ops p then [Resume] else [])"
| "reply ops _ p = []"

lemmas server_handlers = on_serv_def on_query_name_def on_set_name_def on_gain_def on_status_def
  on_stop_def on_flush_def on_pause_def on_unpause_def on_skip_def on_stream_def on_enable_def
  on_disable_dac_def update_elapsed_and_send_def

lemmas player_handlers = on_end_of_decode_def on_drained_def on_player_pause_def
  on_player_unpause_def on_connected_def on_buffer_threshold_def on_not_supported_def
  on_stream_established_def on_track_started_def on_decoder_def send_status_def

lemma handle_server_reply:
  assumes "handle_server_message ops make_out now msg p = Done (p', effs)"
    and "STATUS (p_globals p) = Mutex False st"
  shows "map fst (stats effs) = map show_status_code (reply ops msg p)"
  using assms
  by (cases msg)
    (auto simp: handle_server_message_def server_handlers status_message_open Let_def pauses_def
      unpauses_def split: option.splits sum.splits if_splits prod.splits run.splits)

text \<open>The periodic status and the answer to a status request carry the play time of the output,
  in seconds and in milliseconds (modulo $2^{32}$), the timestamp of the request and the clock, and
  leave everything else in the status block as it was.\<close>

lemma status_reports_play_time:
  fixes ops :: "'o audio_output" and p :: "'o player" and now :: instant
  assumes "STATUS (p_globals p) = Mutex False st"
  defines "pt \<equiv> current_play_time ops p"
  defines "timer \<equiv> st\<lparr>elapsed_seconds := of_nat (as_secs pt), elapsed_milliseconds := of_nat (as_millis pt),
    jiffies := Duration (now - start st)\<rparr>"
  shows "event_step ops make_out now Timeout p =
      Done (Continue (update_status (\<lambda>_. timer) p), [SlimSend (Stat ''STMt'' timer)]) \<and>
    event_step ops make_out now (SlimMsg (Status ts)) p =
      Done (Continue (update_status (\<lambda>_. timer\<lparr>timestamp := ts\<rparr>) p),
            [SlimSend (Stat ''STMt'' (timer\<lparr>timestamp := ts\<rparr>))])"
  using assms(1)
  by (cases st) (simp add: event_step_def handle_server_message_def on_status_def status_message_open
      set_elapsed_def status_setters secs_as_u32_def millis_as_u32_def pt_def timer_def
      show_status_code_def Let_def)

section \<open>Stopping\<close>

context audio_contract
begin

lemma stop_silences:
  assumes "on_stop ops now p = (p', effs)"
  shows "current_play_time ops p' = duration_zero" "on_pause ops t d p' = (p', [])"
    "on_unpause ops t duration_zero p' = (p', [])" "on_player_unpause ops t p' = (p', [])"
proof -
  have "p_output p' = map_option (ao_stop ops) (p_output p)"
    using assms status_message_output [of now clear_playback Flushed] unfolding on_stop_def
    by (metis fst_conv player.select_convs(1) player.surjective player.update_convs(1))
  then consider "p_output p' = None" | out where "p_output p' = Some (ao_stop ops out)" by auto
  then show "current_play_time ops p' = duration_zero" "on_pause ops t d p' = (p', [])"
    "on_unpause ops t duration_zero p' = (p', [])" "on_player_unpause ops t p' = (p', [])"
    by (cases; simp add: current_play_time_def on_pause_def on_unpause_def on_player_unpause_def
        stop_dur stopped_pause stopped_unpause player_output_same duration_is_zero_def
        duration_zero_def Let_def)+
qed

text \<open>A stream that is reported established plays: a later pause reaches it.\<close>

lemma decoder_established:
  assumes "on_decoder ops d sp p = Done (p', effs)" "p_output p = Some out"
    and "ao_enqueue_new_stream ops d sp (p_device p) (p_globals p) out = Done (out', msgs, Inr ())"
  shows "p_output p' = Some out' \<and>
    (last effs = StreamSend NotSupported \<or> last effs = StreamSend StreamEstablished \<and> is_playing out')"
  using assms enqueue_reports [OF assms(3)] by (auto simp: on_decoder_def Let_def)

end

interpretation dyn: audio_contract "dyn_ops (pulse_ops pa) (pipewire_ops px) (rodio_ops ra)"
    "case_dyn_output pulse_playing pipewire_playing rodio_playing"
  for pa :: "'p pulse_api" and px :: "'w pipewire_api" and ra :: "('dev, 'sink) rodio_api"
  by (rule dyn_contract; unfold_locales)

section \<open>Volume\<close>

lemma gain_volume_bounds:
  defines "g \<equiv> \<lambda>w. min (gain_of w) 1"
  shows "\<not> f32_neg (gain_volume (gain_of w))" "f32_mag (gain_volume (gain_of w)) \<le> f32_mag f32_one"
    "\<bar>f32_value (gain_volume (gain_of w)) - sqrt (of_rat (g w))\<bar> \<le> 1 / 2 ^ 24"
proof -
  define n where "n = min (unat w) (2 ^ 16)"
  have fraction: "min (of_nat m / 65536 :: rat) 1 = of_nat (min m (2 ^ 16)) / 65536" for m
  proof (cases "m \<le> 2 ^ 16")
    case True
    then have "of_nat m \<le> (of_nat (2 ^ 16) :: rat)" by (simp only: of_nat_le_iff)
    then show ?thesis using True by (simp add: min_absorb1)
  next
    case False
    then have "of_nat (2 ^ 16) \<le> (of_nat m :: rat)" by (simp only: of_nat_le_iff)
    then show ?thesis using False by (simp add: min_absorb2)
  qed
  have g: "min (gain_of w) 1 = of_nat n / 65536"
    unfolding gain_of_def n_def by (rule fraction)
  have n: "n \<le> 2 ^ 16" by (simp add: n_def)
  have r: "of_rat (g w) = real n / 65536" by (simp add: g_def g of_rat_divide)
  show "\<not> f32_neg (gain_volume (gain_of w))" "f32_mag (gain_volume (gain_of w)) \<le> f32_mag f32_one"
    "\<bar>f32_value (gain_volume (gain_of w)) - sqrt (of_rat (g w))\<bar> \<le> 1 / 2 ^ 24"
    unfolding r unfolding gain_volume_def g by (rule f32_sqrt_fraction [OF n])+
qed

lemma gain_volume_ends: "gain_volume 0 = 0" "1 \<le> g \<Longrightarrow> gain_volume g = f32_one"
  by (simp_all add: gain_volume_def f32_of_f64_ends f32_sqrt_one min_absorb2)
    (simp add: f32_sqrt_def f32_mag_def f32_inf_def)

section \<open>Sample values\<close>

definition sample_decoder :: "packet_result list \<Rightarrow> vibe_decoder" where
  "sample_decoder packets =
     \<lparr>vd_packets = packets, vd_codec_params = \<lparr>cp_sample_rate = None, cp_channels = None\<rparr>,
      vd_spec_channels = 2, vd_spec_sample_rate = 44100, vd_metadata = None\<rparr>"

definition sample_player :: "'o option \<Rightarrow> 'o player" where
  "sample_player out =
     \<lparr>p_output = out, p_server_default_ip = 0, p_name = Mutex False [], p_start_time = 0,
      p_output_system = ''rodio'', p_device = None, p_quiet = True,
      p_globals = initial_globals 0\<rparr>"

lemma sample_decoder_packets [simp]:
  "vd_packets (sample_decoder ps) = ps"
  "(sample_decoder ps)\<lparr>vd_packets := qs\<rparr> = sample_decoder qs"
  "frame_rate (sample_decoder ps) = 88200"
  by (simp_all add: sample_decoder_def frame_rate_def sample_rate_def channels_def)

lemma sample_player_parts [simp]:
  "STATUS (p_globals (sample_player out)) = Mutex False (status_default 0)"
  "VOLUME (p_globals (sample_player out)) = Mutex False [f32_one, f32_one]"
  "p_output (sample_player out) = out"
  by (simp_all add: sample_player_def initial_globals_def initial_volume_def)

lemma initial_volume_pair [simp]: "volume_pair initial_volume = (f32_one, f32_one)"
    "VOLUME (initial_globals t) = initial_volume"
  by (simp_all add: volume_pair_def initial_volume_def initial_globals_def)

end
