(* ===== verification/Proto_Run.thy ===== *)
theory Proto_Run
  imports Player Hello Discovery
begin

text \<open>
  \<^verbatim>\<open>vibe/src/proto.rs\<close>: the protocol thread that keeps a connection to a server and passes its
  messages to the event loop, and the write thread.  One turn of the reconnect loop is a function
  over what the environment does in that turn; a run is a sequence of turns.
\<close>

section \<open>The greeting\<close>

definition SQUEEZEPLAY_ID :: u8 where
  "SQUEEZEPLAY_ID = 12"

text \<open>The arguments of \<^verbatim>\<open>run\<close> and what it finds out once.\<close>

record proto_config =
  cf_version :: string
  cf_output :: string
  cf_mac :: "bytes option"
  cf_server :: "(ipv4 \<times> u16) option"

record proto_state =
  ps_new_server_sock :: "(ipv4 \<times> u16) option"
  ps_sync_group_id :: "string option"
  ps_reconnect :: bool

definition proto_init :: "bool \<Rightarrow> proto_state" where
  "proto_init reconnect =
     \<lparr>ps_new_server_sock = None, ps_sync_group_id = None, ps_reconnect = reconnect\<rparr>"

definition run_caps :: "proto_config \<Rightarrow> string option \<Rightarrow> capability list" where
  "run_caps cf sgid =
     [Model ''squeezelite'', Modelname ''vibe_player'', Hasdigitalout, Haspreamp, Hasdisabledac,
      Firmware (cf_version cf), Maxsamplerate 192000, capability.Pcm, capability.Mp3,
      capability.Aac, Alc, capability.Ogg, Flc] @
     (if cf_output cf \<noteq> ''rodio'' then [Accurateplaypoints] else []) @
     (case sgid of None \<Rightarrow> [] | Some s \<Rightarrow> [Syncgroupid s])"

definition run_hello :: "proto_config \<Rightarrow> status_data mutex \<Rightarrow> proto_state \<Rightarrow> hello" where
  "run_hello cf status ps =
     with_capabilities (run_caps cf (ps_sync_group_id ps))
       (with_reconnect (ps_reconnect ps)
         (with_bytes_received (case lock status of None \<Rightarrow> 0 | Some st \<Rightarrow> bytes_received st)
           (with_mac (case cf_mac cf of None \<Rightarrow> replicate 6 0 | Some m \<Rightarrow> m)
             (with_device_id SQUEEZEPLAY_ID hello_new))))"

section \<open>Reading\<close>

definition is_unspecified :: "ipv4 \<Rightarrow> bool" where
  "is_unspecified ip \<longleftrightarrow> ip = 0"

definition is_broadcast :: "ipv4 \<Rightarrow> bool" where
  "is_broadcast ip \<longleftrightarrow> ip = 0xFFFFFFFF"

definition is_multicast :: "ipv4 \<Rightarrow> bool" where
  "is_multicast ip \<longleftrightarrow> unat ip div 2 ^ 28 = 14"

text \<open>The \<^verbatim>\<open>for\<close> loop over the messages of one \<^verbatim>\<open>recv\<close>: what is passed on, and the server to
  switch to.\<close>

fun serv_batch ::
    "server_message list \<Rightarrow> server_message option list \<times> (ipv4 \<times> string option) option" where
  "serv_batch [] = ([], None)"
| "serv_batch (Serv ip sgid # ms) =
     (if is_unspecified ip \<or> is_broadcast ip \<or> is_multicast ip then serv_batch ms
      else ([None], Some (ip, sgid)))"
| "serv_batch (m # ms) = apfst (Cons (Some m)) (serv_batch ms)"

datatype serv_end = ServSwitch ipv4 "string option" | ServLost | ServWaiting | ServPanicked

text \<open>The loop \<^verbatim>\<open>'serv\<close> over the reads of the socket.\<close>

function serv_loop :: "bytes \<Rightarrow> read_result list \<Rightarrow> server_message option list \<times> serv_end" where
  "serv_loop buf rs =
     (case recv buf rs of
        RecvWaits _ \<Rightarrow> ([], ServWaiting)
      | RecvPanics \<Rightarrow> ([], ServPanicked)
      | RecvReturns buf' rs' (Inl _) \<Rightarrow> ([None], ServLost)
      | RecvReturns buf' rs' (Inr messages) \<Rightarrow>
          (case serv_batch messages of
             (out, Some (ip, sgid)) \<Rightarrow> (out, ServSwitch ip sgid)
           | (out, None) \<Rightarrow> apfst (append out) (serv_loop buf' rs')))"
  by pat_completeness auto
termination
  by (relation "measure (\<lambda>(_, rs). length rs)") (auto dest: recv_consumes)

declare serv_loop.simps [simp del]

section \<open>Writing\<close>

text \<open>The write thread over the messages it receives and the results of sending them: what it
  sends, and whether it has ended.\<close>

fun write_loop :: "(client_message \<times> unit io_result) list \<Rightarrow> client_message list \<times> bool" where
  "write_loop [] = ([], False)"
| "write_loop ((msg, result) # ms) =
     (let (message, terminate) = (if msg = Bye 1 then (Bye 0, True) else (msg, False))
      in if isl result \<or> terminate then ([message], True)
         else apfst (Cons message) (write_loop ms))"

section \<open>The reconnect loop\<close>

text \<open>What the environment does in one turn: the shared status, the answer of \<^verbatim>\<open>discover\<close>, the
  network of each address, and the reads on the connection.\<close>

record turn_script =
  tn_status :: "status_data mutex"
  tn_discover :: "((ipv4 \<times> u16) \<times> server_tlv_map option) option io_result"
  tn_net :: "ipv4 \<times> u16 \<Rightarrow> net_script"
  tn_reads :: "read_result list"

datatype turn_end = NextTurn proto_state | ThreadEnds | ThreadPanics | TurnWaits

record turn =
  tu_sock :: "(ipv4 \<times> u16) option"
  tu_hello :: hello
  tu_sent :: bytes
  tu_events :: "server_message option list"
  tu_end :: turn_end

definition choose_sock ::
    "proto_config \<Rightarrow> turn_script \<Rightarrow> proto_state \<Rightarrow> (ipv4 \<times> u16) option" where
  "choose_sock cf tn ps =
     (case ps_new_server_sock ps of
        Some sock \<Rightarrow> Some sock
      | None \<Rightarrow>
     (case cf_server cf of
        Some sock \<Rightarrow> Some sock
      | None \<Rightarrow> (case tn_discover tn of Inr (Some (sock, _)) \<Rightarrow> Some sock | _ \<Rightarrow> None)))"

definition run_turn :: "proto_config \<Rightarrow> turn_script \<Rightarrow> proto_state \<Rightarrow> turn" where
  "run_turn cf tn ps =
     (let hello = run_hello cf (tn_status tn) ps;
          sock = choose_sock cf tn ps;
          ps = ps\<lparr>ps_sync_group_id := None, ps_new_server_sock := None\<rparr>;
          t = \<lparr>tu_sock = sock, tu_hello = hello, tu_sent = [], tu_events = [],
               tu_end = NextTurn ps\<rparr>
      in case sock of
           None \<Rightarrow> t
         | Some lms_sock \<Rightarrow>
             (case connect hello (tn_net tn lms_sock) of
                ConnectWaits out \<Rightarrow> t\<lparr>tu_sent := out, tu_end := TurnWaits\<rparr>
              | ConnectReturns out (Inl e) \<Rightarrow>
                  t\<lparr>tu_sent := out, tu_end := NextTurn (ps\<lparr>ps_new_server_sock := Some lms_sock\<rparr>)\<rparr>
              | ConnectReturns out (Inr buf) \<Rightarrow>
                  (let (events, stop) = serv_loop buf (tn_reads tn)
                   in t\<lparr>tu_sent := out, tu_events := events,
                        tu_end := (case stop of
                            ServSwitch ip sgid \<Rightarrow>
                              NextTurn (ps\<lparr>ps_new_server_sock := Some (ip, SLIM_PORT),
                                           ps_sync_group_id := sgid, ps_reconnect := True\<rparr>)
                          | ServLost \<Rightarrow> ThreadEnds
                          | ServWaiting \<Rightarrow> TurnWaits
                          | ServPanicked \<Rightarrow> ThreadPanics)\<rparr>)))"

fun proto_run :: "proto_config \<Rightarrow> turn_script list \<Rightarrow> proto_state \<Rightarrow> turn list" where
  "proto_run cf [] ps = []"
| "proto_run cf (tn # tns) ps =
     (let t = run_turn cf tn ps
      in t # (case tu_end t of NextTurn ps' \<Rightarrow> proto_run cf tns ps' | _ \<Rightarrow> []))"

section \<open>What reaches the event loop\<close>

text \<open>The message of a turn as an event of the loop in theory \<^verbatim>\<open>Player\<close>; a thread that panics
  drops its end of the channel.\<close>

fun event_of :: "server_message option \<Rightarrow> event" where
  "event_of (Some m) = SlimMsg m"
| "event_of None = SlimLost"

definition turn_events :: "turn \<Rightarrow> event list" where
  "turn_events t = map event_of (tu_events t) @ (if tu_end t = ThreadPanics then [SlimClosed] else [])"

fun is_serv :: "server_message \<Rightarrow> bool" where
  "is_serv (Serv _ _) = True"
| "is_serv _ = False"

definition serv_refused :: "ipv4 \<Rightarrow> bool" where
  "serv_refused ip \<longleftrightarrow> is_unspecified ip \<or> is_broadcast ip \<or> is_multicast ip"

fun switches :: "server_message \<Rightarrow> bool" where
  "switches (Serv ip _) = (\<not> serv_refused ip)"
| "switches _ = False"

text \<open>A batch is passed on without its refused \<^verbatim>\<open>serv\<close> commands up to the first that is taken.\<close>

lemma serv_batch_plain: "\<not> is_serv m \<Longrightarrow> serv_batch (m # ms) = apfst (Cons (Some m)) (serv_batch ms)"
  by (cases m) simp_all

lemma serv_batch_append:
  "serv_batch (ms @ ns) =
    (case serv_batch ms of
       (out, Some x) \<Rightarrow> (out, Some x)
     | (out, None) \<Rightarrow> apfst (append out) (serv_batch ns))"
proof (induction ms)
  case (Cons m ms)
  then show ?case
    by (cases "serv_batch ns"; cases "is_serv m")
      (auto simp: serv_batch_plain elim!: is_serv.elims(2) split: prod.split option.split)
qed (simp add: apfst_def map_prod_def)

lemma serv_batch_stay:
  "list_all (\<lambda>m. \<not> switches m) ms \<Longrightarrow>
    serv_batch ms = (map Some (filter (\<lambda>m. \<not> is_serv m) ms), None)"
proof (induction ms)
  case (Cons m ms)
  then show ?case
    by (cases "is_serv m") (auto simp: serv_batch_plain serv_refused_def elim!: is_serv.elims(2))
qed simp

lemma serv_batch_switch:
  assumes "list_all (\<lambda>m. \<not> switches m) pre" "\<not> serv_refused ip"
  shows "serv_batch (pre @ Serv ip sgid # post) =
    (map Some (filter (\<lambda>m. \<not> is_serv m) pre) @ [None], Some (ip, sgid))"
  using assms by (simp add: serv_batch_append serv_batch_stay serv_refused_def)

text \<open>The loop is the batch of everything the session delivers, and the end of the session.\<close>

lemma serv_loop_session:
  "serv_loop buf rs =
    (case session buf rs of (ms, fin) \<Rightarrow>
       case serv_batch ms of
         (out, Some (ip, sgid)) \<Rightarrow> (out, ServSwitch ip sgid)
       | (out, None) \<Rightarrow>
           (case fin of
              Waiting _ \<Rightarrow> (out, ServWaiting)
            | Panicked \<Rightarrow> (out, ServPanicked)
            | Closed _ \<Rightarrow> (out @ [None], ServLost)))"
proof (induction buf rs rule: serv_loop.induct)
  case (1 buf rs)
  show ?case
  proof (cases "recv buf rs")
    case (RecvReturns buf' rs' r)
    show ?thesis
    proof (cases r)
      case (Inr ms)
      show ?thesis
        using "1.IH" [OF RecvReturns Inr] RecvReturns Inr
        by (subst serv_loop.simps, subst session.simps)
          (auto simp: serv_batch_append split: prod.splits option.splits session_end.splits)
    qed (use RecvReturns in \<open>simp add: serv_loop.simps [of buf] session.simps [of buf]\<close>)
  qed (simp_all add: serv_loop.simps [of buf] session.simps [of buf])
qed

lemma serv_batch_no_serv: "Some m \<in> set (fst (serv_batch ms)) \<Longrightarrow> \<not> is_serv m"
proof (induction ms)
  case (Cons a ms)
  then show ?case
    by (cases "is_serv a") (auto simp: serv_batch_plain elim!: is_serv.elims(2) split: if_splits)
qed simp

lemma serv_loop_no_serv: "Some m \<in> set (fst (serv_loop buf rs)) \<Longrightarrow> \<not> is_serv m"
  using serv_batch_no_serv [of m "fst (session buf rs)"]
  by (subst (asm) serv_loop_session)
    (auto split: prod.splits option.splits session_end.splits)

lemma choose_sock_new [simp]: "ps_new_server_sock ps = Some sock \<Longrightarrow> choose_sock cf tn ps = Some sock"
  by (simp add: choose_sock_def)

lemma run_hello_fields [simp]:
  "h_caps (run_hello cf st ps) = run_caps cf (ps_sync_group_id ps)"
  "h_reconnect (run_hello cf st ps) = ps_reconnect ps"
  by (simp_all add: run_hello_def with_capabilities_def with_reconnect_def)

lemma run_turn_refused:
  assumes "choose_sock cf tn ps = Some sock"
    and "connect (run_hello cf (tn_status tn) ps) (tn_net tn sock) = ConnectReturns out (Inl e)"
  shows "tu_end (run_turn cf tn ps) =
    NextTurn (ps\<lparr>ps_sync_group_id := None, ps_new_server_sock := Some sock\<rparr>)"
  using assms by (simp add: run_turn_def Let_def)

lemma run_turn_session:
  assumes "choose_sock cf tn ps = Some sock"
    and "connect (run_hello cf (tn_status tn) ps) (tn_net tn sock) = ConnectReturns out (Inr buf)"
    and "serv_loop buf (tn_reads tn) = (events, ServSwitch ip sgid)"
  shows "tu_end (run_turn cf tn ps) =
      NextTurn (ps\<lparr>ps_sync_group_id := sgid, ps_new_server_sock := Some (ip, SLIM_PORT),
        ps_reconnect := True\<rparr>)"
    and "tu_events (run_turn cf tn ps) = events"
  using assms by (simp_all add: run_turn_def Let_def)

text \<open>The write thread sends what it is given, up to the first \<^verbatim>\<open>Bye(1)\<close>, which it sends as
  \<^verbatim>\<open>Bye(0)\<close>, or the first failure; nothing after it.\<close>

lemma write_loop_spec:
  assumes "list_all (\<lambda>(m, r). m \<noteq> Bye 1 \<and> r = Inr ()) ms"
  shows "write_loop ms = (map fst ms, False)"
    and "write_loop (ms @ (Bye 1, r) # rest) = (map fst ms @ [Bye 0], True)"
    and "m \<noteq> Bye 1 \<Longrightarrow> write_loop (ms @ (m, Inl e) # rest) = (map fst ms @ [m], True)"
  using assms by (induction ms) auto

text \<open>A frame that is too short for an opcode panics the protocol thread.\<close>

lemma serv_loop_short_frame:
  assumes "b \<noteq> []" "length b < 4"
  shows "serv_loop [] (ReadOk (server_frame b @ tail) # rs) = ([], ServPanicked)"
proof -
  have len: "length b < 2 ^ 16" using assms(2) by simp
  note f = frames_of_server_frame [OF assms(1) len, of tail]
  have bad: "\<not> good_body b" using assms(2) by (simp add: good_body_def server_message_from_panics)
  have "decode (server_frame b @ tail) = None"
    using decode_first_bad [OF f, of b] bad assms(2) by simp
  moreover have "server_frame b @ tail \<noteq> []"
    using assms(1) by (simp add: server_frame_def)
  ultimately show ?thesis by (subst serv_loop.simps) simp
qed

section \<open>Sample values\<close>

definition sample_config :: proto_config where
  "sample_config = \<lparr>cf_version = ''1'', cf_output = ''rodio'', cf_mac = None, cf_server = Some (1, 3483)\<rparr>"

definition sample_turn :: "read_result list \<Rightarrow> turn_script" where
  "sample_turn reads =
     \<lparr>tn_status = Mutex False (status_default 0), tn_discover = Inr None,
      tn_net = \<lambda>_. \<lparr>n_connects = [Inr ()], n_nodelay = Inr (), n_clone = Inr (),
        n_writes = [WriteOk 1000], n_flush = Inr ()\<rparr>,
      tn_reads = reads\<rparr>"

definition sample_hello :: hello where
  "sample_hello = run_hello sample_config (Mutex False (status_default 0)) (proto_init False)"

lemma sample_turn_parts [simp]:
  "tn_reads (sample_turn reads) = reads" "tn_status (sample_turn reads) = Mutex False (status_default 0)"
  "choose_sock sample_config (sample_turn reads) (proto_init False) = Some (1, 3483)"
  by (simp_all add: sample_turn_def choose_sock_def proto_init_def sample_config_def)

lemma sample_connect:
  "connect (run_hello sample_config (tn_status (sample_turn reads)) (proto_init False))
      (tn_net (sample_turn reads) (1, 3483)) =
    ConnectReturns (client_to_bytes (helo_message sample_hello)) (Inr [])"
proof -
  have "length (client_to_bytes (helo_message sample_hello)) \<le> 1000"
    by (simp add: length_client_to_bytes helo_message_def Let_def helo_payload_def sample_hello_def
        run_hello_def sample_config_def with_reconnect_def with_device_id_def with_mac_def
        with_bytes_received_def with_capabilities_def hello_new_def show_caplist_def run_caps_def
        proto_init_def SQUEEZEPLAY_ID_def show_nat.simps)
  then show ?thesis
    by (simp add: sample_turn_def connect_def connect_with_retry_def send_def
        flip: sample_hello_def split: unit.split)
qed

end
