(* ===== verification/Cli.thy ===== *)
theory Cli
  imports Audio_Out
begin

text \<open>
  \<^verbatim>\<open>vibe/src/cli.rs\<close>: the parser of \<^verbatim>\<open>SERVER[:PORT]\<close> and the name resolution with retries, over
  the results of the successive lookups and the clock at each failure; and the choice of the
  audio system for a build.  The command-line grammar itself is given to the \<^verbatim>\<open>clap\<close> library
  as attributes and is not modelled.
\<close>

section \<open>Resolving\<close>

definition RESOLVE_INITIAL_DELAY :: duration where
  "RESOLVE_INITIAL_DELAY = from_millis 50"

definition RESOLVE_MAX_DELAY :: duration where
  "RESOLVE_MAX_DELAY = from_secs 5"

datatype ip_addr = IpV4 ipv4 | IpV6

text \<open>The result of one \<^verbatim>\<open>lookup_host\<close>: addresses, a temporary failure at a clock value with its
  text, or another error.\<close>

datatype lookup = Addrs "ip_addr list" | Again instant string | Failed io_error

fun first_v4 :: "u16 \<Rightarrow> ip_addr list \<Rightarrow> (ipv4 \<times> u16) option" where
  "first_v4 port [] = None"
| "first_v4 port (IpV4 ip # addrs) = Some (ip, port)"
| "first_v4 port (IpV6 # addrs) = first_v4 port addrs"

definition timed_out :: "string \<Rightarrow> nat \<Rightarrow> string \<Rightarrow> io_error" where
  "timed_out host attempt e =
     IoError TimedOut (''timed out resolving '' @ host @ '' after '' @ show_nat attempt @
       '' attempt(s): '' @ e)"

text \<open>\<^verbatim>\<open>attempt.saturating_add(1)\<close>\<close>

definition next_attempt :: "nat \<Rightarrow> nat" where
  "next_attempt attempt = min (attempt + 1) (2 ^ 64 - 1)"

text \<open>The retry loop: the sleeps it makes, with the clock at which each starts, and its result.\<close>

fun resolve_loop ::
    "string \<Rightarrow> u16 \<Rightarrow> instant option \<Rightarrow> duration \<Rightarrow> nat \<Rightarrow> lookup list \<Rightarrow>
     (instant \<times> duration) list \<times> (ipv4 \<times> u16) option io_result option" where
  "resolve_loop host port deadline delay attempt [] = ([], None)"
| "resolve_loop host port deadline delay attempt (Addrs addrs # ls) =
     ([], Some (Inr (first_v4 port addrs)))"
| "resolve_loop host port deadline delay attempt (Failed e # ls) = ([], Some (Inl e))"
| "resolve_loop host port deadline delay attempt (Again now e # ls) =
     (if (case deadline of None \<Rightarrow> False | Some dl \<Rightarrow> dl - now = 0) then ([], Some (Inl (timed_out host attempt e)))
      else
        let sleep_for = (case deadline of
                           None \<Rightarrow> delay | Some dl \<Rightarrow> min delay (Duration (dl - now)));
            (sleeps, r) = resolve_loop host port deadline
              (min (Duration (as_nanos delay * 2)) RESOLVE_MAX_DELAY)
              (next_attempt attempt) ls
        in ((now, sleep_for) # sleeps, r))"

definition resolve_with_retry ::
    "instant \<Rightarrow> string \<Rightarrow> u16 \<Rightarrow> duration option \<Rightarrow> lookup list \<Rightarrow>
     (instant \<times> duration) list \<times> (ipv4 \<times> u16) option io_result option" where
  "resolve_with_retry now host port timeout ls =
     resolve_loop host port (map_option (\<lambda>t. now + as_nanos t) timeout) RESOLVE_INITIAL_DELAY 1 ls"

section \<open>Parsing\<close>

text \<open>The port of \<^verbatim>\<open>SocketAddrV4::from_str\<close>: digits only, any number of them.\<close>

definition parse_port :: "string \<Rightarrow> u16 option" where
  "parse_port s =
     (if s = [] then None
      else case digits_val 0 s of
          None \<Rightarrow> None
        | Some v \<Rightarrow> if v < 2 ^ 16 then Some (of_nat v) else None)"

definition parse_socket_addr :: "string \<Rightarrow> (ipv4 \<times> u16) option" where
  "parse_socket_addr s =
     (case split_on (CHR '':'') s of
        [a, b] \<Rightarrow> (case (parse_ipv4 a, parse_port b) of
            (Some ip, Some port) \<Rightarrow> Some (ip, port) | _ \<Rightarrow> None)
      | _ \<Rightarrow> None)"

text \<open>\<^verbatim>\<open>rsplitn(2, ':')\<close>: what is before the last colon, if there is one, and what is after it.\<close>

definition rsplit_colon :: "string \<Rightarrow> string option \<times> string" where
  "rsplit_colon s =
     (let last = rev (takeWhile (\<lambda>c. c \<noteq> CHR '':'') (rev s))
      in (if CHR '':'' \<in> set s then Some (take (length s - length last - 1) s) else None, last))"

definition host_and_port :: "string \<Rightarrow> string \<times> u16" where
  "host_and_port value =
     (case rsplit_colon value of
        (Some host, port_str) \<Rightarrow>
          (if list_all is_ascii_digit port_str
           then (host, (case parse_u16 port_str of None \<Rightarrow> SLIM_PORT | Some p \<Rightarrow> p))
           else (value, SLIM_PORT))
      | (None, host) \<Rightarrow> (host, SLIM_PORT))"

text \<open>\<^verbatim>\<open>parse_server_addr\<close>, with what the resolver answers for each name; \<open>None\<close> if it still
  retries.\<close>

definition parse_server_addr ::
    "instant \<Rightarrow> (string \<Rightarrow> lookup list) \<Rightarrow> string \<Rightarrow> duration option \<Rightarrow> (ipv4 \<times> u16) anyhow option" where
  "parse_server_addr now dns value timeout =
     (case parse_socket_addr value of
        Some addr \<Rightarrow> Some (Inr addr)
      | None \<Rightarrow>
     (case parse_ipv4 value of
        Some ip \<Rightarrow> Some (Inr (ip, SLIM_PORT))
      | None \<Rightarrow>
     (let (host, port) = host_and_port value
      in case snd (resolve_with_retry now host port timeout (dns host)) of
           None \<Rightarrow> None
         | Some (Inl e) \<Rightarrow> Some (Inl (display e))
         | Some (Inr None) \<Rightarrow> Some (Inl ''Could not resolve server address'')
         | Some (Inr (Some addr)) \<Rightarrow> Some (Inr addr))))"

section \<open>Audio systems\<close>

definition default_system :: "features \<Rightarrow> string" where
  "default_system fs =
     (if feat_pulse fs then ''pulse'' else if feat_pipewire fs then ''pipewire'' else ''rodio'')"

definition system_list :: "features \<Rightarrow> string list" where
  "system_list fs =
     (if feat_pulse fs \<and> feat_pipewire fs \<and> feat_rodio fs then [''pulse'', ''pipewire'', ''rodio'']
      else if feat_pulse fs \<and> feat_pipewire fs then [''pulse'', ''pipewire'']
      else if feat_pulse fs \<and> feat_rodio fs then [''pulse'', ''rodio'']
      else if feat_rodio fs \<and> feat_pipewire fs then [''pipewire'', ''rodio'']
      else [[]])"

text \<open>\<^verbatim>\<open>main\<close> takes the option when at least two systems are built in, and the default otherwise.\<close>

definition output_system :: "features \<Rightarrow> string \<Rightarrow> string" where
  "output_system fs option_value =
     (if feat_pulse fs \<and> feat_rodio fs \<or> feat_pulse fs \<and> feat_pipewire fs \<or>
         feat_rodio fs \<and> feat_pipewire fs
      then option_value else default_system fs)"

section \<open>Facts\<close>

lemma digit_not_colon: "is_ascii_digit c \<Longrightarrow> c \<noteq> CHR '':''"
  by (auto simp: is_ascii_digit_def digit_val_def)

lemma colon_not_in_join:
  "\<forall>s \<in> set ss. c \<notin> set s \<Longrightarrow> c \<notin> set sep \<Longrightarrow> c \<notin> set (join sep ss)"
  by (induction sep ss rule: join.induct) auto

lemma colon_not_in_show_ipv4: "CHR '':'' \<notin> set (show_ipv4 ip)"
  unfolding show_ipv4_def
  by (rule colon_not_in_join) (auto dest: show_nat_digits digit_not_colon)

lemma colon_not_in_show_nat: "CHR '':'' \<notin> set (show_nat n)"
  by (auto dest: show_nat_digits digit_not_colon)

lemma parse_port_show: "parse_port (show_nat (unat p)) = Some p"
  using unat_bound [of p] by (simp add: parse_port_def digits_val_show_nat)

lemma parse_socket_addr_show:
  "parse_socket_addr (show_ipv4 ip @ '':'' @ show_nat (unat port)) = Some (ip, port)"
  using split_on_append [OF colon_not_in_show_ipv4, of ip "show_nat (unat port)"]
  by (simp add: parse_socket_addr_def split_on_notin colon_not_in_show_nat parse_show_ipv4
      parse_port_show)

lemma parse_socket_addr_no_colon: "CHR '':'' \<notin> set s \<Longrightarrow> parse_socket_addr s = None"
  by (simp add: parse_socket_addr_def split_on_notin)

lemma host_and_port_plain: "CHR '':'' \<notin> set s \<Longrightarrow> host_and_port s = (s, SLIM_PORT)"
proof -
  assume no: "CHR '':'' \<notin> set s"
  then have "takeWhile (\<lambda>c. c \<noteq> CHR '':'') (rev s) = rev s"
    by (auto simp: takeWhile_eq_all_conv)
  then have "rsplit_colon s = (None, s)" using no by (simp only: rsplit_colon_def Let_def) simp
  then show ?thesis by (simp add: host_and_port_def)
qed

lemma rsplit_colon_port:
  assumes "CHR '':'' \<notin> set s"
  shows "rsplit_colon (host @ CHR '':'' # s) = (Some host, s)"
proof -
  have "takeWhile (\<lambda>c. c \<noteq> CHR '':'') (rev s @ CHR '':'' # rev host) = rev s"
    using assms by (subst takeWhile_append2) auto
  then show ?thesis by (simp add: rsplit_colon_def)
qed

lemma host_and_port_port: "host_and_port (host @ '':'' @ show_nat (unat port)) = (host, port)"
proof -
  have "list_all is_ascii_digit (show_nat (unat port))"
    by (auto simp: list_all_iff dest: show_nat_digits)
  then show ?thesis
    unfolding host_and_port_def append_Cons append_Nil
      rsplit_colon_port [OF colon_not_in_show_nat]
    by (simp add: parse_u16_show)
qed

text \<open>A string with a colon is not an address, so a host name with a port is looked up.\<close>

lemma split_on_covers: "c \<in> set s \<Longrightarrow> c \<noteq> sep \<Longrightarrow> \<exists>t \<in> set (split_on sep s). c \<in> set t"
  by (induction s) (auto split: list.splits)

lemma digits_val_colon: "CHR '':'' \<in> set s \<Longrightarrow> digits_val acc s = None"
  by (induction s arbitrary: acc) (auto simp: digit_val_def split: option.splits)

lemma parse_ipv4_colon:
  assumes "CHR '':'' \<in> set s"
  shows "parse_ipv4 s = None"
proof -
  obtain t where "t \<in> set (split_on (CHR ''.'') s)" "CHR '':'' \<in> set t"
    using split_on_covers [OF assms, of "CHR ''.''"] by auto
  then have "None \<in> set (map parse_octet (split_on (CHR ''.'') s))"
    by (force simp: parse_octet_def digits_val_colon)
  then show ?thesis
    by (auto simp: parse_ipv4_def split: list.splits option.splits)
qed

lemma parse_socket_addr_host:
  assumes "CHR '':'' \<notin> set host" "parse_ipv4 host = None"
  shows "parse_socket_addr (host @ '':'' @ show_nat n) = None"
  using split_on_append [OF assms(1), of "show_nat n"] assms(2)
  by (simp add: parse_socket_addr_def split_on_notin colon_not_in_show_nat)

text \<open>Whatever \<^verbatim>\<open>--system\<close> accepts, and the default, is a system of the build, so
  \<^verbatim>\<open>make_audio_output\<close> does not reach its \<^verbatim>\<open>unreachable!()\<close>.\<close>

lemma output_system_available:
  assumes "feat_pulse fs \<or> feat_pipewire fs \<or> feat_rodio fs" "value \<in> set (system_list fs)"
    and "tp \<noteq> Panics"
  shows "make_audio_output fs tp tw tr (output_system fs value) dev \<noteq> Panics"
  using assms
  by (cases "feat_pulse fs"; cases "feat_pipewire fs"; cases "feat_rodio fs")
    (auto simp: make_audio_output_def output_system_def system_list_def default_system_def
      map_run_Panics)

text \<open>Sleeps double up to the cap and never pass the deadline.\<close>

definition resolve_delay :: "nat \<Rightarrow> duration" where
  "resolve_delay k = Duration (min (5 * 10 ^ 7 * 2 ^ k) (5 * 10 ^ 9))"

lemma resolve_delay_step:
  "min (Duration (as_nanos (resolve_delay k) * 2)) RESOLVE_MAX_DELAY = resolve_delay (Suc k)"
  by (simp add: resolve_delay_def RESOLVE_MAX_DELAY_def from_secs_def min_duration min_def)

lemma resolve_loop_sleeps:
  "resolve_loop host port deadline (resolve_delay k) attempt ls = (sleeps, r) \<Longrightarrow>
    (\<forall>i < length sleeps. snd (sleeps ! i) \<le> resolve_delay (k + i)) \<and>
    (\<forall>dl. deadline = Some dl \<longrightarrow> (\<forall>(t, d) \<in> set sleeps. t + as_nanos d \<le> dl \<and> t < dl))"
proof (induction ls arbitrary: k attempt sleeps r)
  case (Cons l ls)
  show ?case
  proof (cases l)
    case (Again now e)
    show ?thesis
    proof (cases "case deadline of None \<Rightarrow> False | Some dl \<Rightarrow> dl - now = 0")
      case True
      then show ?thesis using Cons.prems Again by auto
    next
      case False
      define s where "s = (case deadline of
          None \<Rightarrow> resolve_delay k | Some dl \<Rightarrow> min (resolve_delay k) (Duration (dl - now)))"
      obtain sleeps' r' where rest: "resolve_loop host port deadline (resolve_delay (Suc k))
          (next_attempt attempt) ls = (sleeps', r')" by fastforce
      have sleeps: "sleeps = (now, s) # sleeps'"
        using Cons.prems
        unfolding Again resolve_loop.simps if_not_P [OF False] resolve_delay_step rest
          s_def [symmetric] by simp
      have "s \<le> resolve_delay k" by (simp add: s_def split: option.split)
      moreover have "deadline = Some dl \<Longrightarrow> now + as_nanos s \<le> dl \<and> now < dl" for dl
        using False by (auto simp: s_def min_duration resolve_delay_def)
      moreover note Cons.IH [OF rest]
      ultimately show ?thesis
        by (auto simp: sleeps nth_Cons split: nat.split)
    qed
  qed (use Cons.prems in auto)
qed simp

end
