(* ===== verification/Startup.thy ===== *)
theory Startup
  imports Audio_Out
begin

text \<open>
  \<^verbatim>\<open>vibe/src/startup.rs\<close>: the systemd unit file that \<^verbatim>\<open>--create-service\<close> writes.  The text is
  made by replacing placeholders one after the other; what the host answers (where the program
  is, the configuration directory, whether it can be written) are arguments.
\<close>

section \<open>Replacing\<close>

text \<open>\<^verbatim>\<open>str::replace\<close> for a pattern that is not empty: matches from the left that do not
  overlap.\<close>

function str_replace :: "string \<Rightarrow> string \<Rightarrow> string \<Rightarrow> string" where
  "str_replace pat by_text s =
     (case s of
        [] \<Rightarrow> []
      | c # cs \<Rightarrow>
          if pat \<noteq> [] \<and> take (length pat) s = pat then
            by_text @ str_replace pat by_text (drop (length pat) s)
          else c # str_replace pat by_text cs)"
  by pat_completeness auto
termination
  by (relation "measure (\<lambda>(_, _, s). length s)") auto

declare str_replace.simps [simp del]

lemma str_replace_Nil [simp]: "str_replace pat t [] = []"
  by (simp add: str_replace.simps)

lemma str_replace_hit:
  assumes "pat \<noteq> []"
  shows "str_replace pat t (pat @ s) = t @ str_replace pat t s"
  using assms by (cases pat) (simp_all, subst str_replace.simps, simp)

lemma str_replace_skip:
  assumes "CHR ''{'' \<notin> set a"
  shows "str_replace (CHR ''{'' # p) t (a @ s) = a @ str_replace (CHR ''{'' # p) t s"
  using assms by (induction a) (auto simp: str_replace.simps)

lemma str_replace_none:
  "CHR ''{'' \<notin> set a \<Longrightarrow> str_replace (CHR ''{'' # p) t a = a"
  using str_replace_skip [of a p t "[]"] by simp

section \<open>The unit file\<close>

definition SERVICE_FILE_TEXT :: string where
  "SERVICE_FILE_TEXT =
     concat (map (\<lambda>l. l @ [CHR 0x0A])
       [''[Unit]'',
        ''Description=A music player for the Lyrion Music Server'',
        ''After=network-online.target sound.target'',
        [],
        ''[Service]'',
        ''Type=simple'',
        ''ExecStart={path}{server}{audio_sys}{device}'',
        ''Restart=on-failure'',
        [],
        ''[Install]'',
        ''WantedBy=default.target''])"

definition SERVICE_FILE_NAME :: string where
  "SERVICE_FILE_NAME = ''vibe.service''"

text \<open>An option with its value in quotes.\<close>

definition quoted_option :: "string \<Rightarrow> string \<Rightarrow> string" where
  "quoted_option opt value = '' --'' @ opt @ '' '' @ [CHR 0x22] @ value @ [CHR 0x22]"

definition several_systems :: "features \<Rightarrow> bool" where
  "several_systems fs \<longleftrightarrow>
     feat_pulse fs \<and> feat_rodio fs \<or> feat_pulse fs \<and> feat_pipewire fs \<or>
     feat_rodio fs \<and> feat_pipewire fs"

definition unit_text :: "features \<Rightarrow> string option \<Rightarrow> string \<Rightarrow> string option \<Rightarrow> string \<Rightarrow> string" where
  "unit_text fs server audio_sys device path =
     (let out = str_replace ''{device}''
            (case device of Some d \<Rightarrow> quoted_option ''device'' d | None \<Rightarrow> []) SERVICE_FILE_TEXT;
          out = str_replace ''{audio_sys}''
            (if several_systems fs then quoted_option ''system'' audio_sys else []) out;
          out = str_replace ''{server}''
            (case server of Some s \<Rightarrow> quoted_option ''server'' s | None \<Rightarrow> []) out
      in str_replace ''{path}'' path out)"

text \<open>\<^verbatim>\<open>Path::join\<close> with a relative path.\<close>

definition path_join :: "string \<Rightarrow> string \<Rightarrow> string" where
  "path_join dir p = (if dir = [] \<or> last dir = CHR ''/'' then dir @ p else dir @ ''/'' @ p)"

record unit_host =
  uh_which :: "string anyhow"
  uh_config_dir :: "string option"
  uh_create_dir_all :: "string \<Rightarrow> unit anyhow"
  uh_write :: "string \<Rightarrow> string \<Rightarrow> unit anyhow"

text \<open>On success, the file that was written, its text, and what is printed.\<close>

definition create_systemd_unit ::
    "features \<Rightarrow> unit_host \<Rightarrow> string option \<Rightarrow> string \<Rightarrow> string option \<Rightarrow>
     (string \<times> string \<times> string list) anyhow" where
  "create_systemd_unit fs host server audio_sys device =
     (case uh_which host of
        Inl e \<Rightarrow> Inl e
      | Inr path \<Rightarrow>
     (let out = unit_text fs server audio_sys device path
      in case uh_config_dir host of
           None \<Rightarrow> Inl ''Could not find config directory''
         | Some dir \<Rightarrow>
             (let config_dir = path_join dir ''systemd/user''
              in case uh_create_dir_all host config_dir of
                   Inl e \<Rightarrow> Inl e
                 | Inr _ \<Rightarrow>
                     (let unit_file = path_join config_dir SERVICE_FILE_NAME
                      in case uh_write host unit_file out of
                           Inl e \<Rightarrow> Inl e
                         | Inr _ \<Rightarrow>
                             Inr (unit_file, out,
                               [''Successfully installed systemd service to: '' @ unit_file,
                                ''To enable and start the service, run:'',
                                ''  systemctl --user daemon-reload'',
                                ''  systemctl --user enable --now '' @ SERVICE_FILE_NAME])))))"

section \<open>The command line in the unit file\<close>

text \<open>The lines before and after the command line; the placeholders stand one after the other in
  between.\<close>

definition unit_head :: string where
  "unit_head = concat (map (\<lambda>l. l @ [CHR 0x0A])
     [''[Unit]'', ''Description=A music player for the Lyrion Music Server'',
      ''After=network-online.target sound.target'', [], ''[Service]'', ''Type=simple'']) @ ''ExecStart=''"

definition unit_tail :: string where
  "unit_tail = concat (map (\<lambda>l. l @ [CHR 0x0A])
     [[], ''Restart=on-failure'', [], ''[Install]'', ''WantedBy=default.target''])"

lemma service_file_parts:
  "SERVICE_FILE_TEXT = unit_head @ ''{path}'' @ ''{server}'' @ ''{audio_sys}'' @ ''{device}'' @ unit_tail"
  "CHR ''{'' \<notin> set unit_head" "CHR ''{'' \<notin> set unit_tail"
  by (simp_all add: SERVICE_FILE_TEXT_def unit_head_def unit_tail_def)

text \<open>A placeholder is passed over by the others.\<close>

lemma str_replace_other:
  "str_replace ''{device}'' t (''{path}'' @ s) = ''{path}'' @ str_replace ''{device}'' t s"
  "str_replace ''{device}'' t (''{server}'' @ s) = ''{server}'' @ str_replace ''{device}'' t s"
  "str_replace ''{device}'' t (''{audio_sys}'' @ s) = ''{audio_sys}'' @ str_replace ''{device}'' t s"
  "str_replace ''{audio_sys}'' t (''{path}'' @ s) = ''{path}'' @ str_replace ''{audio_sys}'' t s"
  "str_replace ''{audio_sys}'' t (''{server}'' @ s) = ''{server}'' @ str_replace ''{audio_sys}'' t s"
  "str_replace ''{server}'' t (''{path}'' @ s) = ''{path}'' @ str_replace ''{server}'' t s"
  by (simp_all add: str_replace.simps)

lemma quoted_option_no_brace:
  "CHR ''{'' \<notin> set opt \<Longrightarrow> CHR ''{'' \<notin> set v \<Longrightarrow> CHR ''{'' \<notin> set (quoted_option opt v)"
  by (simp add: quoted_option_def)

lemma unit_text_parts:
  assumes "CHR ''{'' \<notin> set dev" "CHR ''{'' \<notin> set sys" "CHR ''{'' \<notin> set srv"
  shows "str_replace ''{path}'' path (str_replace ''{server}'' srv (str_replace ''{audio_sys}'' sys
      (str_replace ''{device}'' dev SERVICE_FILE_TEXT))) =
    unit_head @ path @ srv @ sys @ dev @ unit_tail"
proof -
  note skip = str_replace_skip [OF service_file_parts(2)] str_replace_none [OF service_file_parts(3)]
    str_replace_skip [OF assms(1)] str_replace_skip [OF assms(2)] str_replace_skip [OF assms(3)]
  have hit: "str_replace ''{path}'' t (''{path}'' @ s) = t @ str_replace ''{path}'' t s"
    "str_replace ''{server}'' t (''{server}'' @ s) = t @ str_replace ''{server}'' t s"
    "str_replace ''{audio_sys}'' t (''{audio_sys}'' @ s) = t @ str_replace ''{audio_sys}'' t s"
    "str_replace ''{device}'' t (''{device}'' @ s) = t @ str_replace ''{device}'' t s" for t s
    by (rule str_replace_hit, simp)+
  show ?thesis
    unfolding service_file_parts(1) by (simp only: skip hit str_replace_other append_assoc)
qed

end
