(* ===== verification/Main_Loop.thy ===== *)
theory Main_Loop
  imports Proto_Run Cli Startup
begin

text \<open>
  \<^verbatim>\<open>vibe/src/main.rs\<close>: what the program does with its command line, and the loop around the event
  loop of theory \<^verbatim>\<open>Player\<close>, which starts again whenever the connection is lost.  A run is given
  by what happens in each session: the clock and the host name at its start, and its events with
  their clock values.
\<close>

section \<open>Before the loop\<close>

record cli =
  cl_server :: "string option"
  cl_device :: "string option"
  cl_list :: bool
  cl_name :: string
  cl_system :: string
  cl_quiet :: bool
  cl_create_service :: bool

definition newline :: string where
  "newline = [CHR 0x0A]"

text \<open>The entry of device number \<open>i\<close>; its description is indented to the name.\<close>

definition device_lines :: "nat \<Rightarrow> string \<times> string option \<Rightarrow> string" where
  "device_lines i dev =
     show_nat i @ '': '' @ fst dev @ newline @
     (case snd dev of
        Some desc \<Rightarrow>
          replicate (if i < 10 then 3 else if i < 100 then 4 else 5) (CHR '' '') @ desc @ newline
      | None \<Rightarrow> [])"

definition list_text :: "(string \<times> string option) list \<Rightarrow> string" where
  "list_text names =
     concat (map (\<lambda>(i, dev). device_lines i dev) (enumerate 0 names)) @
     ''Found '' @ show_nat (length names) @ '' device'' @
     (if length names \<noteq> 1 then ''s'' else []) @ newline"

text \<open>How \<^verbatim>\<open>main\<close> goes on: it returns with what it printed and an error or not, it enters the loop
  with the server address, or it waits or panics on the way.\<close>

datatype main_start =
    Returns string "unit anyhow" | Enters "(ipv4 \<times> u16) option" | StartWaits | StartPanics

definition server_not_found :: "string \<Rightarrow> string" where
  "server_not_found server = ''Server not found: '' @ server"

definition main_setup ::
    "features \<Rightarrow> 'o audio_output \<Rightarrow> (string \<Rightarrow> string option \<Rightarrow> 'o anyhow run) \<Rightarrow> unit_host \<Rightarrow>
     instant \<Rightarrow> (string \<Rightarrow> lookup list) \<Rightarrow> unit anyhow \<Rightarrow> cli \<Rightarrow> main_start" where
  "main_setup fs ops make_out host now dns logger c =
     (case logger of
        Inl e \<Rightarrow> Returns [] (Inl e)
      | Inr _ \<Rightarrow>
     (let system = output_system fs (cl_system c);
          resolve = (\<lambda>timeout.
            case cl_server c of
              None \<Rightarrow> Some (Inr None)
            | Some server \<Rightarrow>
                map_option (map_sum (\<lambda>_. server_not_found server) Some)
                  (parse_server_addr now dns server timeout))
      in if cl_create_service c then
           (case resolve (Some (from_secs 5)) of
              None \<Rightarrow> StartWaits
            | Some (Inl e) \<Rightarrow> Returns [] (Inl e)
            | Some (Inr _) \<Rightarrow>
                (case create_systemd_unit fs host (cl_server c) system (cl_device c) of
                   Inl e \<Rightarrow> Returns [] (Inl e)
                 | Inr (_, _, printed) \<Rightarrow>
                     Returns (concat (map (\<lambda>l. l @ newline) printed)) (Inr ())))
         else if cl_list c then
           (case make_out system (cl_device c) of
              Waits \<Rightarrow> StartWaits
            | Panics \<Rightarrow> StartPanics
            | Done (Inl _) \<Rightarrow> Returns [] (Inr ())
            | Done (Inr out) \<Rightarrow>
                (case ao_get_output_device_names ops out of
                   Waits \<Rightarrow> StartWaits
                 | Panics \<Rightarrow> StartPanics
                 | Done (_, Inl e) \<Rightarrow> Returns (''Output devices:'' @ newline) (Inl e)
                 | Done (_, Inr names) \<Rightarrow>
                     Returns (''Output devices:'' @ newline @ list_text names) (Inr ())))
         else
           (case resolve None of
              None \<Rightarrow> StartWaits
            | Some (Inl e) \<Rightarrow> Returns [] (Inl e)
            | Some (Inr server) \<Rightarrow> Enters server)))"

section \<open>The loop\<close>

definition player_name :: "cli \<Rightarrow> string option \<Rightarrow> string" where
  "player_name c hostname =
     (case hostname of Some h \<Rightarrow> cl_name c @ ''@'' @ h | None \<Rightarrow> cl_name c)"

definition player_start ::
    "features \<Rightarrow> cli \<Rightarrow> (ipv4 \<times> u16) option \<Rightarrow> string option \<Rightarrow> instant \<Rightarrow> globals \<Rightarrow> 'o player" where
  "player_start fs c server hostname now g =
     \<lparr>p_output = None,
      p_server_default_ip = fst (case server of Some sock \<Rightarrow> sock | None \<Rightarrow> (0, 0)),
      p_name = Mutex False (player_name c hostname),
      p_start_time = now,
      p_output_system = output_system fs (cl_system c),
      p_device = cl_device c,
      p_quiet = cl_quiet c,
      p_globals = g\<rparr>"

text \<open>The inner loop over its events: the effects, and how it ended.  An output may change the
  shared state between two events; \<open>between\<close> is what it did.\<close>

datatype 'o loop_end = LoopIdle "'o player" | LoopLost "'o player" | LoopExit | LoopBlocked | LoopPanics

fun event_loop ::
    "'o audio_output \<Rightarrow> (string \<Rightarrow> string option \<Rightarrow> 'o anyhow run) \<Rightarrow>
     (instant \<times> (globals \<Rightarrow> globals) \<times> event) list \<Rightarrow> 'o player \<Rightarrow> effect list \<times> 'o loop_end" where
  "event_loop ops make_out [] p = ([], LoopIdle p)"
| "event_loop ops make_out ((now, between, ev) # evs) p =
     (case event_step ops make_out now ev (p\<lparr>p_globals := between (p_globals p)\<rparr>) of
        Waits \<Rightarrow> ([], LoopBlocked)
      | Panics \<Rightarrow> ([], LoopPanics)
      | Done (Exit, effs) \<Rightarrow> (effs, LoopExit)
      | Done (Reconnect p', effs) \<Rightarrow> (effs, LoopLost p')
      | Done (Continue p', effs) \<Rightarrow> apfst (append effs) (event_loop ops make_out evs p'))"

record session_script =
  ss_now :: instant
  ss_hostname :: "string option"
  ss_events :: "(instant \<times> (globals \<Rightarrow> globals) \<times> event) list"

text \<open>The outer loop: for each session the flag its protocol thread is started with, the context
  it starts with, and its effects.\<close>

fun main_loop ::
    "features \<Rightarrow> 'o audio_output \<Rightarrow> (string \<Rightarrow> string option \<Rightarrow> 'o anyhow run) \<Rightarrow> cli \<Rightarrow>
     (ipv4 \<times> u16) option \<Rightarrow> session_script list \<Rightarrow> bool \<Rightarrow> globals \<Rightarrow>
     (bool \<times> 'o player \<times> effect list) list" where
  "main_loop fs ops make_out c server [] reconnect g = []"
| "main_loop fs ops make_out c server (ss # sss) reconnect g =
     (let p = player_start fs c server (ss_hostname ss) (ss_now ss) g;
          (effs, stop) = event_loop ops make_out (ss_events ss) p
      in (reconnect, p, effs) #
         (case stop of
            LoopLost p' \<Rightarrow> main_loop fs ops make_out c server sss True (p_globals p')
          | _ \<Rightarrow> []))"

section \<open>The end of a session\<close>

fun slim_sent :: "effect list \<Rightarrow> client_message list" where
  "slim_sent (SlimSend m # effs) = m # slim_sent effs"
| "slim_sent (_ # effs) = slim_sent effs"
| "slim_sent [] = []"

lemma slim_sent_append [simp]: "slim_sent (a @ b) = slim_sent a @ slim_sent b"
  by (induction a rule: slim_sent.induct) simp_all

fun is_bye :: "client_message \<Rightarrow> bool" where
  "is_bye (Bye _) = True"
| "is_bye _ = False"

lemma slim_sent_posts [simp]: "slim_sent (map StreamSend msgs) = []"
  by (induction msgs) simp_all

lemma status_message_no_bye: "list_all (\<lambda>m. \<not> is_bye m) (slim_sent (snd (status_message now f code p)))"
  by (simp add: status_message_def make_status_message_def Let_def split: option.split)

lemma server_message_no_bye:
  assumes "handle_server_message ops make_out now msg p = Done (p', effs)"
  shows "list_all (\<lambda>m. \<not> is_bye m) (slim_sent effs)"
proof -
  have eq: "x = (p', effs) \<Longrightarrow> list_all (\<lambda>m. \<not> is_bye m) (slim_sent (snd x)) \<Longrightarrow> ?thesis" for x by simp
  show ?thesis
    using assms
    by (cases msg)
      (auto simp: handle_server_message_def server_handlers Let_def
        intro: eq [OF _ status_message_no_bye]
        split: option.splits sum.splits if_splits prod.splits run.splits)
qed

lemma player_message_no_bye:
  assumes "handle_player_message ops now msg p = Done (p', effs)"
  shows "list_all (\<lambda>m. \<not> is_bye m) (slim_sent effs)"
proof -
  have eq: "x = (p', effs) \<Longrightarrow> list_all (\<lambda>m. \<not> is_bye m) (slim_sent (snd x)) \<Longrightarrow> ?thesis" for x by simp
  show ?thesis
    using assms
    by (cases msg)
      (auto simp: handle_player_message_def player_handlers map_run_Done Let_def
        intro: eq [OF _ status_message_no_bye]
        split: option.splits if_splits prod.splits)
qed

lemma event_step_continue:
  assumes "event_step ops make_out now ev p = Done (Continue p', effs)"
  shows "list_all (\<lambda>m. \<not> is_bye m) (slim_sent effs)"
proof (cases ev)
  case (SlimMsg msg)
  then show ?thesis using assms server_message_no_bye by (fastforce simp: event_step_def map_run_Done)
next
  case (StreamMsg msg)
  then show ?thesis using assms player_message_no_bye by (fastforce simp: event_step_def map_run_Done)
next
  case Timeout
  then have "effs = snd (status_message now (set_elapsed (current_play_time ops p)) Timer p)"
    using assms by (cases "status_message now (set_elapsed (current_play_time ops p)) Timer p")
      (simp add: event_step_def)
  then show ?thesis by (simp add: status_message_no_bye)
qed (use assms in \<open>simp_all add: event_step_def\<close>)

lemma event_step_lost:
  "event_step ops make_out now ev p = Done (Reconnect p', effs) \<longleftrightarrow>
    ev = SlimLost \<and> effs = [SlimSend (Bye 1)] \<and>
    p' = p\<lparr>p_output := map_option (ao_stop ops) (p_output p)\<rparr>"
  by (cases ev) (auto simp: event_step_def map_run_Done apfst_def map_prod_def split: prod.splits)

text \<open>A session that lost its connection has sent its messages and then \<^verbatim>\<open>Bye(1)\<close>, and has stopped
  its output.\<close>

lemma event_loop_lost:
  assumes "event_loop ops make_out evs p = (effs, LoopLost p')"
  shows "\<exists>ms. slim_sent effs = ms @ [Bye 1] \<and> list_all (\<lambda>m. \<not> is_bye m) ms \<and>
    (\<exists>out. p_output p' = map_option (ao_stop ops) out)"
  using assms
proof (induction ops make_out evs p arbitrary: effs rule: event_loop.induct)
  case (2 ops make_out now between ev evs p)
  let ?p = "p\<lparr>p_globals := between (p_globals p)\<rparr>"
  obtain o1 e1 where s: "event_step ops make_out now ev ?p = Done (o1, e1)"
    using "2.prems" by (auto split: run.splits prod.splits)
  show ?case
  proof (cases o1)
    case (Continue p1)
    with "2.prems" s obtain e2 where e2: "event_loop ops make_out evs p1 = (e2, LoopLost p')"
      and effs: "effs = e1 @ e2"
      by (cases "event_loop ops make_out evs p1") auto
    from "2.IH" [OF s refl Continue e2] event_step_continue [of ops make_out now ev ?p p1 e1] s Continue
    obtain ms where "slim_sent e2 = ms @ [Bye 1]" "list_all (\<lambda>m. \<not> is_bye m) ms"
      "list_all (\<lambda>m. \<not> is_bye m) (slim_sent e1)" "\<exists>out. p_output p' = map_option (ao_stop ops) out"
      by auto
    then show ?thesis by (intro exI [of _ "slim_sent e1 @ ms"]) (simp add: effs)
  next
    case (Reconnect p1)
    then show ?thesis using "2.prems" s event_step_lost [of ops make_out now ev ?p p1 e1] by auto
  qed (use "2.prems" s in simp)
qed simp

end
