(* ===== verification/Player_System.thy ===== *)
theory Player_System
  imports Main_Loop "HOL-Library.Sublist"
begin

text \<open>
  The threads of one session and the three bounded channels of \<^verbatim>\<open>vibe/src/main.rs\<close> between them.
  The event loop takes an event, handles it (theory \<^verbatim>\<open>Player\<close>) and then carries out the effects
  of the handler one by one; a send into a full channel waits.  Timer threads, connecting threads
  and the callbacks of the audio output post to the event loop.  The protocol thread passes the
  server's messages on, one at a time, and reports the loss of the connection; each connection has
  a write thread, which takes messages from the channel to the server and ends when a send fails.
  A thread that reports its status holds the lock of the status block until its message is in the
  channel.  The session lasts until the event loop takes the notice that the connection is lost.

  A handler changes the state of the player at once and its effects follow: the waits inside a
  handler, for the lock or an operation of an audio library, are not steps.  In the source an
  output posts \<^verbatim>\<open>StreamEstablished\<close> before its last change of state.
\<close>

section \<open>State\<close>

definition STREAM_CHANNEL :: nat where
  "STREAM_CHANNEL = 10"

definition SLIM_CHANNEL :: nat where
  "SLIM_CHANNEL = 1"

text \<open>The threads the handlers start, by what they still have to do: sleep and post; sleep, post and
  report; report; connect; post messages.\<close>

datatype thread =
    PauseThread instant
  | ResumeThread instant duration
  | ResumeReport duration
  | Connecting ipv4 stream_cmd string
  | Posting "player_msg list"

text \<open>The protocol thread: connecting, reading, about to pass on a message, about to report the loss
  of the connection (and then to connect to another server, or to end), ended.\<close>

datatype proto_thread = Dialing | Reading | Passing server_message | Leaving bool | Gone

text \<open>A write thread: the message it is sending, what the connection has taken, and whether it has
  ended.\<close>

record write_thread =
  wt_sending :: "client_message option"
  wt_sent :: "client_message list"
  wt_ended :: bool

definition write_thread_new :: write_thread where
  "write_thread_new = \<lparr>wt_sending = None, wt_sent = [], wt_ended = False\<rparr>"

text \<open>The rest of its loop body, once the send has returned.\<close>

definition write_done :: "client_message \<Rightarrow> unit io_result \<Rightarrow> write_thread \<Rightarrow> write_thread" where
  "write_done msg result w =
     (let (message, terminate) = (if msg = Bye 1 then (Bye 0, True) else (msg, False))
      in w\<lparr>wt_sending := None, wt_sent := wt_sent w @ (if isl result then [] else [message]),
           wt_ended := isl result \<or> terminate\<rparr>)"

record 'o system =
  sy_player :: "'o player"
  sy_pending :: "effect list"
  sy_reporting :: "effect list"
  sy_callback :: "player_msg list"
  sy_threads :: "thread list"
  sy_inbox :: "player_msg list"
  sy_inbound :: "server_message option list"
  sy_outbox :: "client_message list"
  sy_proto :: proto_thread
  sy_writers :: "write_thread list"
  sy_clock :: instant

text \<open>The lock of the status block is held while a status message waits to be sent.\<close>

definition status_free :: "'o system \<Rightarrow> bool" where
  "status_free s \<longleftrightarrow> stats (sy_pending s) = [] \<and> sy_reporting s = []"

definition post_stream :: "player_msg \<Rightarrow> 'o system \<Rightarrow> 'o system option" where
  "post_stream m s =
     (if length (sy_inbox s) < STREAM_CHANNEL then Some (s\<lparr>sy_inbox := sy_inbox s @ [m]\<rparr>) else None)"

text \<open>The channel to the server has a receiver as long as the protocol thread or a write thread runs;
  after that a send fails, which the senders ignore.\<close>

definition channel_open :: "'o system \<Rightarrow> bool" where
  "channel_open s \<longleftrightarrow> sy_proto s \<noteq> Gone \<or> \<not> list_all wt_ended (sy_writers s)"

definition tell_server :: "client_message \<Rightarrow> 'o system \<Rightarrow> 'o system option" where
  "tell_server m s =
     (if \<not> channel_open s then Some s
      else if length (sy_outbox s) < SLIM_CHANNEL then Some (s\<lparr>sy_outbox := sy_outbox s @ [m]\<rparr>) else None)"

definition spawn_thread :: "thread \<Rightarrow> 'o system \<Rightarrow> 'o system" where
  "spawn_thread t s = s\<lparr>sy_threads := sy_threads s @ [t]\<rparr>"

section \<open>Steps\<close>

text \<open>An effect of a handler, carried out by the event loop; \<open>None\<close> if it has to wait.\<close>

fun carry_out :: "effect \<Rightarrow> 'o system \<Rightarrow> 'o system option" where
  "carry_out (SlimSend m) s = tell_server m s"
| "carry_out (StreamSend m) s = post_stream m s"
| "carry_out (PauseTimer d) s = Some (spawn_thread (PauseThread (sy_clock s + as_nanos d)) s)"
| "carry_out (ResumeTimer d play_time) s =
     Some (spawn_thread (ResumeThread (sy_clock s + as_nanos d) play_time) s)"
| "carry_out (StreamConnect ip cmd headers) s = Some (spawn_thread (Connecting ip cmd headers) s)"
| "carry_out (NotifyTags tags) s = Some s"

text \<open>A step of a thread: what becomes of the thread and the new state.\<close>

fun thread_step :: "thread \<Rightarrow> 'o system \<Rightarrow> (thread list \<times> 'o system) option" where
  "thread_step (PauseThread t) s =
     (if t \<le> sy_clock s then map_option (Pair []) (post_stream player_msg.Unpause s) else None)"
| "thread_step (ResumeThread t play_time) s =
     (if t \<le> sy_clock s then map_option (Pair [ResumeReport play_time]) (post_stream player_msg.Unpause s)
      else None)"
| "thread_step (ResumeReport play_time) s =
     (if status_free s then
        (let (p, effs) = status_message (sy_clock s) (set_elapsed play_time) Resume (sy_player s)
         in Some ([], s\<lparr>sy_player := p, sy_reporting := effs\<rparr>))
      else None)"
| "thread_step (Connecting ip cmd headers) s = None"
| "thread_step (Posting []) s = Some ([], s)"
| "thread_step (Posting (m # ms)) s = map_option (Pair [Posting ms]) (post_stream m s)"

text \<open>What a callback of an output does to the shared state, and what it posts.\<close>

inductive output_callback :: "globals \<Rightarrow> globals \<Rightarrow> player_msg list \<Rightarrow> bool" where
  rodio_callback: "source_next capacity g src = Done (src', g', sample, msgs) \<Longrightarrow>
    output_callback g g' msgs"
| pulse_callback: "on_write len latency capacity g w = Done (w', g', msgs, written) \<Longrightarrow>
    output_callback g g' msgs"
| pulse_underflow: "output_callback g g (on_underflow w)"
| pipewire_callback: "on_process capacity capacity' room time g c p = Done (p', g', c', msgs, action) \<Longrightarrow>
    output_callback g g' msgs"
| pipewire_state: "on_state_change old new c = (c', msgs) \<Longrightarrow> output_callback g g msgs"
| pipewire_drained: "output_callback g g on_drained_callback"

text \<open>What the stream buffer of a decoder does to the status block.\<close>

inductive buffer_update :: "(status_data \<Rightarrow> status_data) \<Rightarrow> bool" where
  "buffer_update (set_buffer_size n)"
| "buffer_update (set_fullness n)"
| "buffer_update (add_bytes_received k)"

inductive sys_step ::
    "'o audio_output \<Rightarrow> (string \<Rightarrow> string option \<Rightarrow> 'o anyhow run) \<Rightarrow> 'o system \<Rightarrow> 'o system \<Rightarrow> bool"
  for ops :: "'o audio_output" and make_out :: "string \<Rightarrow> string option \<Rightarrow> 'o anyhow run" where
  server_message: "sy_pending s = [] \<Longrightarrow> sy_inbound s = Some m # ms \<Longrightarrow>
    event_step ops make_out (sy_clock s) (SlimMsg m) (sy_player s) = Done (Continue p, effs) \<Longrightarrow>
    status_free s \<or> STATUS (p_globals p) = STATUS (p_globals (sy_player s)) \<and> stats effs = [] \<Longrightarrow>
    sys_step ops make_out s (s\<lparr>sy_player := p, sy_pending := effs, sy_inbound := ms\<rparr>)"
| player_message: "sy_pending s = [] \<Longrightarrow> sy_inbox s = m # ms \<Longrightarrow>
    event_step ops make_out (sy_clock s) (StreamMsg m) (sy_player s) = Done (Continue p, effs) \<Longrightarrow>
    status_free s \<or> STATUS (p_globals p) = STATUS (p_globals (sy_player s)) \<and> stats effs = [] \<Longrightarrow>
    sys_step ops make_out s (s\<lparr>sy_player := p, sy_pending := effs, sy_inbox := ms\<rparr>)"
| timeout: "sy_pending s = [] \<Longrightarrow>
    event_step ops make_out (sy_clock s) Timeout (sy_player s) = Done (Continue p, effs) \<Longrightarrow>
    status_free s \<or> STATUS (p_globals p) = STATUS (p_globals (sy_player s)) \<and> stats effs = [] \<Longrightarrow>
    sys_step ops make_out s (s\<lparr>sy_player := p, sy_pending := effs\<rparr>)"
| loop_effect: "sy_pending s = e # es \<Longrightarrow> carry_out e s = Some t \<Longrightarrow>
    sys_step ops make_out s (t\<lparr>sy_pending := es\<rparr>)"
| thread: "sy_threads s = xs @ th # ys \<Longrightarrow> thread_step th s = Some (ths, t) \<Longrightarrow>
    sys_step ops make_out s (t\<lparr>sy_threads := xs @ ths @ ys\<rparr>)"
| connect: "sy_threads s = xs @ Connecting ip cmd headers # ys \<Longrightarrow>
    stream_connect sy net mss fin st ip cmd headers = msgs \<Longrightarrow>
    sys_step ops make_out s (s\<lparr>sy_threads := xs @ Posting msgs # ys\<rparr>)"
| report: "sy_reporting s = e # es \<Longrightarrow> carry_out e s = Some t \<Longrightarrow>
    sys_step ops make_out s (t\<lparr>sy_reporting := es\<rparr>)"
| callback: "sy_callback s = [] \<Longrightarrow> output_callback (p_globals (sy_player s)) g msgs \<Longrightarrow>
    status_free s \<or> STATUS g = STATUS (p_globals (sy_player s)) \<Longrightarrow>
    sys_step ops make_out s (s\<lparr>sy_player := (sy_player s)\<lparr>p_globals := g\<rparr>, sy_callback := msgs\<rparr>)"
| callback_post: "sy_callback s = m # ms \<Longrightarrow> post_stream m s = Some t \<Longrightarrow>
    sys_step ops make_out s (t\<lparr>sy_callback := ms\<rparr>)"
| buffer: "status_free s \<Longrightarrow> buffer_update f \<Longrightarrow>
    sys_step ops make_out s (s\<lparr>sy_player := update_status f (sy_player s)\<rparr>)"
| proto_connects: "sy_proto s = Dialing \<Longrightarrow>
    sys_step ops make_out s (s\<lparr>sy_proto := Reading, sy_writers := sy_writers s @ [write_thread_new]\<rparr>)"
| proto_receives: "sy_proto s = Reading \<Longrightarrow> server_message_from b = Some m \<Longrightarrow> \<not> is_serv m \<Longrightarrow>
    sys_step ops make_out s (s\<lparr>sy_proto := Passing m\<rparr>)"
| proto_passes: "sy_proto s = Passing m \<Longrightarrow> length (sy_inbound s) < SLIM_CHANNEL \<Longrightarrow>
    sys_step ops make_out s (s\<lparr>sy_inbound := sy_inbound s @ [Some m], sy_proto := Reading\<rparr>)"
| proto_leaves: "sy_proto s = Reading \<Longrightarrow> sys_step ops make_out s (s\<lparr>sy_proto := Leaving again\<rparr>)"
| proto_reports: "sy_proto s = Leaving again \<Longrightarrow> length (sy_inbound s) < SLIM_CHANNEL \<Longrightarrow>
    sys_step ops make_out s
      (s\<lparr>sy_inbound := sy_inbound s @ [None], sy_proto := if again then Dialing else Gone\<rparr>)"
| proto_panics: "sy_proto s = Reading \<Longrightarrow> sys_step ops make_out s (s\<lparr>sy_proto := Gone\<rparr>)"
| writer_takes: "sy_writers s = xs @ w # ys \<Longrightarrow> \<not> wt_ended w \<Longrightarrow> wt_sending w = None \<Longrightarrow>
    sy_outbox s = m # ms \<Longrightarrow>
    sys_step ops make_out s
      (s\<lparr>sy_outbox := ms, sy_writers := xs @ w\<lparr>wt_sending := Some m\<rparr> # ys\<rparr>)"
| writer_sends: "sy_writers s = xs @ w # ys \<Longrightarrow> \<not> wt_ended w \<Longrightarrow> wt_sending w = Some m \<Longrightarrow>
    sys_step ops make_out s (s\<lparr>sy_writers := xs @ write_done m result w # ys\<rparr>)"
| tick: "sy_clock s \<le> now \<Longrightarrow> sys_step ops make_out s (s\<lparr>sy_clock := now\<rparr>)"

text \<open>A session starts with an idle player and a protocol thread that has no connection yet.\<close>

definition session_start :: "'o player \<Rightarrow> instant \<Rightarrow> 'o system" where
  "session_start p now =
     \<lparr>sy_player = p, sy_pending = [], sy_reporting = [], sy_callback = [], sy_threads = [],
      sy_inbox = [], sy_inbound = [], sy_outbox = [], sy_proto = Dialing, sy_writers = [],
      sy_clock = now\<rparr>"

section \<open>The shared state\<close>

definition unit_volume :: "f32 \<Rightarrow> bool" where
  "unit_volume v \<longleftrightarrow> \<not> f32_neg v \<and> f32_mag v \<le> f32_mag f32_one"

text \<open>Two volumes between 0 and 1, no lock poisoned, and the status block counts from \<open>t0\<close>.\<close>

definition globals_ok :: "instant \<Rightarrow> globals \<Rightarrow> bool" where
  "globals_ok t0 g \<longleftrightarrow>
     \<not> poisoned (VOLUME g) \<and> length (guarded (VOLUME g)) = 2 \<and>
     list_all unit_volume (guarded (VOLUME g)) \<and>
     \<not> poisoned (STATUS g) \<and> start (guarded (STATUS g)) = t0"

definition sys_init :: "instant \<Rightarrow> 'o system \<Rightarrow> bool" where
  "sys_init t0 s \<longleftrightarrow>
     s = session_start (sy_player s) (sy_clock s) \<and> globals_ok t0 (p_globals (sy_player s))"


text \<open>What handling an event does: the shared state stays well-formed, and at most one status message
  is made, from the status block as it is then and stamped with the clock.\<close>

definition reports :: "instant \<Rightarrow> instant \<Rightarrow> globals \<Rightarrow> effect list \<Rightarrow> bool" where
  "reports t0 now g effs \<longleftrightarrow>
     globals_ok t0 g \<and>
     (stats effs = [] \<or>
      (\<exists>code. stats effs = [(code, guarded (STATUS g))] \<and>
         jiffies (guarded (STATUS g)) = Duration (now - t0)))"

lemma globals_ok_parts:
  assumes "globals_ok t0 g"
  obtains l r st where "VOLUME g = Mutex False [l, r]" "unit_volume l" "unit_volume r"
    "STATUS g = Mutex False st" "start st = t0"
proof -
  obtain l r where "guarded (VOLUME g) = [l, r]"
    using assms by (auto simp: globals_ok_def length_Suc_conv numeral_2_eq_2)
  moreover obtain st where "STATUS g = Mutex False st"
    using assms by (cases "STATUS g") (auto simp: globals_ok_def)
  ultimately show ?thesis using assms that by (cases "VOLUME g") (auto simp: globals_ok_def)
qed

lemma globals_ok_update [simp]:
  "globals_ok t0 (g\<lparr>SKIP := d\<rparr>) = globals_ok t0 g"
  "(\<And>st. start (f st) = start st) \<Longrightarrow>
    globals_ok t0 (g\<lparr>STATUS := update_locked f (STATUS g)\<rparr>) = globals_ok t0 g"
  "(\<And>st. start (f st) = start st) \<Longrightarrow>
    globals_ok t0 (g\<lparr>SKIP := d, STATUS := update_locked f (STATUS g)\<rparr>) = globals_ok t0 g"
  by (cases "STATUS g"; auto simp: globals_ok_def)+

lemma p_globals_update_status:
  "p_globals (update_status f p) = (p_globals p)\<lparr>STATUS := update_locked f (STATUS (p_globals p))\<rparr>"
  by (simp add: update_status_def)

lemma status_message_reports:
  assumes "globals_ok t0 (p_globals p)" "\<And>st. start (f st) = start st"
    and "status_message now f code p = (p', effs)"
  shows "reports t0 now (p_globals p') effs"
proof -
  obtain st where st: "STATUS (p_globals p) = Mutex False st" "start st = t0"
    using assms(1) by (rule globals_ok_parts)
  then have "p' = update_status (\<lambda>_. (f st)\<lparr>jiffies := Duration (now - t0)\<rparr>) p"
    "effs = [SlimSend (Stat (show_status_code code) ((f st)\<lparr>jiffies := Duration (now - t0)\<rparr>))]"
    using assms(2,3) by (simp_all add: status_message_open [OF st(1)] Let_def)
  then show ?thesis using assms(1,2) st
    by (simp add: reports_def p_globals_update_status) (simp add: globals_ok_def)
qed

lemma reports_silent: "globals_ok t0 g \<Longrightarrow> stats effs = [] \<Longrightarrow> reports t0 now g effs"
  by (simp add: reports_def)

lemma stats_posts [simp]: "stats (map StreamSend msgs) = []"
  by (induction msgs) simp_all

lemma start_setters [simp]:
  "start (set_elapsed d st) = start st" "start (clear_playback st) = start st"
  "start (set_elapsed_seconds n st) = start st" "start (set_elapsed_milli_seconds n st) = start st"
  "start (set_timestamp d st) = start st" "start (add_crlf b st) = start st"
  "start (set_output_buffer_fullness n st) = start st" "start (set_output_buffer_size n st) = start st"
  by (simp_all add: set_elapsed_def clear_playback_def status_setters)

lemma parsed_gain:
  assumes "server_message_from b = Some (Gain l r)"
  shows "\<exists>v w. l = gain_of v \<and> r = gain_of w"
proof -
  have "parse_stream buf \<noteq> Some (Gain l r)" for buf
    unfolding parse_stream_def Let_def by (auto simp: bind_Some or_error_Some)
  then have "parse_strm msg buf \<noteq> Some (Gain l r)" for msg buf
    by (auto simp: parse_strm_def bind_Some split: if_splits)
  then show ?thesis using assms
    by (auto simp: server_message_from_def parse_serv_def parse_aude_def parse_audg_def parse_setd_def
        bind_Some Let_def split: if_splits option.splits)
qed

lemma unit_gain_volume: "unit_volume (gain_volume (gain_of w))"
  using gain_volume_bounds [of w] by (simp add: unit_volume_def)

lemma on_gain_ok:
  "globals_ok t0 (p_globals p) \<Longrightarrow>
    globals_ok t0 (p_globals (fst (on_gain (gain_of v) (gain_of w) p)))"
  by (erule globals_ok_parts) (simp add: on_gain_def globals_ok_def unit_gain_volume)

lemma server_message_reports:
  assumes "globals_ok t0 (p_globals p)" "server_message_from b = Some m"
    and "handle_server_message ops make_out now m p = Done (p', effs)"
  shows "reports t0 now (p_globals p') effs"
proof (cases m)
  case (Gain l r)
  then obtain v w where "l = gain_of v" "r = gain_of w" using assms(2) parsed_gain by blast
  then show ?thesis using assms Gain on_gain_ok [of t0 p v w]
    by (intro reports_silent) (auto simp: handle_server_message_def on_gain_def)
qed (use assms in \<open>auto simp: handle_server_message_def server_handlers p_globals_update_status Let_def
        split: option.splits if_splits prod.splits run.splits sum.splits
        intro: reports_silent status_message_reports [rotated 2]\<close>)

lemma player_message_reports:
  assumes "globals_ok t0 (p_globals p)"
    and "handle_player_message ops now m p = Done (p', effs)"
  shows "reports t0 now (p_globals p') effs"
  using assms
  by (cases m)
    (auto simp: handle_player_message_def player_handlers p_globals_update_status map_run_Done Let_def
      split: option.splits if_splits prod.splits
      intro: reports_silent status_message_reports [rotated 2])

lemma event_step_reports:
  assumes "globals_ok t0 (p_globals p)" "event_step ops make_out now ev p = Done (Continue p', effs)"
    and "\<And>m. ev = SlimMsg m \<Longrightarrow> \<exists>b. server_message_from b = Some m"
  shows "reports t0 now (p_globals p') effs"
proof (cases ev)
  case (SlimMsg m)
  then show ?thesis
    using assms by (auto simp: event_step_def map_run_Done intro: server_message_reports)
next
  case (StreamMsg m)
  then show ?thesis
    using assms by (auto simp: event_step_def map_run_Done intro: player_message_reports)
next
  case Timeout
  then show ?thesis
    using assms(1,2) status_message_reports [OF assms(1), of "set_elapsed (current_play_time ops p)" now Timer]
    by (cases "status_message now (set_elapsed (current_play_time ops p)) Timer p") (simp add: event_step_def)
qed (use assms(2) in \<open>simp_all add: event_step_def\<close>)

lemma report_fullness_ok: "globals_ok t0 (report_fullness capacity held g) = globals_ok t0 g"
  by (simp add: report_fullness_def)

lemma output_callback_ok: "output_callback g g' msgs \<Longrightarrow> globals_ok t0 g \<Longrightarrow> globals_ok t0 g'"
proof (induction rule: output_callback.induct)
  case (rodio_callback capacity g src src' g' sample msgs)
  then show ?case
    by (auto simp: source_next_def source_pop_def take_skip_def Let_def
        split: if_splits list.splits run.splits)
next
  case (pulse_callback len latency capacity g w w' g' msgs written)
  have chunk: "write_chunk len latency capacity g v = Done (v', h, ms, out) \<Longrightarrow> globals_ok t0 h" for v v' h ms out
    using pulse_callback(2)
    by (auto simp: write_chunk_def take_skip_def report_fullness_ok Let_def
        split: option.splits sum.splits if_splits)
  show ?case using pulse_callback chunk
    by (auto simp: on_write_def Let_def split: if_splits run.splits)
next
  case (pipewire_callback capacity capacity' room time g c p p' g' c' msgs action)
  then show ?case
    by (auto simp: on_process_def take_skip_def process_status_def report_fullness_ok Let_def
        split: if_splits run.splits option.splits prod.splits)
qed simp_all

section \<open>Invariants\<close>

text \<open>What a write thread has taken, and the status messages that a connection which has taken \<open>ms\<close>
  gets next, in their order.\<close>

definition taken :: "write_thread \<Rightarrow> client_message list" where
  "taken w = wt_sent w @ (case wt_sending w of None \<Rightarrow> [] | Some m \<Rightarrow> [m])"

definition made :: "client_message list \<Rightarrow> 'o system \<Rightarrow> (string \<times> status_data) list" where
  "made ms s =
     stats (map SlimSend (ms @ sy_outbox s)) @ stats (sy_pending s) @ stats (sy_reporting s)"

definition channels_ok :: "'o system \<Rightarrow> bool" where
  "channels_ok s \<longleftrightarrow>
     length (sy_inbox s) \<le> STREAM_CHANNEL \<and> length (sy_outbox s) \<le> SLIM_CHANNEL \<and>
     length (sy_inbound s) \<le> SLIM_CHANNEL"

text \<open>What the protocol thread passes on comes from the parser.\<close>

definition parsed :: "server_message \<Rightarrow> bool" where
  "parsed m \<longleftrightarrow> (\<exists>b. server_message_from b = Some m)"

definition parsed_ok :: "'o system \<Rightarrow> bool" where
  "parsed_ok s \<longleftrightarrow>
     (\<forall>m. Some m \<in> set (sy_inbound s) \<longrightarrow> parsed m) \<and> (\<forall>m. sy_proto s = Passing m \<longrightarrow> parsed m)"

text \<open>The lock of the status block has at most one holder.\<close>

definition lock_ok :: "'o system \<Rightarrow> bool" where
  "lock_ok s \<longleftrightarrow>
     (sy_reporting s = [] \<or> (\<exists>code st. sy_reporting s = [SlimSend (Stat code st)])) \<and>
     length (stats (sy_pending s)) + length (sy_reporting s) \<le> 1"

definition clock_list :: "instant \<Rightarrow> instant \<Rightarrow> (string \<times> status_data) list \<Rightarrow> bool" where
  "clock_list t0 now ms \<longleftrightarrow>
     sorted (map (\<lambda>(_, st). jiffies st) ms) \<and>
     list_all (\<lambda>(_, st). jiffies st \<le> Duration (now - t0)) ms"

text \<open>That includes the connection that has taken nothing yet.\<close>

definition takens :: "'o system \<Rightarrow> client_message list set" where
  "takens s = insert [] (taken ` set (sy_writers s))"

definition clock_ok :: "instant \<Rightarrow> 'o system \<Rightarrow> bool" where
  "clock_ok t0 s \<longleftrightarrow> (\<forall>ms \<in> takens s. clock_list t0 (sy_clock s) (made ms s))"

definition sys_inv :: "instant \<Rightarrow> 'o system \<Rightarrow> bool" where
  "sys_inv t0 s \<longleftrightarrow>
     globals_ok t0 (p_globals (sy_player s)) \<and> channels_ok s \<and> parsed_ok s \<and> lock_ok s \<and>
     clock_ok t0 s"

lemma stats_append [simp]: "stats (a @ b) = stats a @ stats b"
  by (induction a rule: stats.induct) simp_all

lemma sorted_subseq: "subseq xs ys \<Longrightarrow> sorted ys \<Longrightarrow> sorted (xs :: 'a :: linorder list)"
proof (induction xs ys rule: list_emb.induct)
  case (list_emb_Cons2 x y xs ys)
  then show ?case using list_emb_set [of "(=)" xs ys] by fastforce
qed auto

lemma clock_list_sub:
  assumes "subseq ms ns" "now \<le> now'" "clock_list t0 now ns"
  shows "clock_list t0 now' ms"
proof -
  have "sorted (map (\<lambda>(_, st). jiffies st) ms)"
    using sorted_subseq [OF subseq_map [OF assms(1)]] assms(3) unfolding clock_list_def by blast
  moreover have "Duration (now - t0) \<le> Duration (now' - t0)"
    using assms(2) by (simp add: less_eq_duration_def)
  then have "list_all (\<lambda>(_, st). jiffies st \<le> Duration (now' - t0)) ns"
    using assms(3) by (auto simp: clock_list_def list_all_iff intro: order.trans)
  then have "list_all (\<lambda>(_, st). jiffies st \<le> Duration (now' - t0)) ms"
    using list_emb_set [OF assms(1)] by (fastforce simp: list_all_iff)
  ultimately show ?thesis by (simp add: clock_list_def)
qed

text \<open>As long as the clock fits into 32 bits of milliseconds, so do the values that are sent.\<close>

lemma clock_list_u32:
  assumes "clock_list t0 now ms" "as_millis (Duration (now - t0)) < 2 ^ 32"
  shows "sorted (map (\<lambda>(_, st). unat (millis_try_u32 (jiffies st))) ms)"
proof -
  have u: "unat (millis_try_u32 (jiffies st)) = as_millis (jiffies st)" if "(c, st) \<in> set ms" for c st
  proof -
    have "jiffies st \<le> Duration (now - t0)" using assms(1) that by (auto simp: clock_list_def list_all_iff)
    then have "as_millis (jiffies st) \<le> as_millis (Duration (now - t0))"
      by (simp add: as_millis_def less_eq_duration_def div_le_mono)
    then show ?thesis using assms(2) by (simp add: millis_try_u32_def unat_of_nat)
  qed
  have "map (\<lambda>(_, st). unat (millis_try_u32 (jiffies st))) ms = map as_millis (map (\<lambda>(_, st). jiffies st) ms)"
    using u by auto
  moreover have "sorted (map as_millis ds)" if "sorted ds" for ds
    using that by (induction ds) (auto simp: as_millis_def less_eq_duration_def div_le_mono)
  ultimately show ?thesis using assms(1) by (simp only: clock_list_def)
qed

lemma clock_ok_sub:
  assumes "\<And>ms. ms \<in> takens t \<Longrightarrow> \<exists>ms' \<in> takens s. subseq (made ms t) (made ms' s)"
    and "sy_clock s \<le> sy_clock t" and "clock_ok t0 s"
  shows "clock_ok t0 t"
  using assms clock_list_sub unfolding clock_ok_def by metis

lemma clock_ok_same:
  assumes "takens t = takens s" "\<And>ms. subseq (made ms t) (made ms s)" "sy_clock s \<le> sy_clock t"
    and "clock_ok t0 s"
  shows "clock_ok t0 t"
  using assms(1,2) by (intro clock_ok_sub [OF _ assms(3,4)]) auto

lemma clock_ok_snoc:
  "clock_ok t0 s \<Longrightarrow> takens t = takens s \<Longrightarrow> (\<And>ms. made ms t = made ms s @ [(code, st)]) \<Longrightarrow>
    sy_clock t = sy_clock s \<Longrightarrow> jiffies st = Duration (sy_clock s - t0) \<Longrightarrow> clock_ok t0 t"
  by (auto simp: clock_ok_def clock_list_def list_all_iff sorted_append)

text \<open>The event loop takes an event.\<close>

lemma takens_update [simp]:
  "takens (s\<lparr>sy_player := p\<rparr>) = takens s" "takens (s\<lparr>sy_pending := es\<rparr>) = takens s"
  "takens (s\<lparr>sy_reporting := es\<rparr>) = takens s" "takens (s\<lparr>sy_callback := x\<rparr>) = takens s"
  "takens (s\<lparr>sy_threads := ts\<rparr>) = takens s" "takens (s\<lparr>sy_inbox := ib\<rparr>) = takens s"
  "takens (s\<lparr>sy_inbound := inb\<rparr>) = takens s" "takens (s\<lparr>sy_outbox := ob\<rparr>) = takens s"
  "takens (s\<lparr>sy_proto := pt\<rparr>) = takens s" "takens (s\<lparr>sy_clock := now\<rparr>) = takens s"
  by (simp_all add: takens_def)

lemma made_update [simp]:
  "made ms (s\<lparr>sy_player := p\<rparr>) = made ms s" "made ms (s\<lparr>sy_callback := x\<rparr>) = made ms s"
  "made ms (s\<lparr>sy_threads := ts\<rparr>) = made ms s" "made ms (s\<lparr>sy_inbox := ib\<rparr>) = made ms s"
  "made ms (s\<lparr>sy_inbound := inb\<rparr>) = made ms s" "made ms (s\<lparr>sy_writers := ws\<rparr>) = made ms s"
  "made ms (s\<lparr>sy_proto := pt\<rparr>) = made ms s" "made ms (s\<lparr>sy_clock := now\<rparr>) = made ms s"
  by (simp_all add: made_def)

lemma loop_inv:
  assumes "sys_inv t0 s" "sy_pending s = []" "reports t0 (sy_clock s) (p_globals p) effs"
    and "status_free s \<or> stats effs = []" and "length inbox \<le> length (sy_inbox s)"
    and "length inbound \<le> length (sy_inbound s)" "set inbound \<subseteq> set (sy_inbound s)"
  shows "sys_inv t0 (s\<lparr>sy_player := p, sy_pending := effs, sy_inbox := inbox, sy_inbound := inbound\<rparr>)"
proof -
  let ?t = "s\<lparr>sy_player := p, sy_pending := effs, sy_inbox := inbox, sy_inbound := inbound\<rparr>"
  have inv: "clock_ok t0 s" using assms(1) by (simp add: sys_inv_def)
  have "clock_ok t0 ?t"
  proof (cases "stats effs = []")
    case True
    then have "made ms ?t = made ms s" for ms using assms(2) by (simp add: made_def)
    then show ?thesis by (rule_tac clock_ok_same [OF _ _ _ inv]) simp_all
  next
    case False
    then obtain code where "stats effs = [(code, guarded (STATUS (p_globals p)))]"
      "jiffies (guarded (STATUS (p_globals p))) = Duration (sy_clock s - t0)" "sy_reporting s = []"
      using assms(3,4) by (auto simp: reports_def status_free_def)
    then show ?thesis using assms(2) by (rule_tac clock_ok_snoc [OF inv]) (simp_all add: made_def)
  qed
  moreover have "length (stats effs) \<le> 1" using assms(3) by (auto simp: reports_def)
  ultimately show ?thesis
    using assms by (auto simp: sys_inv_def reports_def channels_ok_def parsed_ok_def lock_ok_def status_free_def)
qed

text \<open>A send, or the start of a thread.\<close>

lemma post_stream_Some:
  "post_stream m s = Some t \<longleftrightarrow>
    length (sy_inbox s) < STREAM_CHANNEL \<and> t = s\<lparr>sy_inbox := sy_inbox s @ [m]\<rparr>"
  by (auto simp: post_stream_def)

lemma tell_server_Some:
  "tell_server m s = Some t \<longleftrightarrow>
    (if channel_open s
     then length (sy_outbox s) < SLIM_CHANNEL \<and> t = s\<lparr>sy_outbox := sy_outbox s @ [m]\<rparr>
     else t = s)"
  by (auto simp: tell_server_def)

lemmas sys_inv_defs = sys_inv_def channels_ok_def parsed_ok_def lock_ok_def clock_ok_def

lemma post_inv:
  assumes "post_stream m s = Some t" "sys_inv t0 s"
  shows "sys_inv t0 t"
proof -
  have t: "t = s\<lparr>sy_inbox := sy_inbox s @ [m]\<rparr>" "length (sy_inbox s) < STREAM_CHANNEL"
    using assms(1) by (simp_all add: post_stream_Some)
  show ?thesis using assms(2) t(2) unfolding t(1) by (simp add: sys_inv_defs)
qed

lemma sys_inv_silent [simp]:
  "sys_inv t0 (s\<lparr>sy_callback := x\<rparr>) = sys_inv t0 s" "sys_inv t0 (s\<lparr>sy_threads := ts\<rparr>) = sys_inv t0 s"
  by (simp_all add: sys_inv_defs)

lemma sys_inv_pending:
  "sys_inv t0 s \<Longrightarrow> stats es = stats (sy_pending s) \<Longrightarrow> sys_inv t0 (s\<lparr>sy_pending := es\<rparr>)"
  by (simp add: sys_inv_defs made_def)

lemma stats_Cons: "stats (e # es) = stats [e] @ stats es"
  using stats_append [of "[e]" es] by simp

text \<open>A status message goes into the channel, or is lost because nobody receives from it.\<close>

lemma tell_made:
  assumes "tell_server m s = Some t"
  shows "subseq (made ms (t\<lparr>sy_pending := es\<rparr>)) (stats (map SlimSend (ms @ sy_outbox s)) @ stats [SlimSend m] @
      stats es @ stats (sy_reporting s))"
    and "subseq (stats (map SlimSend (ms @ sy_outbox t))) (stats (map SlimSend (ms @ sy_outbox s)) @ stats [SlimSend m])"
  using assms by (auto simp: tell_server_Some made_def subseq_append' subseq_rev_drop_many split: if_splits)

lemma carry_out_inv:
  assumes "sys_inv t0 s" "sy_pending s = e # es" "carry_out e s = Some t"
  shows "sys_inv t0 (t\<lparr>sy_pending := es\<rparr>)"
proof (cases e)
  case (SlimSend m)
  then have tell: "tell_server m s = Some t" using assms(3) by simp
  then have t: "t = s \<or> length (sy_outbox s) < SLIM_CHANNEL \<and> t = s\<lparr>sy_outbox := sy_outbox s @ [m]\<rparr>"
    by (simp add: tell_server_Some split: if_splits)
  have "subseq (made ms (t\<lparr>sy_pending := es\<rparr>)) (made ms s)" for ms
    using tell_made(1) [OF tell, of ms es] assms(2) SlimSend stats_Cons [of e es] by (simp add: made_def)
  then have "clock_ok t0 (t\<lparr>sy_pending := es\<rparr>)"
    using t assms(1) by (rule_tac clock_ok_same [of _ s]) (auto simp: sys_inv_def)
  moreover have "length (stats es) \<le> length (stats (sy_pending s))"
    using assms(2) stats_Cons [of e es] by simp
  ultimately show ?thesis using assms(1) t
    by (auto simp: sys_inv_def channels_ok_def parsed_ok_def lock_ok_def)
next
  case (StreamSend m)
  then have "sys_inv t0 t" using assms(1,3) by (auto intro: post_inv)
  moreover have "sy_pending t = sy_pending s" using assms(3) StreamSend by (auto simp: post_stream_Some)
  ultimately show ?thesis using assms(2) StreamSend by (intro sys_inv_pending) simp_all
qed (use assms in \<open>auto simp: spawn_thread_def sys_inv_pending\<close>)

lemma report_inv:
  assumes "sys_inv t0 s" "sy_reporting s = e # es" "carry_out e s = Some t"
  shows "sys_inv t0 (t\<lparr>sy_reporting := es\<rparr>)"
proof -
  obtain code st where e: "e = SlimSend (Stat code st)" "es = []" "stats (sy_pending s) = []"
    using assms(1,2) by (auto simp: sys_inv_def lock_ok_def)
  then have tell: "tell_server (Stat code st) s = Some t" using assms(3) by simp
  then have t: "t = s \<or> length (sy_outbox s) < SLIM_CHANNEL \<and> t = s\<lparr>sy_outbox := sy_outbox s @ [Stat code st]\<rparr>"
    by (simp add: tell_server_Some split: if_splits)
  then have "stats (sy_pending t) = []" using e(3) by auto
  then have "subseq (made ms (t\<lparr>sy_reporting := es\<rparr>)) (made ms s)" for ms
    using tell_made(2) [OF tell, of ms] assms(2) e by (simp add: made_def)
  then have "clock_ok t0 (t\<lparr>sy_reporting := es\<rparr>)"
    using t assms(1) by (rule_tac clock_ok_same [of _ s]) (auto simp: sys_inv_def)
  then show ?thesis using assms(1) e(2,3) t
    by (auto simp: sys_inv_def channels_ok_def parsed_ok_def lock_ok_def)
qed

lemma thread_inv:
  assumes "sys_inv t0 s" "thread_step th s = Some (ths, t)"
  shows "sys_inv t0 t"
  using assms
proof (induction th s rule: thread_step.induct)
  case (3 play_time s)
  obtain p effs where m: "status_message (sy_clock s) (set_elapsed play_time) Resume (sy_player s) = (p, effs)"
    by fastforce
  then have t: "t = s\<lparr>sy_player := p, sy_reporting := effs\<rparr>" and free: "status_free s"
    using "3.prems"(2) by (auto split: if_splits)
  have g: "globals_ok t0 (p_globals (sy_player s))" using "3.prems"(1) by (simp add: sys_inv_def)
  have r: "reports t0 (sy_clock s) (p_globals p) effs"
    using status_message_reports [OF g _ m] by simp
  obtain code st where effs: "effs = [SlimSend (Stat code st)]"
    using m g by (auto simp: status_message_def make_status_message_def globals_ok_def lock_def Let_def)
  then have "clock_ok t0 t"
    using "3.prems"(1) r free unfolding t
    by (rule_tac clock_ok_snoc [of t0 s _ code st])
      (auto simp: made_def status_free_def sys_inv_def reports_def)
  then show ?case using "3.prems"(1) r free effs
    by (auto simp: t sys_inv_def reports_def channels_ok_def parsed_ok_def lock_ok_def status_free_def)
qed (auto split: if_splits intro: post_inv)

text \<open>A write thread moves a message on, or loses it.\<close>

lemma writer_inv:
  assumes "sys_inv t0 s" "sy_writers s = xs @ w # ys" "length ob \<le> length (sy_outbox s)"
    and "\<And>ms. subseq (stats (map SlimSend (ms @ ob))) (stats (map SlimSend (ms @ sy_outbox s)))"
    and "subseq (stats (map SlimSend (taken w' @ ob))) (stats (map SlimSend (taken w @ sy_outbox s)))"
  shows "sys_inv t0 (s\<lparr>sy_outbox := ob, sy_writers := xs @ w' # ys\<rparr>)"
proof -
  let ?t = "s\<lparr>sy_outbox := ob, sy_writers := xs @ w' # ys\<rparr>"
  have sub: "subseq (made ms ?t) (made ms' s)"
    if "subseq (stats (map SlimSend (ms @ ob))) (stats (map SlimSend (ms' @ sy_outbox s)))" for ms ms'
    using list_emb_append_mono [OF that subseq_order.refl] by (simp add: made_def)
  have "\<exists>ms' \<in> takens s. subseq (made ms ?t) (made ms' s)" if "ms \<in> takens ?t" for ms
  proof (cases "ms = taken w'")
    case True
    then show ?thesis using sub [OF assms(5)] assms(2) by (intro bexI [of _ "taken w"]) (auto simp: takens_def)
  next
    case False
    then have "ms \<in> takens s" using that assms(2) by (auto simp: takens_def)
    then show ?thesis using sub [OF assms(4)] by blast
  qed
  then have "clock_ok t0 ?t" using assms(1) by (rule_tac clock_ok_sub [of _ s]) (simp_all add: sys_inv_def)
  then show ?thesis using assms(1,3) by (simp add: sys_inv_def channels_ok_def parsed_ok_def lock_ok_def)
qed

lemma writer_takes_inv:
  assumes "sys_inv t0 s" "sy_writers s = xs @ w # ys" "wt_sending w = None" "sy_outbox s = m # ms"
  shows "sys_inv t0 (s\<lparr>sy_outbox := ms, sy_writers := xs @ w\<lparr>wt_sending := Some m\<rparr> # ys\<rparr>)"
  using assms by (intro writer_inv [OF assms(1,2)])
    (auto simp: taken_def stats_Cons [of "SlimSend m" "map SlimSend ms"] subseq_append' subseq_drop_many)

lemma stats_result: "stats (map SlimSend (taken (write_done m r w))) =
    stats (map SlimSend (wt_sent w @ (if isl r then [] else [m])))"
  by (auto simp: taken_def write_done_def)

lemma writer_sends_inv:
  assumes "sys_inv t0 s" "sy_writers s = xs @ w # ys" "wt_sending w = Some m"
  shows "sys_inv t0 (s\<lparr>sy_writers := xs @ write_done m r w # ys\<rparr>)"
proof -
  have "subseq (stats (map SlimSend (taken (write_done m r w) @ sy_outbox s)))
      (stats (map SlimSend (taken w @ sy_outbox s)))"
    using assms(3) unfolding map_append stats_append stats_result
    by (auto simp: taken_def subseq_append' subseq_drop_many)
  from writer_inv [OF assms(1,2) _ _ this] show ?thesis by simp
qed

lemma proto_inv:
  assumes "sys_inv t0 s" "length inb \<le> SLIM_CHANNEL" "\<forall>m. Some m \<in> set inb \<longrightarrow> parsed m"
    and "\<forall>m. pt = Passing m \<longrightarrow> parsed m" "ws = sy_writers s \<or> ws = sy_writers s @ [write_thread_new]"
  shows "sys_inv t0 (s\<lparr>sy_inbound := inb, sy_proto := pt, sy_writers := ws\<rparr>)"
proof -
  have "taken write_thread_new = []" by (simp add: taken_def write_thread_new_def)
  then have "takens (s\<lparr>sy_inbound := inb, sy_proto := pt, sy_writers := ws\<rparr>) = takens s"
    using assms(5) by (auto simp: takens_def)
  then show ?thesis using assms(1-4)
    by (simp add: sys_inv_def channels_ok_def parsed_ok_def lock_ok_def clock_ok_def)
qed

lemma sys_step_inv:
  assumes "sys_step ops make_out s t" "sys_inv t0 s"
  shows "sys_inv t0 t"
  using assms
proof (induction rule: sys_step.induct)
  case (server_message s m ms p effs)
  then have "reports t0 (sy_clock s) (p_globals p) effs"
    using event_step_reports [of t0 "sy_player s" ops make_out "sy_clock s" "SlimMsg m" p effs]
    by (auto simp: sys_inv_def parsed_ok_def parsed_def)
  with loop_inv [OF server_message(5,1), of p effs "sy_inbox s" ms] server_message(2,4) show ?case by auto
next
  case (player_message s m ms p effs)
  then have "reports t0 (sy_clock s) (p_globals p) effs"
    using event_step_reports [of t0 "sy_player s" ops make_out "sy_clock s" "StreamMsg m" p effs]
    by (auto simp: sys_inv_def)
  with loop_inv [OF player_message(5,1), of p effs ms "sy_inbound s"] player_message(2,4) show ?case by auto
next
  case (timeout s p effs)
  then have "reports t0 (sy_clock s) (p_globals p) effs"
    using event_step_reports [of t0 "sy_player s" ops make_out "sy_clock s" Timeout p effs]
    by (auto simp: sys_inv_def)
  with loop_inv [OF timeout(4,1), of p effs "sy_inbox s" "sy_inbound s"] timeout(3) show ?case by auto
next
  case (callback s g msgs)
  then have "globals_ok t0 g" by (auto simp: sys_inv_def dest: output_callback_ok)
  then show ?case using callback(4) by (simp add: sys_inv_defs)
next
  case (buffer s f)
  have "start (f st) = start st" for st
    using buffer(2) by (auto elim!: buffer_update.cases simp: status_setters)
  then show ?case using buffer(3) by (simp add: sys_inv_defs p_globals_update_status)
next
  case (proto_connects s)
  with proto_inv [OF proto_connects(2), of "sy_inbound s" Reading] show ?case
    by (simp add: sys_inv_def channels_ok_def parsed_ok_def)
next
  case (proto_receives s b m)
  with proto_inv [OF proto_receives(4), of "sy_inbound s" "Passing m" "sy_writers s"] show ?case
    by (auto simp: sys_inv_def channels_ok_def parsed_ok_def parsed_def)
next
  case (proto_passes s m)
  with proto_inv [OF proto_passes(3), of "sy_inbound s @ [Some m]" Reading "sy_writers s"] show ?case
    by (auto simp: sys_inv_def channels_ok_def parsed_ok_def)
next
  case (proto_leaves s again)
  with proto_inv [OF proto_leaves(2), of "sy_inbound s" "Leaving again" "sy_writers s"] show ?case
    by (simp add: sys_inv_def channels_ok_def parsed_ok_def)
next
  case (proto_reports s again)
  with proto_inv [OF proto_reports(3), of "sy_inbound s @ [None]" "if again then Dialing else Gone" "sy_writers s"]
  show ?case by (auto simp: sys_inv_def channels_ok_def parsed_ok_def)
next
  case (proto_panics s)
  with proto_inv [OF proto_panics(2), of "sy_inbound s" Gone "sy_writers s"] show ?case
    by (simp add: sys_inv_def channels_ok_def parsed_ok_def)
next
  case (writer_takes s xs w ys m ms)
  then show ?case by (intro writer_takes_inv)
next
  case (writer_sends s xs w ys m result)
  then show ?case by (intro writer_sends_inv)
next
  case (tick s now)
  then have "clock_ok t0 (s\<lparr>sy_clock := now\<rparr>)"
    by (rule_tac clock_ok_same [of _ s]) (simp_all add: sys_inv_def)
  then show ?case using tick(2) by (simp add: sys_inv_def channels_ok_def parsed_ok_def lock_ok_def)
qed (auto intro: carry_out_inv report_inv thread_inv post_inv)

lemma sys_init_inv: "sys_init t0 s \<Longrightarrow> sys_inv t0 s"
  by (subst (asm) sys_init_def, elim conjE, drule arg_cong [of _ _ "sys_inv t0"])
    (simp add: sys_inv_defs session_start_def takens_def made_def clock_list_def)

interpretation session: invariant "sys_init t0" "sys_step ops make_out" "sys_inv t0"
  for t0 :: instant and ops :: "'o audio_output" and make_out
  by unfold_locales (auto intro: sys_init_inv sys_step_inv)

section \<open>Progress of the event loop\<close>

text \<open>What the event loop still has to post to itself.  It is the only receiver of that channel.\<close>

fun own_posts :: "effect list \<Rightarrow> player_msg list" where
  "own_posts (StreamSend m # effs) = m # own_posts effs"
| "own_posts (_ # effs) = own_posts effs"
| "own_posts [] = []"

definition stuck :: "'o system \<Rightarrow> bool" where
  "stuck s \<longleftrightarrow> own_posts (sy_pending s) \<noteq> [] \<and> STREAM_CHANNEL \<le> length (sy_inbox s)"

text \<open>No write thread is left, the messages to the server do not fit into the channel, and the
  protocol thread, which keeps that channel open, waits for room in the channel to the event
  loop.\<close>

definition severed :: "'o system \<Rightarrow> bool" where
  "severed s \<longleftrightarrow>
     SLIM_CHANNEL < length (sy_outbox s) + length (slim_sent (sy_pending s)) \<and>
     list_all wt_ended (sy_writers s) \<and>
     ((\<exists>m. sy_proto s = Passing m) \<or> (\<exists>again. sy_proto s = Leaving again)) \<and>
     SLIM_CHANNEL \<le> length (sy_inbound s)"


lemma own_posts_map [simp]: "own_posts (map StreamSend msgs) = msgs"
  by (induction msgs) simp_all

text \<open>Once it waits for room in its own channel, it waits forever.\<close>

lemma stuck_step:
  assumes "sys_step ops make_out s t" "stuck s"
  shows "stuck t \<and> sy_inbox t = sy_inbox s \<and> p_output (sy_player t) = p_output (sy_player s)"
  using assms
proof (induction rule: sys_step.induct)
  case (loop_effect s e es t)
  then show ?case
    by (cases e) (auto simp: stuck_def spawn_thread_def post_stream_Some tell_server_Some split: if_splits)
next
  case (thread s xs th ys ths t)
  then show ?case
    by (induction th s rule: thread_step.induct)
      (auto simp: stuck_def post_stream_Some split: if_splits prod.splits
        dest!: arg_cong [of "status_message _ _ _ _" _ "\<lambda>x. p_output (fst x)"])
next
  case (report s e es t)
  then show ?case
    by (cases e) (auto simp: stuck_def spawn_thread_def post_stream_Some tell_server_Some split: if_splits)
qed (auto simp: stuck_def post_stream_Some)

lemma stuck_forever:
  assumes "(sys_step ops make_out)\<^sup>*\<^sup>* s t" "stuck s"
  shows "stuck t \<and> sy_inbox t = sy_inbox s \<and> p_output (sy_player t) = p_output (sy_player s)"
  using assms by (induction rule: rtranclp_induct) (auto dest: stuck_step)

text \<open>The same holds once nobody takes its messages to the server.\<close>

lemma severed_open: "severed s \<Longrightarrow> channel_open s"
  by (auto simp: severed_def channel_open_def)

lemma severed_pending: "severed s \<Longrightarrow> length (sy_outbox s) \<le> SLIM_CHANNEL \<Longrightarrow> sy_pending s \<noteq> []"
  by (auto simp: severed_def)

lemma severed_step:
  assumes "sys_step ops make_out s t" "severed s" "length (sy_outbox s) \<le> SLIM_CHANNEL"
  shows "severed t \<and> length (sy_outbox t) \<le> SLIM_CHANNEL \<and> sy_inbound t = sy_inbound s \<and>
    sy_proto t = sy_proto s \<and> p_output (sy_player t) = p_output (sy_player s)"
  using assms
proof (induction rule: sys_step.induct)
  case (loop_effect s e es t)
  then show ?case using severed_open [of s]
    by (cases e) (auto simp: severed_def spawn_thread_def post_stream_Some tell_server_Some)
next
  case (thread s xs th ys ths t)
  then show ?case
    by (induction th s rule: thread_step.induct)
      (auto simp: severed_def post_stream_Some split: if_splits prod.splits
        dest!: arg_cong [of "status_message _ _ _ _" _ "\<lambda>x. p_output (fst x)"])
next
  case (report s e es t)
  then show ?case using severed_open [of s]
    by (cases e) (auto simp: severed_def spawn_thread_def post_stream_Some tell_server_Some)
qed (auto simp: severed_def post_stream_Some)

lemma severed_forever:
  assumes "(sys_step ops make_out)\<^sup>*\<^sup>* s t" "severed s" "length (sy_outbox s) \<le> SLIM_CHANNEL"
  shows "severed t \<and> length (sy_outbox t) \<le> SLIM_CHANNEL \<and> sy_inbound t = sy_inbound s \<and>
    sy_proto t = sy_proto s \<and> p_output (sy_player t) = p_output (sy_player s)"
  using assms by (induction rule: rtranclp_induct) (auto dest: severed_step)














text \<open>The other threads can fill the channel while the event loop takes over a decoder: here the
  underflow callback does.\<close>

lemma underflows_fill:
  assumes "sy_callback s = []"
  shows "\<exists>t. (sys_step ops make_out)\<^sup>*\<^sup>* s t \<and> sy_pending t = sy_pending s \<and>
    STREAM_CHANNEL \<le> length (sy_inbox t)"
  using assms
proof (induction "STREAM_CHANNEL - length (sy_inbox s)" arbitrary: s)
  case 0
  then show ?case by (intro exI [of _ s]) simp
next
  case (Suc n)
  let ?w = "(new_writer [] (sample_decoder []))\<lparr>wr_state := write_state.Drained\<rparr>"
  let ?s1 = "s\<lparr>sy_callback := [player_msg.Drained]\<rparr>"
  let ?s2 = "s\<lparr>sy_inbox := sy_inbox s @ [player_msg.Drained], sy_callback := []\<rparr>"
  have room: "length (sy_inbox s) < STREAM_CHANNEL" using Suc.hyps(2) by simp
  have "sys_step ops make_out s ?s1"
    using callback [OF Suc.prems pulse_underflow [of _ ?w], of ops make_out] by (simp add: on_underflow_def)
  moreover have "sys_step ops make_out ?s1 ?s2"
    using callback_post [of ?s1 player_msg.Drained "[]" _ ops make_out] room Suc.prems by (simp add: post_stream_Some)
  ultimately have "(sys_step ops make_out)\<^sup>*\<^sup>* s ?s2" by (meson converse_rtranclp_into_rtranclp r_into_rtranclp)
  moreover have "n = STREAM_CHANNEL - length (sy_inbox ?s2)" using Suc.hyps(2) by simp
  from Suc.hyps(1) [OF this] obtain t where "(sys_step ops make_out)\<^sup>*\<^sup>* ?s2 t" "sy_pending t = sy_pending ?s2"
    "STREAM_CHANNEL \<le> length (sy_inbox t)"
    by auto
  ultimately show ?case by (intro exI [of _ t]) (auto intro: rtranclp_trans)
qed

lemma can_get_stuck:
  assumes "sy_pending s = []" "sy_callback s = []" "sy_inbox s = Decoder d sp # ms"
    and "p_output (sy_player s) = Some out"
    and "ao_enqueue_new_stream ops d sp (p_device (sy_player s)) (p_globals (sy_player s)) out =
      Done (out', [m], r)"
  shows "\<exists>t. (sys_step ops make_out)\<^sup>*\<^sup>* s t \<and> stuck t"
proof -
  let ?p = "(sy_player s)\<lparr>p_output := Some out'\<rparr>"
  obtain effs where effs: "event_step ops make_out (sy_clock s) (StreamMsg (Decoder d sp)) (sy_player s) =
      Done (Continue ?p, effs)" "own_posts effs = [m]" "stats effs = []"
    using assms(4,5)
    by (auto simp: event_step_def handle_player_message_def on_decoder_def Let_def split: option.split)
  let ?s1 = "s\<lparr>sy_player := ?p, sy_pending := effs, sy_inbox := ms\<rparr>"
  have "sys_step ops make_out s ?s1"
    using player_message [OF assms(1,3) effs(1)] effs(3) by simp
  moreover obtain t where "(sys_step ops make_out)\<^sup>*\<^sup>* ?s1 t" "sy_pending t = effs"
    "STREAM_CHANNEL \<le> length (sy_inbox t)"
    using underflows_fill [of ?s1] assms(2) by auto
  ultimately show ?thesis using effs(2)
    by (intro exI [of _ t]) (auto simp: stuck_def intro: converse_rtranclp_into_rtranclp)
qed

text \<open>And a send error can sever the event loop from the server.\<close>

lemma can_get_severed:
  assumes "sy_pending s = SlimSend m # es" "length (sy_outbox s) = SLIM_CHANNEL"
    and "sy_writers s = ws @ [w]" "list_all wt_ended ws" "\<not> wt_ended w" "wt_sending w = Some m'"
    and "sy_proto s = Reading" "sy_inbound s = []" "server_message_from b = Some sm" "\<not> is_serv sm"
  shows "\<exists>t. (sys_step ops make_out)\<^sup>*\<^sup>* s t \<and> severed t \<and> length (sy_outbox t) \<le> SLIM_CHANNEL"
proof -
  let ?s1 = "s\<lparr>sy_proto := Passing sm\<rparr>"
  let ?s2 = "?s1\<lparr>sy_inbound := sy_inbound ?s1 @ [Some sm], sy_proto := Reading\<rparr>"
  let ?s3 = "?s2\<lparr>sy_proto := Passing sm\<rparr>"
  let ?s4 = "?s3\<lparr>sy_writers := ws @ write_done m' (Inl undefined) w # []\<rparr>"
  have "sys_step ops make_out s ?s1" by (rule proto_receives [OF assms(7,9,10)])
  moreover have "sys_step ops make_out ?s1 ?s2"
    using assms(8) by (intro proto_passes) (simp_all add: SLIM_CHANNEL_def)
  moreover have "sys_step ops make_out ?s2 ?s3" by (rule proto_receives [OF _ assms(9,10)]) simp
  moreover have "sys_step ops make_out ?s3 ?s4"
    using assms(3) by (intro writer_sends [OF _ assms(5,6)]) simp
  ultimately have "(sys_step ops make_out)\<^sup>*\<^sup>* s ?s4"
    by (meson converse_rtranclp_into_rtranclp r_into_rtranclp)
  moreover have "severed ?s4 \<and> length (sy_outbox ?s4) \<le> SLIM_CHANNEL"
    using assms(1,2,4,8) by (simp add: severed_def write_done_def SLIM_CHANNEL_def)
  ultimately show ?thesis by blast
qed

section \<open>Timers\<close>

text \<open>The clock never goes back, and a timer is there until its time has come.\<close>

lemma carry_out_keeps:
  "carry_out e s = Some t \<Longrightarrow> sy_clock t = sy_clock s \<and> set (sy_threads s) \<subseteq> set (sy_threads t)"
  by (cases e) (auto simp: post_stream_Some tell_server_Some spawn_thread_def split: if_splits)

lemma thread_step_keeps: "thread_step th s = Some (ths, t) \<Longrightarrow> sy_clock t = sy_clock s"
  by (induction th s rule: thread_step.induct) (auto simp: post_stream_Some split: if_splits prod.splits)

lemma timer_step:
  assumes "sys_step ops make_out s t"
  shows "sy_clock s \<le> sy_clock t \<and>
    (ResumeThread k d \<in> set (sy_threads s) \<longrightarrow> sy_clock t < k \<longrightarrow> ResumeThread k d \<in> set (sy_threads t))"
  using assms
proof (induction rule: sys_step.induct)
  case (loop_effect s e es t)
  then show ?case using carry_out_keeps [of e s t] by auto
next
  case (report s e es t)
  then show ?case using carry_out_keeps [of e s t] by auto
next
  case (thread s xs th ys ths t)
  then show ?case using thread_step_keeps [of th s ths t] by (auto split: if_splits)
qed (auto simp: post_stream_Some)

lemma timer_waits:
  assumes "(sys_step ops make_out)\<^sup>*\<^sup>* s t" "ResumeThread k d \<in> set (sy_threads s)"
  shows "sy_clock s \<le> sy_clock t \<and> (sy_clock t < k \<longrightarrow> ResumeThread k d \<in> set (sy_threads t))"
  using assms
proof (induction rule: rtranclp_induct)
  case (step t u)
  then show ?case using timer_step [OF step(2), of k d] by auto
qed simp

text \<open>When it has come, and nothing else holds the channel or the lock, the timer posts and reports.\<close>

lemma timer_fires:
  assumes "sy_threads s = xs @ [ResumeThread k d]" "sy_clock s \<le> k" "sy_pending s = []"
    and "sy_reporting s = []" "length (sy_inbox s) < STREAM_CHANNEL"
    and "STATUS (p_globals (sy_player s)) = Mutex False st"
  shows "\<exists>u st'. (sys_step ops make_out)\<^sup>*\<^sup>* s u \<and> sy_inbox u = sy_inbox s @ [player_msg.Unpause] \<and>
    sy_reporting u = [SlimSend (Stat ''STMr'' st')] \<and> jiffies st' = Duration (k - start st)"
proof -
  let ?s1 = "s\<lparr>sy_clock := k\<rparr>"
  let ?s2 = "?s1\<lparr>sy_inbox := sy_inbox s @ [player_msg.Unpause], sy_threads := xs @ [ResumeReport d] @ []\<rparr>"
  let ?st = "(set_elapsed d st)\<lparr>jiffies := Duration (k - start st)\<rparr>"
  let ?s3 = "?s2\<lparr>sy_player := update_status (\<lambda>_. ?st) (sy_player s),
    sy_reporting := [SlimSend (Stat ''STMr'' ?st)], sy_threads := xs @ [] @ []\<rparr>"
  have "sys_step ops make_out s ?s1" using assms(2) by (rule tick)
  moreover have "thread_step (ResumeThread k d) ?s1 =
      Some ([ResumeReport d], ?s1\<lparr>sy_inbox := sy_inbox s @ [player_msg.Unpause]\<rparr>)"
    using assms(5) by (simp add: post_stream_def)
  with thread [of ?s1 xs "ResumeThread k d" "[]"] assms(1) have "sys_step ops make_out ?s1 ?s2" by fastforce
  moreover have "status_message k (set_elapsed d) Resume (sy_player s) =
      (update_status (\<lambda>_. ?st) (sy_player s), [SlimSend (Stat ''STMr'' ?st)])"
    by (simp add: status_message_open [OF assms(6)] Let_def show_status_code_def)
  then have "thread_step (ResumeReport d) ?s2 = Some ([], ?s2\<lparr>sy_player := update_status (\<lambda>_. ?st) (sy_player s),
      sy_reporting := [SlimSend (Stat ''STMr'' ?st)]\<rparr>)"
    using assms(3,4) by (simp add: status_free_def)
  with thread [of ?s2 xs "ResumeReport d" "[]"] have "sys_step ops make_out ?s2 ?s3" by fastforce
  ultimately have "(sys_step ops make_out)\<^sup>*\<^sup>* s ?s3"
    by (meson converse_rtranclp_into_rtranclp r_into_rtranclp)
  then show ?thesis by (intro exI [of _ ?s3] exI [of _ ?st]) simp
qed

section \<open>Attenuation\<close>

lemma apply_volume_attenuates:
  assumes "unit_volume l" "unit_volume r" "list_all (\<lambda>x. f32_mag x < f32_inf) xs"
  shows "list_all2 (\<lambda>x y. f32_mag y \<le> f32_mag x \<and> f32_neg y = f32_neg x) xs (apply_volume l r xs)"
  using assms
proof (induction l r xs rule: apply_volume.induct)
  case (1 l r a b xs)
  then show ?case using f32_mul_attenuates by (simp add: unit_volume_def)
qed simp_all

section \<open>A sample run\<close>

definition sample_rodio_api :: "(unit, unit) rodio_api" where
  "sample_rodio_api =
     \<lparr>ra_devices = Inr [], ra_supports_output = \<lambda>_. True, ra_description = \<lambda>_. None,
      ra_default_device = Some (), ra_open = \<lambda>_. Inr (), ra_append = \<lambda>_ s. s, ra_play = \<lambda>s. s,
      ra_pause = \<lambda>s. s, ra_stop = \<lambda>s. s, ra_get_pos = \<lambda>_. duration_zero\<rparr>"

lemma sample_session:
  "sys_init 0 (session_start (sample_player out) 5)"
  by (simp add: sys_init_def session_start_def globals_ok_def unit_volume_def)
    (simp add: status_default_def)

type_synonym sample_output =
  "(unit pulse_output, unit pipewire_output, (unit, unit) rodio_output) dyn_output"

abbreviation sample_ops :: "sample_output audio_output" where
  "sample_ops \<equiv> dyn_ops (pulse_ops sample_pulse_api) (pipewire_ops sample_pipewire_api)
     (rodio_ops sample_rodio_api)"

abbreviation sample_no_output :: "string \<Rightarrow> string option \<Rightarrow> sample_output anyhow run" where
  "sample_no_output \<equiv> \<lambda>_ _. Done (Inl [])"

text \<open>An idle player reports after its timeout.\<close>

lemma sample_timeout:
  fixes ops :: "'o audio_output"
  obtains s where "reach (sys_init 0) (sys_step ops make_out) s"
    and "sy_pending s = [SlimSend (Stat ''STMt'' ((status_default 0)\<lparr>jiffies := Duration 5\<rparr>))]"
    and "sy_inbox s = []" "sy_writers s = [write_thread_new]" "sy_outbox s = []" "sy_reporting s = []"
    and "sy_clock s = 5"
proof -
  let ?p = "sample_player (None :: 'o option)" and ?st = "(status_default 0)\<lparr>jiffies := Duration 5\<rparr>"
  let ?init = "session_start ?p 5"
  let ?s = "?init\<lparr>sy_proto := Reading, sy_writers := sy_writers ?init @ [write_thread_new]\<rparr>"
  have s: "sy_pending ?s = []" "sy_clock ?s = 5" "sy_player ?s = ?p" "status_free ?s"
    by (simp_all add: session_start_def status_free_def)
  have connected: "sys_step ops make_out ?init ?s" by (rule proto_connects) (simp add: session_start_def)
  have zero: "current_play_time ops ?p = duration_zero" by (simp add: current_play_time_def)
  have event: "event_step ops make_out 5 Timeout ?p =
      Done (Continue (update_status (\<lambda>_. ?st) ?p), [SlimSend (Stat ''STMt'' ?st)])"
    using status_reports_play_time [of ?p "status_default 0" ops make_out 5 duration_zero]
    by (simp add: zero) (simp add: status_default_def duration_zero_def as_secs_def as_millis_def)
  define t where "t = ?s\<lparr>sy_player := update_status (\<lambda>_. ?st) ?p,
    sy_pending := [SlimSend (Stat ''STMt'' ?st)]\<rparr>"
  have step: "sys_step ops make_out ?s t"
    unfolding t_def using s event by (intro timeout) simp_all
  have "reach (sys_init 0) (sys_step ops make_out) ?init" by (rule reach.reach_init, rule sample_session)
  then have "reach (sys_init 0) (sys_step ops make_out) ?s" using connected by (rule reach.reach_step)
  then have "reach (sys_init 0) (sys_step ops make_out) t" using step by (rule reach.reach_step)
  then show ?thesis by (rule that) (simp_all add: t_def session_start_def)
qed

section \<open>Properties\<close>

text \<open>\<^bold>\<open>C12\<close> However the threads of a session interleave, and whatever gains the
  server sends, no decoded sample is ever made larger or changes its sign: the two volumes stay
  between 0 and 1, and the locks stay usable.\<close>

theorem playback_never_amplifies:
  assumes "reach (sys_init t0) (sys_step ops make_out) s"
    and "vd_packets d = Decoded xs # ps" and "list_all (\<lambda>x. f32_mag x < f32_inf) xs"
  shows "globals_ok t0 (p_globals (sy_player s)) \<and>
    (\<exists>ys. get_audio_buffer (VOLUME (p_globals (sy_player s))) d =
       Some (d\<lparr>vd_packets := ps\<rparr>, Inr (Some ys)) \<and>
     list_all2 (\<lambda>x y. f32_mag y \<le> f32_mag x \<and> f32_neg y = f32_neg x) xs ys)"
proof -
  have ok: "globals_ok t0 (p_globals (sy_player s))"
    using session.reach_inv [OF assms(1)] by (simp add: sys_inv_def)
  then obtain l r where "VOLUME (p_globals (sy_player s)) = Mutex False [l, r]" "unit_volume l" "unit_volume r"
    by (rule globals_ok_parts)
  then show ?thesis using ok assms(2) apply_volume_attenuates [OF _ _ assms(3), of l r]
    by (simp add: get_audio_buffer_def volume_pair_def)
qed

theorem playback_never_amplifies_witness:
  "globals_ok 0 (p_globals (sample_player (None :: sample_output option)))"
proof -
  let ?s = "session_start (sample_player None) 5"
  have "reach (sys_init 0) (sys_step sample_ops sample_no_output) ?s"
    by (rule reach.reach_init, rule sample_session)
  from playback_never_amplifies [OF this, of "sample_decoder [Decoded []]" "[]" "[]"]
  show ?thesis by (simp add: session_start_def)
qed

text \<open>\<^bold>\<open>C8\<close> On every connection of a session, the status messages that its
  write thread has taken, those it has sent among them, those still in the channel and those
  being sent into it carry clock values that never decrease and never run ahead of the clock, although
  they are made by different threads: whoever makes one holds the lock until it is in the
  channel, and there is room for one message there.  The number that goes over the wire is the
  value in milliseconds as 32 bits, or 0 if it does not fit: so what the server reads never
  decreases either during the first 2^32 milliseconds of the status block.\<close>

theorem status_clock_monotone:
  assumes "reach (sys_init t0) (sys_step ops make_out) s" and "w \<in> set (sy_writers s)"
  shows "sorted (map (\<lambda>(_, st). jiffies st) (made (taken w) s)) \<and>
    list_all (\<lambda>(_, st). jiffies st \<le> Duration (sy_clock s - t0)) (made (taken w) s) \<and>
    (as_millis (Duration (sy_clock s - t0)) < 2 ^ 32 \<longrightarrow>
       sorted (map (\<lambda>(_, st). unat (millis_try_u32 (jiffies st))) (made (taken w) s))) \<and>
    length (stats (sy_pending s)) + length (sy_reporting s) \<le> 1 \<and> length (sy_outbox s) \<le> 1"
proof -
  have inv: "sys_inv t0 s" by (rule session.reach_inv [OF assms(1)])
  have "taken w \<in> takens s" using assms(2) by (simp add: takens_def)
  then have clock: "clock_list t0 (sy_clock s) (made (taken w) s)"
    using inv by (simp add: sys_inv_def clock_ok_def)
  then show ?thesis using inv clock_list_u32 [OF clock]
    by (simp add: sys_inv_def clock_list_def lock_ok_def channels_ok_def SLIM_CHANNEL_def)
qed

theorem status_clock_monotone_witness:
  "\<exists>(s :: sample_output system) w.
     map (\<lambda>(_, st). unat (millis_try_u32 (jiffies st))) (made (taken w) s) = [0] \<and> sy_pending s \<noteq> [] \<and>
     list_all (\<lambda>(_, st). jiffies st \<le> Duration (sy_clock s)) (made (taken w) s)"
proof -
  obtain s where s: "reach (sys_init 0) (sys_step sample_ops sample_no_output) s"
    "sy_pending s = [SlimSend (Stat ''STMt'' ((status_default 0)\<lparr>jiffies := Duration 5\<rparr>))]"
    "sy_writers s = [write_thread_new]" "sy_outbox s = []" "sy_reporting s = []"
    using sample_timeout [of sample_ops sample_no_output] by blast
  have made: "made (taken write_thread_new) s = [(''STMt'', (status_default 0)\<lparr>jiffies := Duration 5\<rparr>)]"
    using s by (simp add: made_def taken_def write_thread_new_def)
  from status_clock_monotone [OF s(1), of write_thread_new] s(2,3) show ?thesis
    by (intro exI [of _ s] exI [of _ write_thread_new])
      (simp add: made millis_try_u32_def as_millis_def)
qed



text \<open>\<^bold>\<open>C27\<close> A lost connection can go unnoticed for ever.  This can arise from any state in which the event
  loop has a message for the server, the channel is full and the write thread is sending: if that
  send fails and the server's last two messages have arrived, the write thread ends, the
  protocol thread waits to pass the second message on, and the event loop waits for room in the
  channel that nobody empties.  From then on neither of them takes another step: the loss of the
  connection is never noticed and the player does not reconnect.\<close>

theorem lost_connection_deadlock:
  assumes "sy_pending s = SlimSend m # es" and "length (sy_outbox s) = SLIM_CHANNEL"
    and "sy_writers s = ws @ [w]" and "list_all wt_ended ws" and "\<not> wt_ended w"
    and "wt_sending w = Some m'" and "sy_proto s = Reading" and "sy_inbound s = []"
    and "server_message_from b = Some sm" and "\<not> is_serv sm"
  shows "\<exists>t. (sys_step ops make_out)\<^sup>*\<^sup>* s t \<and>
    (\<forall>u. (sys_step ops make_out)\<^sup>*\<^sup>* t u \<longrightarrow>
       sy_pending u \<noteq> [] \<and> sy_inbound u = sy_inbound t \<and> sy_proto u = sy_proto t \<and>
       list_all wt_ended (sy_writers u) \<and> p_output (sy_player u) = p_output (sy_player t))"
proof -
  obtain t where t: "(sys_step ops make_out)\<^sup>*\<^sup>* s t" "severed t" "length (sy_outbox t) \<le> SLIM_CHANNEL"
    using can_get_severed [OF assms] by blast
  have "sy_pending u \<noteq> [] \<and> sy_inbound u = sy_inbound t \<and> sy_proto u = sy_proto t \<and>
      list_all wt_ended (sy_writers u) \<and> p_output (sy_player u) = p_output (sy_player t)"
    if "(sys_step ops make_out)\<^sup>*\<^sup>* t u" for u
    using severed_forever [OF that t(2,3)] severed_pending [of u] by (auto simp: severed_def)
  with t(1) show ?thesis by blast
qed

theorem lost_connection_deadlock_witness:
  "\<exists>t. (sys_step sample_ops sample_no_output)\<^sup>*\<^sup>*
     ((session_start (sample_player (None :: sample_output option)) 0)
        \<lparr>sy_pending := [SlimSend (Name [])], sy_outbox := [Name []], sy_proto := Reading,
         sy_writers := [write_thread_new\<lparr>wt_sending := Some (Name [])\<rparr>]\<rparr>) t \<and>
     sy_pending t \<noteq> [] \<and> list_all wt_ended (sy_writers t)"
proof -
  let ?s = "(session_start (sample_player (None :: sample_output option)) 0)
    \<lparr>sy_pending := [SlimSend (Name [])], sy_outbox := [Name []], sy_proto := Reading,
     sy_writers := [write_thread_new\<lparr>wt_sending := Some (Name [])\<rparr>]\<rparr>"
  have "server_message_from (encode_server WQueryname) = Some Queryname"
    using server_message_from_encode [of WQueryname] by simp
  from lost_connection_deadlock [of ?s, OF _ _ _ _ _ _ _ _ this, of "Name []" "[]" "[]"
      "write_thread_new\<lparr>wt_sending := Some (Name [])\<rparr>" "Name []"
      sample_ops sample_no_output]
  show ?thesis by (auto simp: session_start_def SLIM_CHANNEL_def write_thread_new_def)
qed

text \<open>\<^bold>\<open>C20\<close> The event loop can deadlock with itself: whenever a decoder is next in the channel and
  the output takes it, the other threads may fill the channel before the event loop posts
  \<^verbatim>\<open>StreamEstablished\<close> to it.  Then the event loop waits for itself: from there on it handles no
  message any more, whatever the other threads do.\<close>

theorem event_loop_self_deadlock:
  assumes "sy_pending s = []" "sy_callback s = []" "sy_inbox s = Decoder d sp # ms"
    and "p_output (sy_player s) = Some out"
    and "ao_enqueue_new_stream ops d sp (p_device (sy_player s)) (p_globals (sy_player s)) out =
      Done (out', [m], r)"
  shows "\<exists>t. (sys_step ops make_out)\<^sup>*\<^sup>* s t \<and>
    (\<forall>u. (sys_step ops make_out)\<^sup>*\<^sup>* t u \<longrightarrow>
       sy_pending u \<noteq> [] \<and> sy_inbox u = sy_inbox t \<and> p_output (sy_player u) = p_output (sy_player t))"
proof -
  obtain t where t: "(sys_step ops make_out)\<^sup>*\<^sup>* s t" "stuck t"
    using can_get_stuck [OF assms] by blast
  from stuck_forever [OF _ t(2)]
  have "(sys_step ops make_out)\<^sup>*\<^sup>* t u \<Longrightarrow>
      sy_pending u \<noteq> [] \<and> sy_inbox u = sy_inbox t \<and> p_output (sy_player u) = p_output (sy_player t)" for u
    by (metis list.simps(3) own_posts.simps(7) stuck_def)
  with t(1) show ?thesis by blast
qed

theorem event_loop_self_deadlock_witness:
  "\<exists>t. (sys_step sample_ops sample_no_output)\<^sup>*\<^sup>*
     ((session_start (sample_player (Some (RodioOut \<lparr>ro_device = (), ro_playing = Some ()\<rparr>))) 0)
        \<lparr>sy_inbox := [Decoder (sample_decoder [EndOfStream])
           \<lparr>sp_autostart = Auto, sp_output_threshold = duration_zero\<rparr>]\<rparr>) t \<and> sy_pending t \<noteq> []"
proof -
  let ?out = "RodioOut \<lparr>ro_device = (), ro_playing = Some ()\<rparr> :: sample_output"
  let ?d = "sample_decoder [EndOfStream]"
  let ?sp = "\<lparr>sp_autostart = Auto, sp_output_threshold = duration_zero\<rparr>"
  let ?s = "(session_start (sample_player (Some ?out)) 0)\<lparr>sy_inbox := [Decoder ?d ?sp]\<rparr>"
  have "ao_enqueue_new_stream sample_ops ?d ?sp (p_device (sy_player ?s)) (p_globals (sy_player ?s)) ?out =
      Done (?out, [player_msg.StreamEstablished], Inr ())"
    by (simp add: dyn_ops_def rodio_defs sample_rodio_api_def)
  from event_loop_self_deadlock [OF _ _ _ _ this, of "[]" sample_no_output]
  show ?thesis by (auto simp: session_start_def)
qed

text \<open>\<^bold>\<open>C21\<close> A request to resume at a point of the player's clock starts a timer.  Counted
  from the start of the session, the timer fires at that point and not before, whatever the
  other threads do, and then posts the resume and reports it with the code \<^verbatim>\<open>STMr\<close>.  But the
  clock the server knows, the one the report itself carries, counts from the creation of the status
  block: the report made at that moment shows the requested value plus the time between the two
  origins.  So the player resumes early by the age of the session when the block is created,
  in the first session, and late by the age of the block when the session starts, in every
  later one.\<close>

theorem timed_unpause:
  fixes s :: "'o system"
  defines "p \<equiv> sy_player s"
  defines "wake \<equiv> \<lambda>interval. p_start_time p + as_nanos interval"
  assumes "sy_pending s = []" and "sy_inbound s = Some (server_message.Unpause interval) # ms"
    and "\<not> duration_is_zero interval" and "STATUS (p_globals p) = Mutex False st"
    and "sy_reporting s = []" and "length (sy_inbox s) < STREAM_CHANNEL"
    and "p_start_time p \<le> sy_clock s" and "start st \<le> sy_clock s" and "sy_clock s \<le> wake interval"
  shows "\<exists>s1. (sys_step ops make_out)\<^sup>*\<^sup>* s s1 \<and> sy_pending s1 = [] \<and>
    (\<forall>u. (sys_step ops make_out)\<^sup>*\<^sup>* s1 u \<and> sy_clock u < wake interval \<longrightarrow>
       ResumeThread (wake interval) (current_play_time ops p) \<in> set (sy_threads u)) \<and>
    (\<exists>u st'. (sys_step ops make_out)\<^sup>*\<^sup>* s1 u \<and> sy_inbox u = sy_inbox s @ [player_msg.Unpause] \<and>
       sy_reporting u = [SlimSend (Stat ''STMr'' st')] \<and>
       int (as_nanos (jiffies st')) =
         int (as_nanos interval) + (int (p_start_time p) - int (start st)))"
proof -
  let ?k = "wake interval" and ?d = "current_play_time ops p"
  let ?timer = "ResumeTimer (duration_saturating_sub interval (Duration (sy_clock s - p_start_time p))) ?d"
  let ?s1 = "s\<lparr>sy_player := p, sy_pending := [?timer], sy_inbound := ms\<rparr>"
  let ?s2 = "spawn_thread (ResumeThread ?k ?d) ?s1\<lparr>sy_pending := []\<rparr>"
  have k: "sy_clock s + as_nanos (duration_saturating_sub interval
      (Duration (sy_clock s - p_start_time p))) = ?k"
    using assms(9,11) by (simp add: wake_def duration_saturating_sub_def)
  have "event_step ops make_out (sy_clock s) (SlimMsg (server_message.Unpause interval)) (sy_player s) =
      Done (Continue p, [?timer])"
    using assms(5) by (simp add: event_step_def handle_server_message_def on_unpause_def p_def)
  from server_message [OF assms(3,4) this] have "sys_step ops make_out s ?s1" by (simp add: p_def)
  moreover have "carry_out ?timer ?s1 = Some (spawn_thread (ResumeThread ?k ?d) ?s1)"
    by (simp add: k)
  from loop_effect [OF _ this, of "[]"] have "sys_step ops make_out ?s1 ?s2" by simp
  ultimately have run: "(sys_step ops make_out)\<^sup>*\<^sup>* s ?s2"
    by (meson converse_rtranclp_into_rtranclp r_into_rtranclp)
  have threads: "sy_threads ?s2 = sy_threads s @ [ResumeThread ?k ?d]" by (simp add: spawn_thread_def)
  obtain u st' where u: "(sys_step ops make_out)\<^sup>*\<^sup>* ?s2 u" "sy_inbox u = sy_inbox s @ [player_msg.Unpause]"
    "sy_reporting u = [SlimSend (Stat ''STMr'' st')]" "jiffies st' = Duration (?k - start st)"
    using timer_fires [OF threads, of st ops make_out] assms(6-8,11) by (auto simp: spawn_thread_def)
  have "int (as_nanos (jiffies st')) = int (as_nanos interval) + (int (p_start_time p) - int (start st))"
    using u(4) assms(10,11) by (simp add: wake_def of_nat_diff)
  then show ?thesis using run u(1-3) timer_waits [of ops make_out ?s2 _ ?k ?d] threads
    by (intro exI [of _ ?s2]) (auto simp: spawn_thread_def)
qed

theorem timed_unpause_witness:
  "\<exists>u st'. (sys_step sample_ops sample_no_output)\<^sup>*\<^sup>*
      ((session_start ((sample_player (None :: sample_output option))\<lparr>p_start_time := 3\<rparr>) 5)
         \<lparr>sy_inbound := [Some (server_message.Unpause (Duration 10))]\<rparr>) u \<and>
    sy_reporting u = [SlimSend (Stat ''STMr'' st')] \<and> int (as_nanos (jiffies st')) = 10 + (3 - 0)"
proof -
  let ?s = "(session_start ((sample_player (None :: sample_output option))\<lparr>p_start_time := 3\<rparr>) 5)
    \<lparr>sy_inbound := [Some (server_message.Unpause (Duration 10))]\<rparr>"
  have s: "STATUS (p_globals (sy_player ?s)) = Mutex False (status_default 0)" "sy_pending ?s = []"
    "sy_inbound ?s = Some (server_message.Unpause (Duration 10)) # []" "sy_reporting ?s = []"
    "sy_inbox ?s = []" "p_start_time (sy_player ?s) = 3" "sy_clock ?s = 5"
    by (simp_all add: session_start_def)
  have z: "\<not> duration_is_zero (Duration 10)" "start (status_default 0) = 0"
    by (simp_all add: duration_is_zero_def status_default_def)
  from timed_unpause [OF s(2,3) z(1) s(1,4), of sample_ops sample_no_output] s(5-7) z(2)
  obtain s1 u st' where "(sys_step sample_ops sample_no_output)\<^sup>*\<^sup>* ?s s1"
    "(sys_step sample_ops sample_no_output)\<^sup>*\<^sup>* s1 u" "sy_reporting u = [SlimSend (Stat ''STMr'' st')]"
    "int (as_nanos (jiffies st')) = 10 + (3 - 0)"
    by (auto simp: STREAM_CHANNEL_def)
  then show ?thesis by (meson rtranclp_trans)
qed

end
