(* ===== verification/Track_Playback.thy ===== *)
theory Track_Playback
  imports Player
begin

text \<open>
  Whole tracks.  An output's callback is called over and over by its audio library; the locale
  \<open>playback\<close> says what one call hands over and what is then left, and yields what a sequence of
  calls hands over.  It is interpreted for rodio's \<^verbatim>\<open>next\<close>, for PulseAudio's write callback and for
  PipeWire's process callback, with the volume and the skip request (none) fixed while the track
  plays.
\<close>

section \<open>Sequences of callbacks\<close>

text \<open>Each element of the list is what one call finds in its environment; the messages and what was
  handed over are collected in order.\<close>

fun callbacks ::
    "('e \<Rightarrow> 's \<Rightarrow> ('s \<times> 'm list \<times> 'a list) run) \<Rightarrow> 'e list \<Rightarrow> 's \<Rightarrow>
     ('s \<times> 'm list \<times> 'a list) run" where
  "callbacks cb [] s = Done (s, [], [])"
| "callbacks cb (e # es) s =
     (case cb e s of
        Waits \<Rightarrow> Waits
      | Panics \<Rightarrow> Panics
      | Done (s, msgs, out) \<Rightarrow>
          map_run (\<lambda>(s, msgs', out'). (s, msgs @ msgs', out @ out')) (callbacks cb es s))"

lemma callbacks_snoc:
  "callbacks cb es s = Done (s', msgs, out) \<Longrightarrow> cb e s' = Done (s'', msgs', out') \<Longrightarrow>
    callbacks cb (es @ [e]) s = Done (s'', msgs @ msgs', out @ out')"
  by (induction es arbitrary: s msgs out) (auto simp: map_run_Done split: run.splits)

locale playback =
  fixes cb :: "'e \<Rightarrow> 's \<Rightarrow> ('s \<times> 'm list \<times> 'a list) run"
    and ok :: "'e \<Rightarrow> bool" and good :: "'s \<Rightarrow> bool"
    and least :: "'e \<Rightarrow> nat" and most :: "'e \<Rightarrow> nat"
    and remaining :: "'s \<Rightarrow> 'a list" and pending :: "'s \<Rightarrow> 'm list" and at_end :: "'m list"
  assumes delivers: "good s \<Longrightarrow> ok e \<Longrightarrow> remaining s \<noteq> [] \<Longrightarrow>
      \<exists>s' msgs out. cb e s = Done (s', msgs, out) \<and> good s' \<and> out @ remaining s' = remaining s \<and>
        min (least e) (length (remaining s)) \<le> length out \<and> length out \<le> most e \<and>
        msgs @ pending s' = pending s"
    and past_end: "good s \<Longrightarrow> ok e \<Longrightarrow> remaining s = [] \<Longrightarrow>
      \<exists>s'. cb e s = Done (s', pending s @ at_end, []) \<and> good s' \<and> remaining s' = [] \<and> pending s' = []"
begin

text \<open>As long as there is something left at each call, messages and audio come in order.\<close>

lemma busy:
  assumes "good s" "list_all ok es" "es = [] \<or> sum_list (map most (butlast es)) < length (remaining s)"
  shows "\<exists>s' msgs out. callbacks cb es s = Done (s', msgs, out) \<and> good s' \<and>
    out @ remaining s' = remaining s \<and> msgs @ pending s' = pending s \<and>
    min (sum_list (map least es)) (length (remaining s)) \<le> length out"
  using assms
proof (induction es arbitrary: s)
  case (Cons e es)
  then have "remaining s \<noteq> []" by auto
  from delivers [OF Cons.prems(1) _ this, of e] Cons.prems(2) obtain s1 m1 o1 where
    1: "cb e s = Done (s1, m1, o1)" "good s1" "o1 @ remaining s1 = remaining s"
      "min (least e) (length (remaining s)) \<le> length o1" "length o1 \<le> most e" "m1 @ pending s1 = pending s"
    by auto
  have len: "length (remaining s) = length o1 + length (remaining s1)"
    using arg_cong [OF 1(3), of length] by simp
  have "es = [] \<or> sum_list (map most (butlast es)) < length (remaining s1)"
    using Cons.prems(3) 1(5) len by (cases "es = []") auto
  from Cons.IH [OF 1(2) _ this] Cons.prems(2) obtain s2 m2 o2 where
    "callbacks cb es s1 = Done (s2, m2, o2)" "good s2" "o2 @ remaining s2 = remaining s1"
      "m2 @ pending s2 = pending s1" "min (sum_list (map least es)) (length (remaining s1)) \<le> length o2"
    by auto
  then show ?case using 1 len
    by (intro exI [of _ s2] exI [of _ "m1 @ m2"] exI [of _ "o1 @ o2"]) auto
qed auto

lemma idle:
  assumes "good s" "list_all ok es" "remaining s = []" "pending s = []"
  shows "\<exists>s'. callbacks cb es s = Done (s', concat (replicate (length es) at_end), []) \<and>
    good s' \<and> remaining s' = [] \<and> pending s' = []"
  using assms
proof (induction es arbitrary: s)
  case (Cons e es)
  from past_end [OF Cons.prems(1) _ Cons.prems(3), of e] Cons.prems(2,4) obtain s1 where
    "cb e s = Done (s1, at_end, [])" "good s1" "remaining s1 = []" "pending s1 = []" by auto
  with Cons.IH [of s1] Cons.prems(2) show ?case by auto
qed auto

text \<open>Enough calls hand over everything that is left and send every message that is due; the calls
  that find nothing left repeat the last message.\<close>

lemma plays_out:
  assumes "good s" "list_all ok es" "es \<noteq> []"
    and "length (remaining s) \<le> sum_list (map least (butlast es))"
  shows "\<exists>s' k. callbacks cb es s =
      Done (s', pending s @ concat (replicate (Suc k) at_end), remaining s) \<and>
    good s' \<and> remaining s' = [] \<and> pending s' = []"
  using assms
proof (induction es arbitrary: s)
  case (Cons e es)
  show ?case
  proof (cases "remaining s = []")
    case True
    from past_end [OF Cons.prems(1) _ True, of e] Cons.prems(2) obtain s1 where
      1: "cb e s = Done (s1, pending s @ at_end, [])" "good s1" "remaining s1 = []" "pending s1 = []"
      by auto
    with idle [of s1 es] Cons.prems(2) obtain s2 where
      "callbacks cb es s1 = Done (s2, concat (replicate (length es) at_end), [])"
      "good s2" "remaining s2 = []" "pending s2 = []" by auto
    then show ?thesis using 1 True by (intro exI [of _ s2] exI [of _ "length es"]) simp
  next
    case False
    from delivers [OF Cons.prems(1) _ False, of e] Cons.prems(2) obtain s1 m1 o1 where
      1: "cb e s = Done (s1, m1, o1)" "good s1" "o1 @ remaining s1 = remaining s"
        "min (least e) (length (remaining s)) \<le> length o1" "m1 @ pending s1 = pending s"
      by auto
    have len: "length (remaining s) = length o1 + length (remaining s1)"
      using arg_cong [OF 1(3), of length] by simp
    have es: "es \<noteq> []" using Cons.prems(4) False by auto
    then have "length (remaining s1) \<le> sum_list (map least (butlast es))"
      using Cons.prems(4) 1(4) len by auto
    from Cons.IH [OF 1(2) _ es this] Cons.prems(2) obtain s2 k where
      "callbacks cb es s1 = Done (s2, pending s1 @ concat (replicate (Suc k) at_end), remaining s1)"
      "good s2" "remaining s2 = []" "pending s2 = []" by auto
    moreover have "pending s = m1 @ pending s1" "remaining s = o1 @ remaining s1" using 1(3,5) by simp_all
    ultimately show ?thesis using 1(1) by (intro exI [of _ s2] exI [of _ k]) simp
  qed
qed simp

end

section \<open>A track\<close>

text \<open>A reset is not the end of a track; the first packet that is neither a reset nor audio is.\<close>

fun goes_on :: "packet_result \<Rightarrow> bool" where
  "goes_on ResetRequired = True"
| "goes_on (Decoded xs) = True"
| "goes_on _ = False"

definition track_audio :: "(f32 list \<Rightarrow> 'a list) \<Rightarrow> f32 \<times> f32 \<Rightarrow> packet_result list \<Rightarrow> 'a list" where
  "track_audio conv lr ps =
     concat (map (\<lambda>p. conv (apply_volume (fst lr) (snd lr) (packet_audio p))) (takeWhile goes_on ps))"

definition track_ends :: "packet_result list \<Rightarrow> bool" where
  "track_ends ps \<longleftrightarrow> dropWhile goes_on ps \<noteq> []"

text \<open>The report of a track that ends with an error.\<close>

definition track_error :: "packet_result list \<Rightarrow> player_msg list" where
  "track_error ps = (if hd (dropWhile goes_on ps) = EndOfStream then [] else [NotSupported])"

lemma track_simps [simp]:
  "track_audio conv lr (Decoded xs # ps) = conv (apply_volume (fst lr) (snd lr) xs) @ track_audio conv lr ps"
  "conv [] = [] \<Longrightarrow> track_audio conv lr (ResetRequired # ps) = track_audio conv lr ps"
  "\<not> goes_on p \<Longrightarrow> track_audio conv lr (p # ps) = []"
  "goes_on p \<Longrightarrow> track_ends (p # ps) = track_ends ps" "\<not> goes_on p \<Longrightarrow> track_ends (p # ps)"
  "goes_on p \<Longrightarrow> track_error (p # ps) = track_error ps"
  "track_error (EndOfStream # ps) = []" "track_error (ReaderError e # ps) = [NotSupported]"
  "track_error (DecodeError e # ps) = [NotSupported]"
  "\<not> track_ends []"
  by (simp_all add: track_audio_def track_ends_def track_error_def)

lemma fill_retry_step:
  "fill_retry conv volume limit buffer d =
    (if limit 0 \<le> length buffer then Some (d, buffer, Inr False)
     else case vd_packets d of
         [] \<Rightarrow> None
       | p # ps \<Rightarrow>
           (let d' = d\<lparr>vd_packets := ps\<rparr>
            in case p of
                 ResetRequired \<Rightarrow> fill_retry conv volume (\<lambda>i. limit (Suc i)) buffer d'
               | ReaderError e \<Rightarrow> Some (d', buffer, Inl e)
               | EndOfStream \<Rightarrow> Some (d', buffer, Inr True)
               | DecodeError e \<Rightarrow> Some (d', buffer, Inl e)
               | Decoded xs \<Rightarrow>
                   fill_retry conv volume limit
                     (buffer @ conv (apply_volume (fst (volume_pair volume)) (snd (volume_pair volume)) xs)) d'))"
proof (cases "limit 0 \<le> length buffer \<or> vd_packets d = []")
  case True
  then show ?thesis
    by (subst fill_retry.simps, subst fill_buffer.simps) (auto simp: get_audio_buffer_def split: list.split)
next
  case False
  then obtain p ps where p: "vd_packets d = p # ps" "\<not> limit 0 \<le> length buffer" by (cases "vd_packets d") auto
  then show ?thesis
  proof (cases p)
    case (Decoded xs)
    let ?b = "buffer @ conv (apply_volume (fst (volume_pair volume)) (snd (volume_pair volume)) xs)"
    have "fill_buffer conv volume (limit 0) buffer d = fill_buffer conv volume (limit 0) ?b (d\<lparr>vd_packets := ps\<rparr>)"
      using Decoded p by (subst fill_buffer.simps) (simp add: get_audio_buffer_def split: prod.split)
    then have "fill_retry conv volume limit buffer d = fill_retry conv volume limit ?b (d\<lparr>vd_packets := ps\<rparr>)"
      by (simp add: fill_retry.simps [of conv volume limit buffer d]
          fill_retry.simps [of conv volume limit ?b])
    then show ?thesis using Decoded p by simp
  qed (use p in \<open>subst fill_retry.simps, subst fill_buffer.simps, simp add: get_audio_buffer_def\<close>)+
qed

text \<open>Filling moves audio from the track to the buffer, until the limit or the end of the track.\<close>

definition track_fill ::
    "(f32 list \<Rightarrow> 'a list) \<Rightarrow> f32 \<times> f32 \<Rightarrow> nat \<Rightarrow> 'a list \<Rightarrow> packet_result list \<Rightarrow>
     packet_result list \<Rightarrow> 'a list \<Rightarrow> string + bool \<Rightarrow> bool" where
  "track_fill conv lr limit buffer ps ps' buffer' r \<longleftrightarrow>
     (if r = Inr False
      then limit \<le> length buffer' \<and> track_ends ps' \<and> track_error ps' = track_error ps \<and>
        dropWhile goes_on ps' = dropWhile goes_on ps \<and>
        buffer' @ track_audio conv lr ps' = buffer @ track_audio conv lr ps
      else length buffer' < limit \<and> buffer' = buffer @ track_audio conv lr ps \<and>
        track_error ps = (if r = Inr True then [] else [NotSupported]) \<and>
        ps' = tl (dropWhile goes_on ps))"

lemma track_fill_cong:
  "buffer @ track_audio conv lr ps = buffer2 @ track_audio conv lr ps2 \<Longrightarrow>
   dropWhile goes_on ps = dropWhile goes_on ps2 \<Longrightarrow>
   track_fill conv lr limit buffer ps = track_fill conv lr limit buffer2 ps2"
  by (simp add: track_fill_def track_error_def fun_eq_iff)

lemma fill_retry_track:
  fixes volume :: "f32 list mutex"
  assumes "track_ends (vd_packets d)" "conv [] = []"
  shows "\<exists>d' buffer' r k. fill_retry conv volume limit buffer d = Some (d', buffer', r) \<and>
    track_fill conv (volume_pair volume) (limit k) buffer (vd_packets d) (vd_packets d') buffer' r"
  using assms(1)
proof (induction "vd_packets d" arbitrary: d buffer limit)
  case (Cons p ps)
  note ps = Cons.hyps(2) [symmetric]
  let ?d = "d\<lparr>vd_packets := ps\<rparr>" and ?lr = "volume_pair volume"
  show ?case
  proof (cases "limit 0 \<le> length buffer")
    case True
    then show ?thesis using Cons.prems
      by (subst fill_retry_step) (auto simp: track_fill_def)
  next
    case False
    have ends: "goes_on p \<Longrightarrow> track_ends (vd_packets ?d)" using Cons.prems ps by simp
    show ?thesis
    proof (cases p)
      case ResetRequired
      have "track_fill conv ?lr k buffer (vd_packets d) = track_fill conv ?lr k buffer (vd_packets ?d)" for k
        using ResetRequired ps assms(2) by (intro track_fill_cong) simp_all
      moreover obtain d' buffer' r k where
        "fill_retry conv volume (\<lambda>i. limit (Suc i)) buffer ?d = Some (d', buffer', r)"
        "track_fill conv ?lr (limit (Suc k)) buffer (vd_packets ?d) (vd_packets d') buffer' r"
        using Cons.hyps(1) [of ?d "\<lambda>i. limit (Suc i)" buffer] ends ResetRequired by auto
      ultimately show ?thesis using ResetRequired False ps
        by (intro exI [of _ d'] exI [of _ buffer'] exI [of _ r] exI [of _ "Suc k"], subst fill_retry_step) simp
    next
      case (Decoded xs)
      let ?b = "buffer @ conv (apply_volume (fst ?lr) (snd ?lr) xs)"
      have "track_fill conv ?lr k buffer (vd_packets d) = track_fill conv ?lr k ?b (vd_packets ?d)" for k
        using Decoded ps by (intro track_fill_cong) simp_all
      then show ?thesis using Decoded False Cons.hyps(1) [of ?d limit ?b] ends ps
        by (subst fill_retry_step) simp
    qed (use False ps in \<open>subst fill_retry_step; auto simp: track_fill_def intro!: exI [of _ 0]\<close>)+
  qed
qed simp

lemma track_fill_split:
  assumes "track_fill conv lr limit buffer ps ps' buffer' r" "n \<le> length buffer' \<or> r \<noteq> Inr False"
  shows "take n (buffer @ track_audio conv lr ps) = take n buffer'"
    "drop n (buffer @ track_audio conv lr ps) =
      drop n buffer' @ (if r = Inr False then track_audio conv lr ps' else [])"
proof -
  have "buffer @ track_audio conv lr ps = buffer' @ (if r = Inr False then track_audio conv lr ps' else [])"
    using assms(1) by (simp add: track_fill_def split: if_splits)
  then show "take n (buffer @ track_audio conv lr ps) = take n buffer'"
    "drop n (buffer @ track_audio conv lr ps) =
      drop n buffer' @ (if r = Inr False then track_audio conv lr ps' else [])"
    using assms(2) by auto
qed

section \<open>Rodio\<close>

text \<open>What the callbacks find: the volume as it is and no skip request.\<close>

definition calm :: "f32 \<times> f32 \<Rightarrow> globals \<Rightarrow> bool" where
  "calm lr g \<longleftrightarrow> volume_pair (VOLUME g) = lr \<and> SKIP g = duration_zero"

definition source_call ::
    "nat \<times> globals \<Rightarrow> decoder_source \<Rightarrow> (decoder_source \<times> player_msg list \<times> f32 list) run" where
  "source_call e s =
     map_run (\<lambda>(s, _, sample, msgs). (s, msgs, case sample of None \<Rightarrow> [] | Some x \<Rightarrow> [x]))
       (source_next (fst e) (snd e) s)"

definition source_good :: "decoder_source \<Rightarrow> bool" where
  "source_good s \<longleftrightarrow> ds_eod_flag s \<or> track_ends (vd_packets (ds_decoder s))"

definition source_rest :: "f32 \<times> f32 \<Rightarrow> decoder_source \<Rightarrow> f32 list" where
  "source_rest lr s =
     ds_frame s @
     (if ds_eod_flag s then [] else track_audio (\<lambda>xs. xs) lr (vd_packets (ds_decoder s)))"

definition source_due :: "decoder_source \<Rightarrow> player_msg list" where
  "source_due s =
     (if ds_start_flag s then [TrackStarted] else []) @
     (if ds_eod_flag s then [] else track_error (vd_packets (ds_decoder s)) @ [EndOfDecode])"

lemmas source_track_defs = source_good_def source_rest_def source_due_def

lemma source_popped:
  "source_good (s\<lparr>ds_frame := xs\<rparr>) = source_good s" "source_due (s\<lparr>ds_frame := xs\<rparr>) = source_due s"
  "ds_frame s = x # xs \<Longrightarrow> x # source_rest lr (s\<lparr>ds_frame := xs\<rparr>) = source_rest lr s"
  by (simp_all add: source_track_defs)

text \<open>Before it pops a sample, \<^verbatim>\<open>next\<close> only moves samples into the queue.\<close>

lemma source_next_track:
  assumes "source_good s" "calm lr g"
  shows "\<exists>s' g' msgs. source_next c g s = Done (source_pop s' g' msgs) \<and> source_good s' \<and>
    source_rest lr s' = source_rest lr s \<and> msgs @ source_due s' = source_due s \<and>
    (ds_frame s' = [] \<longrightarrow> source_rest lr s' = [] \<and> source_due s' = [])"
proof (cases "length (ds_frame s) < RODIO_MIN_AUDIO_BUFFER \<and> \<not> ds_eod_flag s")
  case False
  then show ?thesis using assms(1)
    by (intro exI [of _ "s\<lparr>ds_start_flag := False\<rparr>"] exI [of _ g]
        exI [of _ "if ds_start_flag s then [TrackStarted] else []"])
      (auto simp: source_next_def source_track_defs RODIO_MIN_AUDIO_BUFFER_def)
next
  case True
  then have ends: "track_ends (vd_packets (ds_decoder s))" using assms(1) by (simp add: source_good_def)
  obtain d' frame r where
    f: "fill_retry (\<lambda>xs. xs) (VOLUME g) (\<lambda>_. 2 * RODIO_MIN_AUDIO_BUFFER) [] (ds_decoder s) = Some (d', frame, r)"
    and t: "track_fill (\<lambda>xs. xs) lr (2 * RODIO_MIN_AUDIO_BUFFER) [] (vd_packets (ds_decoder s))
      (vd_packets d') frame r"
    using fill_retry_track [OF ends, of "\<lambda>xs. xs" "VOLUME g" "\<lambda>_. 2 * RODIO_MIN_AUDIO_BUFFER" "[]"] assms(2)
    by (auto simp: calm_def)
  let ?s = "s\<lparr>ds_start_flag := False, ds_decoder := d', ds_frame := ds_frame s @ frame,
    ds_eod_flag := (r \<noteq> Inr False)\<rparr>"
  have "\<exists>g'. source_next c g s = Done (source_pop ?s g'
      ((if ds_start_flag s then [TrackStarted] else []) @
       (if r = Inr False then [] else track_error (vd_packets (ds_decoder s)) @ [EndOfDecode])))"
    using True assms(2) f t
    by (cases r) (auto simp: source_next_def source_fill_def take_skip_def calm_def skip_fill_plain
        fill_limit_def track_fill_def Let_def split: if_splits)
  moreover have "source_good ?s \<and> source_rest lr ?s = source_rest lr s \<and>
    (ds_frame ?s = [] \<longrightarrow> source_rest lr ?s = [] \<and> source_due ?s = []) \<and>
    ((if ds_start_flag s then [TrackStarted] else []) @
      (if r = Inr False then [] else track_error (vd_packets (ds_decoder s)) @ [EndOfDecode])) @
      source_due ?s = source_due s"
    using t True by (auto simp: source_track_defs track_fill_def RODIO_MIN_AUDIO_BUFFER_def split: if_splits)
  ultimately show ?thesis by blast
qed

interpretation rodio_track: playback source_call "\<lambda>(c, g). calm lr g" source_good "\<lambda>_. 1" "\<lambda>_. 1"
    "source_rest lr" source_due "[player_msg.Drained]"
  for lr :: "f32 \<times> f32"
proof (unfold_locales, goal_cases)
  case (1 s e)
  then obtain s' g' msgs where n: "source_next (fst e) (snd e) s = Done (source_pop s' g' msgs)"
      "source_good s'" "source_rest lr s' = source_rest lr s" "msgs @ source_due s' = source_due s"
      "ds_frame s' \<noteq> []"
    using source_next_track [of s lr "snd e" "fst e"] by (auto split: prod.splits)
  then obtain x xs where "ds_frame s' = x # xs" by (cases "ds_frame s'") auto
  then show ?case using n
    by (intro exI [of _ "s'\<lparr>ds_frame := xs\<rparr>"] exI [of _ msgs] exI [of _ "[x]"])
      (simp add: source_call_def source_pop_def source_popped min_le_iff_disj)
next
  case (2 s e)
  then obtain s' g' msgs where n: "source_next (fst e) (snd e) s = Done (source_pop s' g' msgs)"
      "source_good s'" "source_rest lr s' = []" "msgs @ source_due s' = source_due s"
      "ds_frame s' = [] \<longrightarrow> source_due s' = []"
    using source_next_track [of s lr "snd e" "fst e"] by (auto split: prod.splits)
  then have "ds_frame s' = []" by (simp add: source_rest_def)
  then show ?case using n by (auto simp: source_call_def source_pop_def)
qed

section \<open>PulseAudio\<close>

lemma raw_samples_Nil [simp]: "raw_samples [] = []"
  by (simp add: raw_samples_def)

text \<open>The bytes asked for, the latency, the capacity of the buffer and the shared state.\<close>

definition write_call ::
    "nat \<times> u64 option \<times> nat \<times> globals \<Rightarrow> pulse_writer \<Rightarrow>
     (pulse_writer \<times> player_msg list \<times> bytes) run" where
  "write_call e w =
     (case e of (len, latency, capacity, g) \<Rightarrow>
        map_run (\<lambda>(w, _, msgs, written). (w, msgs, case written of None \<Rightarrow> [] | Some (bs, _) \<Rightarrow> bs))
          (on_write len latency capacity g w))"

definition writer_good :: "pulse_writer \<Rightarrow> bool" where
  "writer_good w \<longleftrightarrow>
     wr_state w = write_state.Drained \<or>
     wr_state w \<noteq> write_state.Draining \<and> track_ends (vd_packets (wr_decoder w))"

definition writer_rest :: "f32 \<times> f32 \<Rightarrow> pulse_writer \<Rightarrow> bytes" where
  "writer_rest lr w =
     (if wr_state w = write_state.Drained then []
      else wr_buf w @ track_audio raw_samples lr (vd_packets (wr_decoder w)))"

definition writer_due :: "pulse_writer \<Rightarrow> player_msg list" where
  "writer_due w =
     (if wr_state w = Starting then [TrackStarted] else []) @
     (if wr_state w = write_state.Drained then [] else track_error (vd_packets (wr_decoder w)) @ [EndOfDecode])"

lemmas writer_track_defs = writer_good_def writer_rest_def writer_due_def

lemma on_write_track:
  assumes "writer_good w" "calm lr g" "0 < len"
  shows "\<exists>w' g' msgs written. on_write len latency capacity g w = Done (w', g', msgs, written) \<and>
    writer_good w' \<and> msgs @ writer_due w' = writer_due w \<and> writer_rest lr w' = drop len (writer_rest lr w) \<and>
    (case written of None \<Rightarrow> [] | Some (bs, _) \<Rightarrow> bs) = take len (writer_rest lr w) \<and>
    (writer_rest lr w = [] \<longrightarrow> writer_due w' = [])"
proof (cases "wr_state w = write_state.Drained")
  case True
  then show ?thesis by (auto simp: on_write_def writer_track_defs)
next
  case False
  then have ends: "track_ends (vd_packets (wr_decoder w))" and nd: "wr_state w \<noteq> write_state.Draining"
    using assms(1) by (auto simp: writer_good_def)
  obtain d' buf r where
    f: "fill_retry raw_samples (VOLUME g) (\<lambda>_. len) (wr_buf w) (wr_decoder w) = Some (d', buf, r)"
    and t: "track_fill raw_samples lr len (wr_buf w) (vd_packets (wr_decoder w)) (vd_packets d') buf r"
    using fill_retry_track [OF ends, of raw_samples "VOLUME g" "\<lambda>_. len" "wr_buf w"] assms(2)
    by (auto simp: calm_def)
  let ?w = "w\<lparr>wr_state := (if r = Inr False then write_state.Running else write_state.Drained), wr_buf := drop len buf,
    wr_decoder := d'\<rparr>"
  have part: "take len buf = take len (writer_rest lr w)" "writer_rest lr ?w = drop len (writer_rest lr w)"
  proof -
    have "len \<le> length buf \<or> r \<noteq> Inr False" "r \<noteq> Inr False \<longrightarrow> length buf \<le> len"
      using t by (auto simp: track_fill_def split: if_splits)
    with track_fill_split [OF t, of len] False
    show "take len buf = take len (writer_rest lr w)" "writer_rest lr ?w = drop len (writer_rest lr w)"
      by (simp_all add: writer_rest_def del: take_append drop_append)
  qed
  have "\<exists>g' off. on_write len latency capacity g w = Done (?w, g',
      (if wr_state w = Starting then [TrackStarted] else []) @
      (if r = Inr False then [] else track_error (vd_packets (wr_decoder w)) @ [EndOfDecode]),
      if buf = [] then None else Some (take len buf, off))"
  proof -
    let ?w1 = "if wr_state w = Starting then w\<lparr>wr_state := write_state.Running\<rparr> else w"
    let ?m = "if r = Inr False then [] else track_error (vd_packets (wr_decoder w)) @ [EndOfDecode]"
    have run: "wr_state ?w1 = write_state.Running" using False nd by (cases "wr_state w") auto
    have "fill_retry raw_samples (VOLUME g) (\<lambda>_. fill_limit 0 (Some len)) (wr_buf ?w1) (wr_decoder ?w1) =
        Some (d', buf, r)" using f by (simp add: fill_limit_def)
    then have "\<exists>g' off. write_chunk len latency capacity g ?w1 =
        Done (w\<lparr>wr_state := (if r = Inr False then write_state.Running else write_state.Draining),
          wr_buf := drop len buf, wr_decoder := d'\<rparr>, g', ?m,
          if buf = [] then None else Some (take len buf, off))"
      using t run unfolding write_chunk_def
      by (cases r) (auto simp: take_skip_def track_fill_def Let_def min_def split: if_splits)
    then show ?thesis using t False nd unfolding on_write_def
      by (auto simp: run Let_def track_fill_def split: if_splits)
  qed
  then obtain g' off where "on_write len latency capacity g w = Done (?w, g',
      (if wr_state w = Starting then [TrackStarted] else []) @
      (if r = Inr False then [] else track_error (vd_packets (wr_decoder w)) @ [EndOfDecode]),
      if buf = [] then None else Some (take len buf, off))" by blast
  moreover have "writer_good ?w \<and> (writer_rest lr w = [] \<longrightarrow> writer_due ?w = []) \<and>
    ((if wr_state w = Starting then [TrackStarted] else []) @
      (if r = Inr False then [] else track_error (vd_packets (wr_decoder w)) @ [EndOfDecode])) @
      writer_due ?w = writer_due w"
    using t False assms(3) by (auto simp: writer_track_defs track_fill_def split: if_splits)
  moreover have "(case (if buf = [] then None else Some (take len buf, off)) of
      None \<Rightarrow> [] | Some (bs, _) \<Rightarrow> bs) = take len (writer_rest lr w)"
    using part(1) by (cases "buf = []") auto
  ultimately show ?thesis using part(2) by blast
qed

interpretation pulse_track: playback write_call "\<lambda>(len, latency, capacity, g). calm lr g \<and> 0 < len"
    writer_good fst fst "writer_rest lr" writer_due "[]"
  for lr :: "f32 \<times> f32"
proof (unfold_locales, goal_cases)
  case (1 w e)
  obtain len latency capacity g where e: "e = (len, latency, capacity, g)" by (cases e) auto
  from on_write_track [of w lr g len latency capacity] 1 obtain w' g' msgs written where
    "on_write len latency capacity g w = Done (w', g', msgs, written)" "writer_good w'"
    "msgs @ writer_due w' = writer_due w" "writer_rest lr w' = drop len (writer_rest lr w)"
    "(case written of None \<Rightarrow> [] | Some (bs, _) \<Rightarrow> bs) = take len (writer_rest lr w)"
    by (auto simp: e)
  then show ?case by (auto simp: e write_call_def)
next
  case (2 w e)
  obtain len latency capacity g where e: "e = (len, latency, capacity, g)" by (cases e) auto
  from on_write_track [of w lr g len latency capacity] 2 obtain w' g' msgs written where
    "on_write len latency capacity g w = Done (w', g', msgs, written)" "writer_good w'"
    "msgs @ writer_due w' = writer_due w" "writer_rest lr w' = []" "writer_due w' = []"
    "(case written of None \<Rightarrow> [] | Some (bs, _) \<Rightarrow> bs) = []"
    by (auto simp: e)
  then show ?case by (auto simp: e write_call_def)
qed

section \<open>PipeWire\<close>

text \<open>The capacities of the byte buffer, the room in the dequeued buffer, the time of the stream, the
  shared state and the clock.\<close>

type_synonym process_env = "(nat \<Rightarrow> nat) \<times> nat \<times> nat option \<times> pw_time option \<times> globals \<times> pw_clock"

definition process_call ::
    "process_env \<Rightarrow> pw_process \<Rightarrow> (pw_process \<times> player_msg list \<times> bytes) run" where
  "process_call e p =
     (case e of (capacity, capacity', room, time, g, c) \<Rightarrow>
        map_run (\<lambda>(p, _, _, msgs, action). (p, msgs, case action of Queue bs \<Rightarrow> bs | _ \<Rightarrow> []))
          (on_process capacity capacity' room time g c p))"

text \<open>A call hands over what fits, but at most what it has decoded: at least up to the smallest of
  the limits its calls of the decoder may have.\<close>

definition process_most :: "process_env \<Rightarrow> nat" where
  "process_most e = (case e of (_, _, room, _) \<Rightarrow> case room of None \<Rightarrow> 0 | Some n \<Rightarrow> n)"

definition least_limit :: "(nat \<Rightarrow> nat) \<Rightarrow> nat" where
  "least_limit capacity = (INF i. fill_limit (capacity i) None)"

lemma least_limit_le: "least_limit capacity \<le> fill_limit (capacity i) None"
  unfolding least_limit_def by (rule cINF_lower) auto

definition process_least :: "process_env \<Rightarrow> nat" where
  "process_least e = min (process_most e) (least_limit (fst e))"

definition process_good :: "pw_process \<Rightarrow> bool" where
  "process_good p \<longleftrightarrow> pr_state p = Draining \<or> track_ends (vd_packets (pr_decoder p))"

definition process_rest :: "f32 \<times> f32 \<Rightarrow> pw_process \<Rightarrow> bytes" where
  "process_rest lr p =
     pr_buf p @
     (if pr_state p = Draining then [] else track_audio raw_samples lr (vd_packets (pr_decoder p)))"

text \<open>After an error the end of decoding is not announced.\<close>

definition process_due :: "pw_process \<Rightarrow> player_msg list" where
  "process_due p =
     (if pr_state p = Draining then []
      else case track_error (vd_packets (pr_decoder p)) of [] \<Rightarrow> [EndOfDecode] | errors \<Rightarrow> errors)"

lemmas process_track_defs = process_good_def process_rest_def process_due_def

lemma process_decode_track:
  assumes "process_good p" "calm lr g"
  shows "\<exists>p' eod msgs. process_decode capacity g duration_zero p = Done (p', eod, msgs, []) \<and>
    (let q = (if eod \<and> pr_state p' = Running then p'\<lparr>pr_state := Draining\<rparr> else p') in
     process_good q \<and> process_rest lr q = process_rest lr p \<and>
     (msgs @ (if eod \<and> pr_state p' = Running then [EndOfDecode] else [])) @ process_due q = process_due p \<and>
     min (least_limit capacity) (length (process_rest lr p)) \<le> length (pr_buf q) \<and>
     (process_rest lr q = [] \<longrightarrow> process_due q = []))"
proof (cases "pr_state p = Draining")
  case True
  then show ?thesis
    by (intro exI [of _ p] exI [of _ True] exI [of _ "[]"]) (simp add: process_decode_def process_track_defs)
next
  case False
  then have run: "pr_state p = Running" by (cases "pr_state p") auto
  have ends: "track_ends (vd_packets (pr_decoder p))" using assms(1) False by (simp add: process_good_def)
  obtain d' buf r k where
    f: "fill_retry raw_samples (VOLUME g) (\<lambda>i. fill_limit (capacity i) None) (pr_buf p) (pr_decoder p) = Some (d', buf, r)"
    and t: "track_fill raw_samples lr (fill_limit (capacity k) None) (pr_buf p) (vd_packets (pr_decoder p))
      (vd_packets d') buf r"
    using fill_retry_track [OF ends, of raw_samples "VOLUME g" "\<lambda>i. fill_limit (capacity i) None" "pr_buf p"] assms(2)
    by (auto simp: calm_def)
  let ?p = "\<lambda>st. p\<lparr>pr_state := st, pr_buf := buf, pr_decoder := d'\<rparr>"
  have dec: "process_decode capacity g duration_zero p =
    (case r of Inr eod \<Rightarrow> Done (?p Running, eod, [], [])
     | Inl _ \<Rightarrow> Done (?p Draining, True, [NotSupported], []))"
    using run f by (cases r) (simp_all add: process_decode_def process_fill_def skip_fill_plain)
  have pos: "0 < fill_limit (capacity k) None" by (rule fill_limit_positive) simp
  note least = least_limit_le [of capacity k]
  consider "r = Inr False" | "r = Inr True" | e where "r = Inl e" by (cases r) auto
  then show ?thesis
  proof cases
    case 1
    then show ?thesis using dec t run pos least
      by (intro exI [of _ "?p Running"] exI [of _ False] exI [of _ "[]"])
        (simp add: process_track_defs track_fill_def min_def, force)
  next
    case 2
    then show ?thesis using dec t run
      by (intro exI [of _ "?p Running"] exI [of _ True] exI [of _ "[]"])
        (simp add: process_track_defs track_fill_def)
  next
    case 3
    then show ?thesis using dec t run
      by (intro exI [of _ "?p Draining"] exI [of _ True] exI [of _ "[NotSupported]"])
        (simp add: process_track_defs track_fill_def)
  qed
qed

lemma process_queue_track:
  "\<exists>out action. process_queue room p = (p\<lparr>pr_buf := drop (length out) (pr_buf p)\<rparr>, action) \<and>
    (case action of Queue bs \<Rightarrow> bs | _ \<Rightarrow> []) = out \<and> out = take (case room of None \<Rightarrow> 0 | Some n \<Rightarrow> n) (pr_buf p)"
  by (cases p) (auto simp: process_queue_def Let_def min_def split: option.split)

lemma process_decode_skip: "process_decode capacity (g\<lparr>SKIP := skip\<rparr>) = process_decode capacity g"
  by (simp add: process_decode_def fun_eq_iff)

lemma process_call_track:
  assumes "process_good p" "calm lr g" "e = (capacity, capacity', room, time, g, c)"
  shows "\<exists>p' msgs out. process_call e p = Done (p', msgs, out) \<and> process_good p' \<and>
    out @ process_rest lr p' = process_rest lr p \<and> msgs @ process_due p' = process_due p \<and>
    min (process_least e) (length (process_rest lr p)) \<le> length out \<and> length out \<le> process_most e \<and>
    (process_rest lr p = [] \<longrightarrow> process_due p' = [])"
proof -
  obtain p1 eod m1 where dec: "process_decode capacity g duration_zero p = Done (p1, eod, m1, [])"
    and q: "let q = (if eod \<and> pr_state p1 = Running then p1\<lparr>pr_state := Draining\<rparr> else p1) in
     process_good q \<and> process_rest lr q = process_rest lr p \<and>
     (m1 @ (if eod \<and> pr_state p1 = Running then [EndOfDecode] else [])) @ process_due q = process_due p \<and>
     min (least_limit capacity) (length (process_rest lr p)) \<le> length (pr_buf q) \<and>
     (process_rest lr q = [] \<longrightarrow> process_due q = [])"
    using process_decode_track [OF assms(1,2), of capacity] by blast
  define q1 where "q1 = (if eod \<and> pr_state p1 = Running then p1\<lparr>pr_state := Draining\<rparr> else p1)"
  define m where "m = m1 @ (if eod \<and> pr_state p1 = Running then [EndOfDecode] else [])"
  note q = q [folded q1_def m_def, unfolded Let_def]
  obtain out action where out: "process_queue room p1 = (p1\<lparr>pr_buf := drop (length out) (pr_buf p1)\<rparr>, action)"
    "(case action of Queue bs \<Rightarrow> bs | _ \<Rightarrow> []) = out" "out = take (process_most e) (pr_buf p1)"
    using process_queue_track [of room p1] assms(3) by (auto simp: process_most_def)
  have buf: "pr_buf q1 = pr_buf p1" by (simp add: q1_def)
  have "process_decode capacity (g\<lparr>SKIP := duration_zero\<rparr>) duration_zero p = Done (p1, eod, m1, [])"
    using dec by (simp only: process_decode_skip)
  then have "process_call e p = Done (q1\<lparr>pr_buf := drop (length out) (pr_buf p1)\<rparr>, m, out)"
    using assms(2,3) out(2)
    by (simp add: process_call_def on_process_def take_skip_def calm_def q1_def m_def Let_def
        out(1) split: option.split)
  moreover have "process_good (q1\<lparr>pr_buf := drop (length out) (pr_buf p1)\<rparr>)"
    "process_due (q1\<lparr>pr_buf := drop (length out) (pr_buf p1)\<rparr>) = process_due q1"
    using q by (simp_all add: process_good_def process_due_def)
  moreover have "out @ process_rest lr (q1\<lparr>pr_buf := drop (length out) (pr_buf p1)\<rparr>) = process_rest lr q1"
    using out(3) by (simp add: process_rest_def buf min_def)
  moreover have "min (process_least e) (length (process_rest lr p)) \<le> length out" "length out \<le> process_most e"
    using q out(3) assms(3) by (auto simp: process_least_def buf)
  ultimately show ?thesis using q by auto
qed

interpretation pipewire_track: playback process_call "\<lambda>(_, _, _, _, g, _). calm lr g" process_good
    process_least process_most "process_rest lr" process_due "[]"
  for lr :: "f32 \<times> f32"
proof (unfold_locales, goal_cases)
  case (1 p e)
  obtain capacity capacity' room time g c where e: "e = (capacity, capacity', room, time, g, c)"
    by (cases e) auto
  with process_call_track [OF 1(1) _ e, of lr] 1(2) show ?case by blast
next
  case (2 p e)
  obtain capacity capacity' room time g c where e: "e = (capacity, capacity', room, time, g, c)"
    by (cases e) auto
  with process_call_track [OF 2(1) _ e, of lr] 2(2,3) obtain p' msgs out where
    "process_call e p = Done (p', msgs, out)" "process_good p'" "out @ process_rest lr p' = []"
    "msgs @ process_due p' = process_due p" "process_due p' = []" by auto
  then show ?case by auto
qed

section \<open>Tracks from start to end\<close>

text \<open>A stream that ends without an error: after the audio the reader answers that it is at the end,
  as often as it is asked.  What was decoded in advance and what the callback still has to decode
  make up the track.\<close>

lemma track_prefilled:
  assumes "fill_retry raw_samples (VOLUME g) limit [] d = Some (d', buf, Inr eod)"
    and "vd_packets d = ps @ EndOfStream # EndOfStream # rest" "list_all goes_on ps"
    and "volume_pair (VOLUME g) = lr"
  shows "track_ends (vd_packets d')" "track_error (vd_packets d') = []"
    "buf @ track_audio raw_samples lr (vd_packets d') = track_audio raw_samples lr (vd_packets d)"
proof -
  have drop: "dropWhile goes_on (vd_packets d) = EndOfStream # EndOfStream # rest"
    using assms(2,3) by (simp add: list_all_iff dropWhile_append2)
  then have "track_ends (vd_packets d)" by (simp add: track_ends_def)
  from fill_retry_track [OF this, of raw_samples "VOLUME g" limit "[]"] assms(1,4)
  obtain k where t: "track_fill raw_samples lr (limit k) [] (vd_packets d) (vd_packets d') buf (Inr eod)"
    by auto
  have err: "track_error (vd_packets d) = []" using drop by (simp add: track_error_def)
  show "track_ends (vd_packets d')" "track_error (vd_packets d') = []"
    "buf @ track_audio raw_samples lr (vd_packets d') = track_audio raw_samples lr (vd_packets d)"
    using t err drop by (cases eod; simp add: track_fill_def)+
qed

text \<open>\<^bold>\<open>C10\<close> A track played through rodio: asked for one sample after the other, the
  source yields the samples of all decoded packets in order, with the volume applied, and then
  nothing.  The start is announced first, the error that ended the track, if any, and the end of
  decoding once, and last that the queue has run dry.\<close>

theorem rodio_plays_track:
  assumes "track_ends (vd_packets d)"
    and "list_all (\<lambda>(c, g). calm lr g) es" and "calm lr g"
    and "length es = length (track_audio (\<lambda>xs. xs) lr (vd_packets d))"
  shows "\<exists>s1 s2 g2 m1 m2.
    callbacks source_call es (source_new d) = Done (s1, m1, track_audio (\<lambda>xs. xs) lr (vd_packets d)) \<and>
    source_next c g s1 = Done (s2, g2, None, m2) \<and>
    m1 @ m2 = TrackStarted # track_error (vd_packets d) @ [EndOfDecode, player_msg.Drained]"
proof -
  let ?s = "source_new d"
  have start: "source_good ?s" "source_rest lr ?s = track_audio (\<lambda>xs. xs) lr (vd_packets d)"
    "source_due ?s = TrackStarted # track_error (vd_packets d) @ [EndOfDecode]"
    using assms(1) by (simp_all add: source_track_defs source_new_def)
  have "es = [] \<or> sum_list (map (\<lambda>_. 1) (butlast es)) < length (source_rest lr ?s)"
    using assms(4) start(2) by (cases es) (auto simp: sum_list_triv)
  from rodio_track.busy [OF start(1) assms(2) this] obtain s1 m1 out where
    run: "callbacks source_call es ?s = Done (s1, m1, out)" "source_good s1"
      "out @ source_rest lr s1 = source_rest lr ?s" "m1 @ source_due s1 = source_due ?s"
      "length (source_rest lr ?s) \<le> length out"
    using assms(4) start(2) by (auto simp: sum_list_triv)
  have "length out + length (source_rest lr s1) = length (source_rest lr ?s)"
    using arg_cong [OF run(3), of length] by simp
  with run(5) have "length (source_rest lr s1) = 0" by linarith
  then have "source_rest lr s1 = []" by simp
  moreover from this run(3) start(2) have "out = track_audio (\<lambda>xs. xs) lr (vd_packets d)" by simp
  moreover from rodio_track.past_end [OF run(2) _ calculation(1), of "(c, g)"] assms(3)
  obtain s2 where "source_call (c, g) s1 = Done (s2, source_due s1 @ [player_msg.Drained], [])" by auto
  then have "\<exists>s2 g2. source_next c g s1 = Done (s2, g2, None, source_due s1 @ [player_msg.Drained])"
    by (auto simp: source_call_def map_run_Done split: option.splits)
  ultimately show ?thesis using run(1,4) start(3) by (metis append_Cons append_assoc append_Nil)
qed

theorem rodio_plays_track_witness:
  "\<exists>s m. callbacks source_call (replicate 3 (0, initial_globals 0))
     (source_new (sample_decoder [Decoded [1, 2], ResetRequired, Decoded [3], EndOfStream])) =
   Done (s, m, [1, 2, 3])"
proof -
  let ?d = "sample_decoder [Decoded [1, 2], ResetRequired, Decoded [3], EndOfStream]"
  have calm: "calm (f32_one, f32_one) (initial_globals 0)"
    by (simp add: calm_def) (simp add: initial_globals_def)
  have "apply_volume f32_one f32_one [1, 2] = [1, 2]"
    by (rule apply_volume_one) (simp add: f32_mag_def f32_inf_def)
  then have "track_audio (\<lambda>xs. xs) (f32_one, f32_one) (vd_packets ?d) = [1, 2, 3]"
    by (simp del: apply_volume.simps(1))
  with rodio_plays_track [of ?d "(f32_one, f32_one)" "replicate 3 (0, initial_globals 0)"
      "initial_globals 0" 0] calm
  show ?thesis by (auto simp: list_all_iff simp del: callbacks.simps)
qed

text \<open>\<^bold>\<open>C9\<close> A track played through PulseAudio: the write callbacks, if they are asked
  for enough, write the samples of all packets in order, those decoded before the stream was
  connected first, each as four little-endian bytes with the volume applied; they announce the
  start and then the end of decoding, once, and the next underflow reports the end of playing.\<close>

theorem pulse_plays_track:
  assumes "vd_packets d = ps @ EndOfStream # EndOfStream # rest" and "list_all goes_on ps"
    and "fill_retry raw_samples (VOLUME g) limit [] d = Some (d', buf, Inr eod)" and "calm lr g"
    and "list_all (\<lambda>(len, latency, capacity, g). calm lr g \<and> 0 < len) es" and "es \<noteq> []"
    and "length (track_audio raw_samples lr (vd_packets d)) \<le> sum_list (map fst (butlast es))"
  shows "\<exists>w. callbacks write_call es (new_writer buf d') =
      Done (w, [TrackStarted, EndOfDecode],
        concat (map (\<lambda>p. raw_samples (apply_volume (fst lr) (snd lr) (packet_audio p))) ps)) \<and>
    on_underflow w = [player_msg.Drained]"
proof -
  let ?w = "new_writer buf d'"
  note pre = track_prefilled [OF assms(3,1,2), of lr]
  have start: "writer_good ?w" "writer_rest lr ?w = track_audio raw_samples lr (vd_packets d)"
    "writer_due ?w = [TrackStarted, EndOfDecode]"
    using pre assms(4) by (simp_all add: writer_track_defs new_writer_def calm_def)
  have audio: "track_audio raw_samples lr (vd_packets d) =
      concat (map (\<lambda>p. raw_samples (apply_volume (fst lr) (snd lr) (packet_audio p))) ps)"
    using assms(1,2) by (simp add: track_audio_def list_all_iff takeWhile_append2)
  from pulse_track.plays_out [OF start(1) assms(5,6)] assms(7) start(2) obtain w where
    "callbacks write_call es ?w = Done (w, writer_due ?w, writer_rest lr ?w)" "writer_due w = []"
    by auto
  moreover from this(2) have "on_underflow w = [player_msg.Drained]"
    by (simp add: writer_due_def on_underflow_def split: if_splits)
  ultimately show ?thesis using start audio by simp
qed

theorem pulse_plays_track_witness:
  "\<exists>w. callbacks write_call (let e = (3, None, 0, initial_globals 0) in [e, e, e, e])
     (new_writer [1, 0, 0, 0, 2, 0, 0, 0] (sample_decoder [EndOfStream])) =
    Done (w, [TrackStarted, EndOfDecode], [1, 0, 0, 0, 2, 0, 0, 0])"
proof -
  let ?d = "sample_decoder [Decoded [1, 2], EndOfStream, EndOfStream]"
  have raw: "raw_samples (apply_volume f32_one f32_one [1, 2]) = [1, 0, 0, 0, 2, 0, 0, 0]"
    by (subst apply_volume_one)
      (simp_all add: f32_mag_def f32_inf_def raw_samples_def f32_le_bytes_def put_u32_def be_bytes_numerals)
  have fill: "fill_retry raw_samples (VOLUME (initial_globals 0)) (\<lambda>_. 16) [] ?d =
      Some (sample_decoder [EndOfStream], [1, 0, 0, 0, 2, 0, 0, 0], Inr True)"
    using raw by (simp add: fill_retry_step del: apply_volume.simps)
  have calm: "calm (f32_one, f32_one) (initial_globals 0)"
    by (simp add: calm_def) (simp add: initial_globals_def)
  from pulse_plays_track [OF _ _ fill calm, of "[Decoded [1, 2]]" "[]"
      "let e = (3, None, 0, initial_globals 0) in [e, e, e, e]"] raw calm
  show ?thesis by (auto simp: Let_def list_all_iff simp del: callbacks.simps apply_volume.simps)
qed

text \<open>\<^bold>\<open>C11\<close> A track played through PipeWire: the process callbacks, if they are
  given enough room, queue the samples of all packets in order, those decoded before the stream
  was connected first; they announce the end of decoding once, and every callback from then on
  asks the stream to drain.\<close>

theorem pipewire_plays_track:
  assumes "vd_packets d = ps @ EndOfStream # EndOfStream # rest" and "list_all goes_on ps"
    and "fill_retry raw_samples (VOLUME g) limit [] d = Some (d', buf, Inr eod)" and "calm lr g"
    and "list_all (\<lambda>(_, _, _, _, g, _). calm lr g) es" and "es \<noteq> []"
    and "length (track_audio raw_samples lr (vd_packets d)) \<le> sum_list (map process_least (butlast es))"
  shows "\<exists>p. callbacks process_call es (new_process buf d') =
      Done (p, [EndOfDecode],
        concat (map (\<lambda>p. raw_samples (apply_volume (fst lr) (snd lr) (packet_audio p))) ps)) \<and>
    (\<forall>capacity capacity' room time g c. \<exists>g' c'.
       on_process capacity capacity' room time g c p = Done (p, g', c', [], FlushDrain))"
proof -
  let ?p = "new_process buf d'"
  note pre = track_prefilled [OF assms(3,1,2), of lr]
  have start: "process_good ?p" "process_rest lr ?p = track_audio raw_samples lr (vd_packets d)"
    "process_due ?p = [EndOfDecode]"
    using pre assms(4) by (simp_all add: process_track_defs new_process_def calm_def)
  have audio: "track_audio raw_samples lr (vd_packets d) =
      concat (map (\<lambda>p. raw_samples (apply_volume (fst lr) (snd lr) (packet_audio p))) ps)"
    using assms(1,2) by (simp add: track_audio_def list_all_iff takeWhile_append2)
  from pipewire_track.plays_out [OF start(1) assms(5,6)] assms(7) start(2) obtain p where
    run: "callbacks process_call es ?p = Done (p, process_due ?p, process_rest lr ?p)"
      "process_rest lr p = []" "process_due p = []"
    by auto
  from run(2,3) have "pr_buf p = []" "pr_state p = Draining"
    by (auto simp: process_rest_def process_due_def split: if_splits list.splits)
  then have "\<exists>g' c'. on_process capacity capacity' room time g c p = Done (p, g', c', [], FlushDrain)"
    for capacity capacity' room time g c
    by (simp add: on_process_def take_skip_def process_decode_def process_queue_def Let_def)
  then show ?thesis using run(1) start audio by auto
qed

theorem pipewire_plays_track_witness:
  "\<exists>p. callbacks process_call
     (let e = (\<lambda>_. 0, 0, Some 6, None, initial_globals 0,
        \<lparr>ck_duration = 0, ck_start_ticks = None, ck_skip_offset_ms = 0\<rparr>) in [e, e, e])
     (new_process [] (sample_decoder [Decoded [1, 2], EndOfStream, EndOfStream])) =
    Done (p, [EndOfDecode], [1, 0, 0, 0, 2, 0, 0, 0])"
proof -
  let ?d = "sample_decoder [Decoded [1, 2], EndOfStream, EndOfStream]"
  let ?e = "(\<lambda>_. 0, 0, Some 6, None, initial_globals 0,
      \<lparr>ck_duration = 0, ck_start_ticks = None, ck_skip_offset_ms = 0\<rparr>) :: process_env"
  have raw: "raw_samples (apply_volume f32_one f32_one [1, 2]) = [1, 0, 0, 0, 2, 0, 0, 0]"
    by (subst apply_volume_one)
      (simp_all add: f32_mag_def f32_inf_def raw_samples_def f32_le_bytes_def put_u32_def be_bytes_numerals)
  have fill: "fill_retry raw_samples (VOLUME (initial_globals 0)) (\<lambda>_. 0) [] ?d = Some (?d, [], Inr False)"
    by (simp add: fill_retry_step)
  have calm: "calm (f32_one, f32_one) (initial_globals 0)"
    by (simp add: calm_def) (simp add: initial_globals_def)
  have least: "process_least ?e = 6" by (simp add: process_least_def process_most_def least_limit_def fill_limit_def)
  from pipewire_plays_track [OF _ _ fill calm, of "[Decoded [1, 2]]" "[]" "let e = ?e in [e, e, e]"] raw calm least
  show ?thesis by (auto simp: Let_def list_all_iff simp del: callbacks.simps apply_volume.simps)
qed

end
