(* ===== verification/Spec2Isabelle.thy ===== *)
theory Spec2Isabelle
  imports Proto_Properties Unit_Tests Player_System Track_Playback
begin

text \<open>
  \<^bold>\<open>A verification of the Lyrion Music Server player\<close>

  The repository holds two crates.  \<^verbatim>\<open>src/lms-proto\<close> implements the SlimProto protocol between a
  player and a Lyrion Music Server: discovery, the HELO handshake, framing and parsing of server
  messages, serialisation of client messages, the status block, and the buffer between the data
  port and the decoder.  \<^verbatim>\<open>src/vibe\<close> is the player: a protocol thread keeps the connection and
  passes server messages to an event loop; the event loop reacts through handlers that change the
  shared state, drive one of three audio outputs and answer the server; a stream command starts a
  thread that connects to the data port and hands a decoder back to the event loop; the output's
  callbacks pull samples from the decoder and report what happens as messages to the event loop.

  \<^bold>\<open>Theories and sources.\<close>
  \<^item> \<^verbatim>\<open>Vibe_Prelude\<close>, \<^verbatim>\<open>Rust_Text\<close>: machine integers, strings as UTF-8 bytes, I/O results,
    durations, big endian fields, decimal numbers, IPv4 addresses, splitting and trimming; the
    locales \<open>wire_format\<close> (a reader inverts a writer), \<open>invariant\<close> and \<open>simulation\<close> (inductive
    invariants and refinement of step relations).
  \<^item> \<^verbatim>\<open>Status\<close> (\<^verbatim>\<open>lms-proto/src/status.rs\<close>), \<^verbatim>\<open>Client_Messages\<close> and \<^verbatim>\<open>Server_Messages\<close>
    (\<^verbatim>\<open>messages.rs\<close>), \<^verbatim>\<open>Frames\<close> (\<^verbatim>\<open>frames.rs\<close>), \<^verbatim>\<open>Capability\<close> (\<^verbatim>\<open>capability.rs\<close>), \<^verbatim>\<open>Hello\<close>
    (\<^verbatim>\<open>proto.rs\<close>), \<^verbatim>\<open>Discovery\<close> (\<^verbatim>\<open>discovery.rs\<close>).  The parser is \<open>server_message_from\<close>, with
    \<open>None\<close> for a panic; the layout it is compared with is \<open>encode_server\<close>.  The socket is a list
    of the results of its successive calls.
  \<^item> \<^verbatim>\<open>Slim_Buffer\<close> (\<^verbatim>\<open>buffer.rs\<close>): the fill thread and the consumer as interleaved atomic
    steps (\<open>fill_step\<close>, \<open>cons_step\<close>), one per section of code that holds the mutex; \<^verbatim>\<open>Slim_Pipe\<close>:
    the bounded queue it implements.
  \<^item> \<^verbatim>\<open>Proto_Properties\<close>: the properties of the protocol crate.
  \<^item> \<^verbatim>\<open>Float32\<close>: IEEE single precision multiplication, square root and conversion on bit
    patterns; \<^verbatim>\<open>Player_State\<close> (\<^verbatim>\<open>vibe/src/state.rs\<close>): mutexes with poisoning and the three
    shared variables; \<^verbatim>\<open>Decode\<close> (\<^verbatim>\<open>decode.rs\<close>); \<^verbatim>\<open>Notify\<close> (\<^verbatim>\<open>notify.rs\<close>).
  \<^item> \<^verbatim>\<open>Audio_Out\<close> (\<^verbatim>\<open>audio_out.rs\<close>): the trait as a record of functions, the locale
    \<open>audio_contract\<close> with what the event loop relies on, the dispatch over the three outputs and
    the decoding loops they share.  \<^verbatim>\<open>Rodio_Out\<close>, \<^verbatim>\<open>Pulse_Out\<close>, \<^verbatim>\<open>Pipewire_Out\<close>: the outputs,
    each with its interpretation of the contract; their callbacks are functions on the captured
    state.
  \<^item> \<^verbatim>\<open>Player\<close> (\<^verbatim>\<open>message.rs\<close> and the event loop of \<^verbatim>\<open>main.rs\<close>): every handler returns the
    new state and its effects in order; the contract is interpreted for the dynamic dispatch, and
    the lemmas about stopping come from it.  \<^verbatim>\<open>Proto_Run\<close> (\<^verbatim>\<open>vibe/src/proto.rs\<close>): the protocol
    thread turn by turn and the write thread.  \<^verbatim>\<open>Cli\<close> (\<^verbatim>\<open>cli.rs\<close>), \<^verbatim>\<open>Startup\<close>
    (\<^verbatim>\<open>startup.rs\<close>), \<^verbatim>\<open>Main_Loop\<close> (\<^verbatim>\<open>main.rs\<close>): the command line, the unit file, and the loop
    around the event loop.
  \<^item> \<^verbatim>\<open>Track_Playback\<close>: sequences of callbacks; the locale \<open>playback\<close> says what one call hands over
    and what is left, and is interpreted for the callbacks of the three outputs.
  \<^item> \<^verbatim>\<open>Player_System\<close>: the threads of a session as one step relation (\<open>sys_step\<close>): the event loop,
    which takes an event and carries out the effects of its handler one by one, the timer and
    connecting threads, the callbacks of the output, the stream buffer, the protocol thread and a
    write thread for each connection, whose sends may fail or never return, with the three bounded
    channels of \<^verbatim>\<open>main.rs\<close> and the lock of the status block.  A session lasts until the event
    loop takes the notice that the connection is lost.  The locale \<open>posting_contract\<close> extends
    \<open>audio_contract\<close>; the invariant is an interpretation of \<open>invariant\<close>.
  \<^item> \<^verbatim>\<open>Unit_Tests\<close>: the unit tests of \<^verbatim>\<open>messages.rs\<close>, \<^verbatim>\<open>frames.rs\<close> and \<^verbatim>\<open>capability.rs\<close>, evaluated
    on the model.
  \<^item> This theory: the properties of the player and of its parts together.

  \<^bold>\<open>Conventions.\<close>  Words have their width and wrap; a count of elements is a natural number.  A
  \<^verbatim>\<open>Result\<close> is a sum with the error on the left, a panic is \<open>None\<close> of an \<open>exec\<close> or \<open>Panics\<close> of a
  \<open>run\<close>.  Calls into the operating system and into third-party libraries are arguments: a script
  of results for a sequence of calls, or the fields of a record (\<open>rodio_api\<close>, \<open>pulse_api\<close>,
  \<open>pipewire_api\<close>, \<open>symphonia\<close>, \<open>unit_host\<close>).  The capacity of a buffer is asked for again at each
  call of a loop, so it is a function of the number of the call.  A step of a thread is
  possible, not forced: a call that never returns is a step that is not taken.  There is no fuel: a loop over calls of the
  environment ends with its script, and then the result says that it waits (\<open>Waiting\<close>,
  \<open>Waits\<close>, \<open>TurnWaits\<close>), so that a loop that never returns is one that waits on every script.
  Gains are exact rationals, because a 16.16 fixed point number is exact in double precision.

  \<^bold>\<open>What is shown.\<close>
  \<^item> Protocol crate: messages survive any fragmentation of the stream; the parser agrees with the
    layout and fails exactly on malformed frames; client messages and discovery items can be read
    back, and capabilities exactly when no value contains a comma; sending copes with short writes and ends;
    connecting retries with bounded delays and greets once.
  \<^item> Stream buffer: it refines a bounded queue; no byte is lost, duplicated or reordered, no
    wakeup is lost, callback and error happen at most once, the bounds hold, the status block
    tells the truth, and the drop waits at most for a read already in progress.
  \<^item> Decoding and outputs: volumes are the rounded square roots of gains and scale the right
    samples; buffers receive exactly the decoded packets; a whole track comes out of each output
    sample by sample, and is announced, ended and drained once; pausing does not count as play time;
    opening a stream balances the main loop lock except on exactly two paths; a callback that
    meets a skip request beyond the audio that is left never returns.
  \<^item> Threads of a session: the volumes stay between 0 and 1, so nothing is amplified; the clock
    values of the status messages of a connection never decrease, nor do the 32-bit values sent
    before 2^32 milliseconds; once a handler has returned, the event loop can come back for the
    next event unless its own channel is full when it posts to it, or it is severed from the
    server (\<open>severed\<close>: no write thread left, the protocol thread waiting for the event loop); both
    can happen and are final; a timed resume fires when the time since the start of the session
    says so, which is early in the first session and late after a reconnect on the server's clock.
  \<^item> Player: which answers the server gets; stopping silences every output; the protocol
    thread's nested loops equal a cut of the received messages; what a change of server and a lost
    connection lead to; server addresses, unit file and notification.

  \<^bold>\<open>Not modelled.\<close>  Logging; the option grammar, which is attribute data for \<^verbatim>\<open>clap\<close> (its results
  are the record \<open>cli\<close>); the insides of symphonia, rodio, libpulse, pipewire and the notification
  service; the capacity of channels outside \<^verbatim>\<open>Player_System\<close>, where a send does not block; in
  \<^verbatim>\<open>Player_System\<close> the wait of a handler in the middle of its work, for an audio library or its lock
  (a handler is one step and its sends follow), and what comes after the event loop has taken the
  notice of a lost connection, which is \<open>main_loop\<close>; memory allocation (the capacities the code reads are arguments); the format
  description passed to pipewire beyond rate and channels; the unit tests of \<^verbatim>\<open>buffer.rs\<close>, which are
  instances of the properties of the buffer.
\<close>

section \<open>Decoding\<close>

text \<open>\<^bold>\<open>C28\<close> A gain command sets both volumes to the square root of the gain clamped to one: each
  is a number between 0 and 1, right up to $2^{-24}$, for every gain the protocol can carry.\<close>

theorem volume_of_gain:
  fixes p :: "'o player"
  assumes "VOLUME (p_globals p) = Mutex False [a, b]"
  shows "VOLUME (p_globals (fst (on_gain (gain_of l) (gain_of r) p))) =
      Mutex False [gain_volume (gain_of l), gain_volume (gain_of r)] \<and>
    (\<forall>w. 0 \<le> f32_value (gain_volume (gain_of w)) \<and> f32_mag (gain_volume (gain_of w)) \<le> f32_mag f32_one \<and>
       \<bar>f32_value (gain_volume (gain_of w)) - sqrt (of_rat (min (gain_of w) 1))\<bar> \<le> 1 / 2 ^ 24)"
  using assms gain_volume_bounds by (auto simp: on_gain_def f32_value_def)

theorem volume_of_gain_witness:
  "VOLUME (p_globals (fst (on_gain (gain_of 65536) (gain_of 0)
      (sample_player (None :: unit option))))) = Mutex False [f32_one, 0]"
proof -
  have "gain_of 65536 = 1" "gain_of 0 = 0" by (simp_all add: gain_of_def)
  then show ?thesis
    using volume_of_gain [of "sample_player (None :: unit option)" f32_one f32_one 65536 0]
    by (simp add: gain_volume_ends)
qed

text \<open>\<^bold>\<open>C29\<close> Applying the volume keeps the number of samples, scales the even ones by the left and
  the odd ones by the right volume, leaves a last unpaired sample as it is, and changes nothing
  at full volume.  The channel count of the stream plays no part in it.\<close>

theorem volume_applied:
  assumes "volume_pair volume = (left, right)" and "vd_packets d = Decoded xs # ps"
  shows "\<exists>ys. get_audio_buffer volume d = Some (d\<lparr>vd_packets := ps\<rparr>, Inr (Some ys)) \<and>
    length ys = length xs \<and>
    (\<forall>i < length xs. ys ! i =
       (if i < 2 * (length xs div 2) then f32_mul (xs ! i) (if even i then left else right)
        else xs ! i)) \<and>
    (left = f32_one \<and> right = f32_one \<and> list_all (\<lambda>x. f32_mag x \<le> f32_inf) xs \<longrightarrow> ys = xs)"
  using assms nth_apply_volume [of _ xs left right] apply_volume_one [of xs]
  by (simp add: get_audio_buffer_def)

theorem volume_applied_witness:
  "get_audio_buffer initial_volume
     (sample_decoder [Decoded [1, 2, 0x80000003]]) =
   Some (sample_decoder [], Inr (Some [1, 2, 0x80000003]))"
proof -
  have v: "volume_pair initial_volume = (f32_one, f32_one)" by simp
  show ?thesis
    using volume_applied [OF v, of "sample_decoder [Decoded [1, 2, 0x80000003]]" "[1, 2, 0x80000003]" "[]"]
    by (auto simp: f32_mag_def f32_inf_def)
qed

text \<open>\<^verbatim>\<open>fill_raw_buffer\<close> appends the decoded packets in order, each sample as four
  little-endian bytes with the volume applied, and nothing else; it stops with the limit reached,
  at the end of the stream, or at the first reset or error, and says which.\<close>

theorem fill_exact:
  assumes "fill_raw_buffer volume capacity limit buffer d = Some (d', buffer', r)"
    and "volume_pair volume = (left, right)"
  shows "\<exists>audio stop. vd_packets d = map Decoded audio @ stop @ vd_packets d' \<and>
    buffer' = buffer @ concat (map (\<lambda>a. raw_samples (apply_volume left right a)) audio) \<and>
    fill_stop (fill_limit capacity limit) (length buffer') stop r"
  using fill_buffer_spec [OF assms(1) [unfolded fill_raw_buffer_def] assms(2)] by blast

theorem fill_exact_witness:
  "\<exists>d' buffer'. fill_raw_buffer initial_volume 0 (Some 6) []
     (sample_decoder [Decoded [1], EndOfStream]) = Some (d', buffer', Inr True) \<and>
    buffer' = [1, 0, 0, 0]"
proof -
  let ?d = "sample_decoder [Decoded [1], EndOfStream]"
  have v: "volume_pair initial_volume = (f32_one, f32_one)" by simp
  obtain d' buffer' where f: "fill_raw_buffer initial_volume 0 (Some 6) [] ?d = Some (d', buffer', Inr True)"
    and d': "vd_packets d' = []"
    by (simp add: fill_raw_buffer_def fill_limit_def fill_buffer.simps get_audio_buffer_def v
        raw_samples_def f32_le_bytes_def put_u32_def be_bytes_numerals)
  from fill_exact [OF f v] obtain audio stop where
    a: "vd_packets ?d = map Decoded audio @ stop @ vd_packets d'"
      "buffer' = [] @ concat (map (\<lambda>a. raw_samples (apply_volume f32_one f32_one a)) audio)"
      "fill_stop (fill_limit 0 (Some 6)) (length buffer') stop (Inr True)" by blast
  from a(1,3) d' have "map Decoded audio = [Decoded [1]]" by (simp add: fill_stop_def)
  with a(2) have "buffer' = raw_samples [1]" by auto
  then show ?thesis
    using f by (simp add: raw_samples_def f32_le_bytes_def put_u32_def be_bytes_numerals)
qed

text \<open>\<^bold>\<open>C30\<close> The decoder gets exactly the body of the response: header lines of valid UTF-8 up to
  8 KiB each are skipped with the empty line that ends them.\<close>

theorem headers_skipped:
  assumes "list_all header_ok hs"
  shows "skip_headers fin (concat (map (\<lambda>h. h @ [13, 10]) hs) @ [13, 10] @ body) = Inr body"
  using assms by (rule skip_headers_block)

theorem headers_skipped_witness:
  "skip_headers None (as_bytes ''HTTP/1.0 200 OK'' @ [13, 10, 13, 10] @ [1, 2, 3]) = Inr [1, 2, 3]"
proof -
  have "header_ok (as_bytes ''HTTP/1.0 200 OK'')"
    by (auto simp: header_ok_def as_bytes_def byte_of_def intro!: utf8_valid_ascii)
  from headers_skipped [of "[as_bytes ''HTTP/1.0 200 OK'']" None "[1, 2, 3]"] this
  show ?thesis by simp
qed

text \<open>What the connecting thread tells the event loop: nothing but \<open>NotSupported\<close> if the
  data port cannot be reached; otherwise \<open>Connected\<close>, \<open>BufferThreshold\<close> and then the decoder or
  \<open>NotSupported\<close>.  The threshold is announced when the buffer has just been created, without a
  callback and before a byte is in it.\<close>

theorem stream_connect_messages:
  "let opened = make_decoder sy net mss fin st dip cmd h;
       conn = snd (make_tcp_connection net (choose_ip (server_ip cmd) dip) (server_port cmd) h)
   in stream_connect sy net mss fin st dip cmd h =
        (case conn of
           Inl _ \<Rightarrow> [NotSupported]
         | Inr _ \<Rightarrow> [Connected, BufferThreshold,
             case op_result opened of Inr (d, sp) \<Rightarrow> Decoder d sp | Inl _ \<Rightarrow> NotSupported]) \<and>
      (\<forall>b. op_buffer opened = Some b \<longrightarrow>
         buffered b = 0 \<and> \<not> sb_has_cb b \<and> sb_threshold b = threshold cmd \<and> slim_reach b)"
proof -
  have "slim_reach (with_capacity c st thr cb)" for c thr cb
    by (rule reach_init) (auto simp: slim_init_def)
  moreover have "buffered (with_capacity c st thr cb) = 0 \<and> sb_has_cb (with_capacity c st thr cb) = cb \<and>
      sb_threshold (with_capacity c st thr cb) = thr" for c thr cb
    by (simp add: buffered_def with_capacity_def Let_def)
  ultimately show ?thesis
    by (auto simp: stream_connect_def make_decoder_def Let_def split: prod.split sum.split)
qed

theorem stream_connect_messages_witness:
  "stream_connect \<lparr>sy_probe = \<lambda>_ _ _. None, sy_decoder = \<lambda>_ _ _. None\<rparr>
     \<lparr>tc_connect = \<lambda>_ _. Inr (), tc_timeout = Inr (), tc_write1 = WriteOk 2, tc_write2 = WriteOk 4,
      tc_flush = Inr ()\<rparr> [13, 10, 1] None (status_default 0) 1
     (stream_of \<lparr>w_autostart = Auto, w_format = format.Mp3, w_samplesize = Twenty,
      w_samplerate = Rate 44100, w_channels = Stereo, w_endian = Big, w_threshold_kb = 1,
      w_spdif = Off, w_period_s = 3, w_trans = FadeInOut, w_flags = 1, w_output_ds = 2,
      w_reserved = 0, w_gain = 98304, w_port = 9001, w_ip = 0, w_headers = []\<rparr>) [] =
   [Connected, BufferThreshold, NotSupported]"
proof -
  let ?sy = "\<lparr>sy_probe = \<lambda>_ _ _. None, sy_decoder = \<lambda>_ _ _. None\<rparr> :: symphonia"
  let ?net = "\<lparr>tc_connect = \<lambda>_ _. Inr (), tc_timeout = Inr (), tc_write1 = WriteOk 2,
      tc_write2 = WriteOk 4, tc_flush = Inr ()\<rparr> :: tcp_script"
  let ?cmd = "stream_of \<lparr>w_autostart = Auto, w_format = format.Mp3, w_samplesize = Twenty,
      w_samplerate = Rate 44100, w_channels = Stereo, w_endian = Big, w_threshold_kb = 1,
      w_spdif = Off, w_period_s = 3, w_trans = FadeInOut, w_flags = 1, w_output_ds = 2,
      w_reserved = 0, w_gain = 98304, w_port = 9001, w_ip = 0, w_headers = []\<rparr>"
  have conn: "snd (make_tcp_connection ?net ip port h) = Inr ()" for ip port h
    by (simp add: make_tcp_connection_def Let_def)
  have "skip_headers None [13, 10, 1] = Inr [1]" using skip_headers_block [of "[]" None "[1]"] by simp
  then have res: "op_result (make_decoder ?sy ?net [13, 10, 1] None (status_default 0) 1 ?cmd []) =
      Inl ''Unrecognized container format''"
    by (simp add: make_decoder_def Let_def try_new_def case_prod_unfold conn)
  show ?thesis
    using stream_connect_messages [of ?sy ?net "[13, 10, 1]" None "status_default 0" 1 ?cmd "[]"]
    by (simp add: Let_def conn res)
qed

section \<open>Audio outputs\<close>

lemma fill_retry_end:
  assumes "length b < limit 0"
  shows "fill_retry conv v limit b (sample_decoder [EndOfStream]) = Some (sample_decoder [], b, Inr True)"
  using assms
  by (subst fill_retry.simps) (simp add: sample_decoder_def fill_buffer.simps get_audio_buffer_def)

text \<open>The life of a rodio source: the start of the track is announced by the first sample
  request and only by it, the end of decoding when its flag is set and the flag is never cleared,
  so once; and the track is reported drained exactly when no sample can be delivered, which
  happens only after decoding ended.\<close>

theorem rodio_source_life:
  assumes "source_next capacity g s = Done (s', g', sample, msgs)"
  shows "(TrackStarted \<in> set msgs \<longleftrightarrow> ds_start_flag s) \<and> \<not> ds_start_flag s' \<and>
    (EndOfDecode \<in> set msgs \<longleftrightarrow> ds_eod_flag s' \<and> \<not> ds_eod_flag s) \<and>
    (ds_eod_flag s \<longrightarrow> ds_eod_flag s') \<and> (player_msg.Drained \<in> set msgs \<longleftrightarrow> sample = None) \<and>
    (sample = None \<longrightarrow> ds_eod_flag s' \<and> ds_frame s' = [])"
  using source_next_flags [OF assms] by blast

theorem rodio_source_life_witness:
  "\<exists>s' g' msgs. source_next 0 (initial_globals 0) (source_new
     (sample_decoder [EndOfStream])) = Done (s', g', None, msgs) \<and>
    {TrackStarted, EndOfDecode, player_msg.Drained} \<subseteq> set msgs \<and> ds_eod_flag s'"
proof -
  let ?s = "source_new (sample_decoder [EndOfStream])"
  obtain s' g' msgs where n: "source_next 0 (initial_globals 0) ?s = Done (s', g', None, msgs)"
    by (simp add: source_next_def source_new_def RODIO_MIN_AUDIO_BUFFER_def take_skip_def
        initial_globals_def source_fill_def skip_fill_plain fill_limit_def fill_retry_end
        source_pop_def Let_def)
  from rodio_source_life [OF n] n show ?thesis by (auto simp: source_new_def)
qed

lemma length_raw_samples: "length (raw_samples xs) = 4 * length xs"
  by (induction xs) (simp_all add: raw_samples_def f32_le_bytes_def put_u32_def)

text \<open>\<^bold>\<open>C31\<close> A skip request for more than what is left of the stream hangs the audio thread of the
  rodio and the PipeWire output.  The next callback that decodes drops everything that is still in the
  buffer of the callback and everything the reader yields, packet after packet; then it goes on asking the
  reader, however often that answers that the stream has ended or has failed, and does not
  return.  It is a callback that decodes unless decoding had already ended, or, for rodio, its
  queue is still long enough.\<close>

theorem skip_past_end_hangs:
  assumes "length (pr_buf p) + 4 * unread_samples d \<le> 4 * n"
    and "1000 * n < unat (frame_rate d) * as_millis (SKIP g)"
    and "unat (frame_rate d) * as_millis (SKIP g) * 4 < 2 ^ 64"
    and "length (ds_frame s) < RODIO_MIN_AUDIO_BUFFER" and "\<not> ds_eod_flag s"
    and "pr_state p = process_state.Running"
  shows "\<forall>k. let d' = d\<lparr>vd_packets := vd_packets d @ replicate k EndOfStream\<rparr> in
    source_next c g (s\<lparr>ds_decoder := d'\<rparr>) = Waits \<and>
    on_process capacity capacity' room time g clk (p\<lparr>pr_decoder := d'\<rparr>) = Waits"
proof
  fix k
  define d' where "d' = d\<lparr>vd_packets := vd_packets d @ replicate k EndOfStream\<rparr>"
  have d': "unread_samples d' = unread_samples d" "frame_rate d' = frame_rate d"
    by (simp_all add: d'_def unread_samples_def sum_list_replicate)
  have "unat (frame_rate d) * as_millis (SKIP g) * 1 < 2 ^ 64" using assms(3) by linarith
  then have "source_fill (VOLUME g) (SKIP g) d' = Waits"
    unfolding source_fill_def using assms(1,2)
    by (intro skip_fill_past_end [where n = n]) (simp_all add: d')
  moreover have "process_fill capacity (VOLUME g) (SKIP g) (p\<lparr>pr_decoder := d'\<rparr>) = Waits"
    unfolding process_fill_def using assms(1-3)
    by (intro skip_fill_past_end [where n = n]) (simp_all add: d' length_raw_samples)
  ultimately have "source_next c g (s\<lparr>ds_decoder := d'\<rparr>) = Waits"
    "on_process capacity capacity' room time g clk (p\<lparr>pr_decoder := d'\<rparr>) = Waits"
    using assms(4-6) by (simp_all add: source_next_def on_process_def process_decode_def take_skip_def Let_def)
  then show "let d' = d\<lparr>vd_packets := vd_packets d @ replicate k EndOfStream\<rparr> in
    source_next c g (s\<lparr>ds_decoder := d'\<rparr>) = Waits \<and>
    on_process capacity capacity' room time g clk (p\<lparr>pr_decoder := d'\<rparr>) = Waits"
    by (simp add: d'_def Let_def)
qed

theorem skip_past_end_hangs_witness:
  "source_next 0 ((initial_globals 0)\<lparr>SKIP := from_secs 5\<rparr>) (source_new
     (sample_decoder (Decoded [1, 2, 3, 4] # replicate 1000 EndOfStream))) = Waits"
proof -
  let ?d = "sample_decoder [Decoded [1, 2, 3, 4]]"
  let ?p = "\<lparr>pr_state = process_state.Running, pr_buf = [], pr_decoder = ?d, pr_channels = 2,
      pr_rate = 44100\<rparr>"
  have rate: "unat (frame_rate ?d) = 88200"
    by (simp add: frame_rate_def sample_decoder_def channels_def sample_rate_def)
  have ms: "as_millis (from_secs 5) = 5000" by (simp add: as_millis_def from_secs_def)
  show ?thesis
    using skip_past_end_hangs [of ?p ?d 4 "(initial_globals 0)\<lparr>SKIP := from_secs 5\<rparr>" "source_new ?d" 0]
    by (simp add: rate ms source_new_def unread_samples_def RODIO_MIN_AUDIO_BUFFER_def Let_def)
qed

text \<open>The life of a PulseAudio stream: between callbacks the writer is starting, running or
  drained; the start is announced by the first callback, the end of decoding by the callback that
  drains it, which has then written every byte; and the bytes written are those of the packets
  used, in order.\<close>

theorem pulse_writer_life:
  assumes "on_write len latency capacity g w = Done (w', g', msgs, written)"
    and "wr_state w \<noteq> write_state.Draining" and "volume_pair (VOLUME g) = (left, right)"
  shows "wr_state w' \<in> {write_state.Running, write_state.Drained} \<and>
    (TrackStarted \<in> set msgs \<longleftrightarrow> wr_state w = Starting) \<and>
    (EndOfDecode \<in> set msgs \<longleftrightarrow> wr_state w \<noteq> write_state.Drained \<and> wr_state w' = write_state.Drained) \<and>
    (EndOfDecode \<in> set msgs \<longrightarrow> wr_buf w' = []) \<and>
    (\<exists>used. vd_packets (wr_decoder w) = used @ vd_packets (wr_decoder w') \<and>
      wr_buf w @ concat (map (\<lambda>p. raw_samples (apply_volume left right (packet_audio p))) used) =
        (case written of None \<Rightarrow> [] | Some (bytes, _) \<Rightarrow> bytes) @ wr_buf w')"
  using on_write_spec [OF assms] by blast

theorem pulse_writer_life_witness:
  "\<exists>w' g' msgs written. on_write 4096 None 0 (initial_globals 0)
      \<lparr>wr_state = Starting, wr_buf = [1, 2, 3, 4], wr_decoder =
        (sample_decoder [EndOfStream]), wr_rate = 44100, wr_channels = 2\<rparr> =
      Done (w', g', msgs, written) \<and>
    TrackStarted \<in> set msgs \<and> wr_state w' \<in> {write_state.Running, write_state.Drained}"
proof -
  let ?w = "\<lparr>wr_state = Starting, wr_buf = [1, 2, 3, 4], wr_decoder =
        (sample_decoder [EndOfStream]), wr_rate = 44100, wr_channels = 2\<rparr>"
  have v: "volume_pair (VOLUME (initial_globals 0)) = (f32_one, f32_one)" by simp
  obtain w' g' msgs written where n: "on_write 4096 None 0 (initial_globals 0) ?w =
      Done (w', g', msgs, written)"
    by (simp add: on_write_def write_chunk_def fill_limit_def fill_retry_end take_skip_def Let_def)
  from pulse_writer_life [OF n _ v] n show ?thesis by auto
qed

text \<open>A pause does not count as playing time on pipewire, although its graph clock goes on: the
  first callback after the pause reports the time of the pause, and later ones that time and what
  has elapsed since the first.\<close>

theorem pipewire_pause_clock:
  assumes "pipewire_pause api out = (out', ok)" and "pipewire_playing out"
    and "tm_denom t \<noteq> 0" and "tm_denom t2 \<noteq> 0"
  shows "ck_duration (clock_tick t (pw_clk out')) = ck_duration (pw_clk out) \<and>
    ck_duration (clock_tick t2 (clock_tick t (pw_clk out'))) =
      sat_add (elapsed_ms (tm_ticks t2) (tm_ticks t, tm_num t, tm_denom t)) (ck_duration (pw_clk out))"
proof -
  have c: "pw_clk out' = (pw_clk out)\<lparr>ck_skip_offset_ms := ck_duration (pw_clk out),
      ck_start_ticks := None\<rparr>"
    using assms(1,2) by (auto simp: pipewire_pause_def pipewire_playing_def Let_def split: prod.splits)
  show ?thesis
    using clock_after_pause [OF assms(3), of "pw_clk out"] assms(3,4)
    by (simp add: c clock_tick_def Let_def)
qed

theorem pipewire_pause_clock_witness:
  "ck_duration (clock_tick \<lparr>tm_ticks = 1000, tm_num = 1, tm_denom = 48000, tm_queued = 0, tm_delay = 0\<rparr>
     (pw_clk (fst (pipewire_pause sample_pipewire_api
      \<lparr>pw_nodes = Mutex False Map.empty,
       pw_clk = \<lparr>ck_duration = 7, ck_start_ticks = Some (3, 1, 48000), ck_skip_offset_ms = 0\<rparr>,
       pw_next_up = None, pw_playing = Some (), pw_loop_stopped = False, pw_closed = []\<rparr>)))) = 7"
proof -
  let ?api = "sample_pipewire_api"
  let ?out = "\<lparr>pw_nodes = Mutex False Map.empty,
       pw_clk = \<lparr>ck_duration = 7, ck_start_ticks = Some (3, 1, 48000), ck_skip_offset_ms = 0\<rparr>,
       pw_next_up = None, pw_playing = Some (), pw_loop_stopped = False, pw_closed = []\<rparr> :: unit pipewire_output"
  show ?thesis
    using pipewire_pause_clock [of ?api ?out "fst (pipewire_pause ?api ?out)" "snd (pipewire_pause ?api ?out)"
        "\<lparr>tm_ticks = 1000, tm_num = 1, tm_denom = 48000, tm_queued = 0, tm_delay = 0\<rparr>"
        "\<lparr>tm_ticks = 1000, tm_num = 1, tm_denom = 48000, tm_queued = 0, tm_delay = 0\<rparr>"]
    by (simp add: pipewire_playing_def)
qed

text \<open>\<^bold>\<open>C32\<close> Opening a PulseAudio stream leaves the lock of the main loop as it found it, with
  exactly two exceptions: if the library cannot create the stream, or refuses the request to connect
  the stream it has created, the function returns with the lock held once more.  All other
  ways out, an error of the decoder, a stream that fails while it connects and success, release it
  as often as they take it.\<close>

definition opening_refused :: "'s pulse_api \<Rightarrow> vibe_decoder \<Rightarrow> stream_params \<Rightarrow> string option \<Rightarrow> globals \<Rightarrow> bool" where
  "opening_refused api d sp device g =
     (case fill_retry raw_samples (VOLUME g) (\<lambda>i. fill_limit (pa_capacity api
         (max (unat (dur_to_samples d (sp_output_threshold sp))) PULSE_MIN_AUDIO_BUFFER) i) None) [] d of
        Some (d', buf, Inr eod) \<Rightarrow>
          (case pa_stream_new api (sample_rate d') (of_nat (channels d')) of
             None \<Rightarrow> True
           | Some stream \<Rightarrow> isl (pa_connect_playback api device (pa_set_callbacks api (new_writer buf d') stream)))
      | _ \<Rightarrow> False)"

theorem pulse_lock_balance:
  assumes "pulse_enqueue_new_stream api d sp device g out = Done (out', msgs, r)"
  shows "pu_locks out' = pu_locks out + (if opening_refused api d sp device g then 1 else 0)"
proof -
  show ?thesis
    using assms unfolding opening_refused_def pulse_enqueue_new_stream_def
    by (auto simp: connect_stream_def pulse_lock_def pulse_unlock_def pulse_enqueue_def set_cork_state_def
        map_run_Done Let_def split: option.splits sum.splits prod.splits if_splits run.splits)
qed

theorem pulse_lock_balance_witness:
  "\<exists>out'. pulse_enqueue_new_stream
      sample_pulse_api
      (sample_decoder [EndOfStream])
      \<lparr>sp_autostart = Auto, sp_output_threshold = duration_zero\<rparr> None (initial_globals 0)
      \<lparr>pu_locks = 0, pu_loop_stopped = False, pu_playing = None :: unit option, pu_next_up = None,
       pu_closed = []\<rparr> =
    Done (out', [NotSupported], Inr ()) \<and> pu_locks out' = 1"
proof -
  let ?api = "sample_pulse_api"
  let ?d = "sample_decoder [EndOfStream]"
  let ?sp = "\<lparr>sp_autostart = Auto, sp_output_threshold = duration_zero\<rparr>"
  let ?out = "\<lparr>pu_locks = 0, pu_loop_stopped = False, pu_playing = None :: unit option, pu_next_up = None,
       pu_closed = []\<rparr>"
  have run: "pulse_enqueue_new_stream ?api ?d ?sp None (initial_globals 0) ?out =
    Done (?out\<lparr>pu_locks := 1\<rparr>, [NotSupported], Inr ())"
    by (simp add: sample_pulse_api_def pulse_enqueue_new_stream_def fill_retry_end fill_limit_def pulse_lock_def Let_def)
  have "opening_refused ?api ?d ?sp None (initial_globals 0)"
    by (simp add: opening_refused_def fill_retry_end fill_limit_def sample_pulse_api_def)
  with pulse_lock_balance [OF run] run show ?thesis by simp
qed

section \<open>The player\<close>

text \<open>What the server is told in answer to each of its messages: a timer status to a status
  request, a flush to stop and flush, a pause or a resume to an immediate pause or unpause that the
  output carried out, and nothing otherwise.\<close>

theorem server_reply_codes:
  assumes "handle_server_message ops make_out now msg p = Done (p', effs)"
    and "STATUS (p_globals p) = Mutex False st"
  shows "map fst (stats effs) = map show_status_code (reply ops msg p)"
  using assms by (rule handle_server_reply)

theorem server_reply_codes_witness:
  "\<forall>api :: (unit, unit) rodio_api.
    \<exists>p' effs. handle_server_message (rodio_ops api) (\<lambda>_ _. Panics) 5 Stop (sample_player None) =
      Done (p', effs) \<and> map fst (stats effs) = [''STMf'']"
proof
  fix api :: "(unit, unit) rodio_api"
  obtain p' effs where h: "handle_server_message (rodio_ops api) (\<lambda>_ _. Panics) 5 Stop
      (sample_player None) = Done (p', effs)"
    by (simp add: handle_server_message_def) (metis prod.collapse)
  from server_reply_codes [OF h sample_player_parts(1)] h
  show "\<exists>p' effs. handle_server_message (rodio_ops api) (\<lambda>_ _. Panics) 5 Stop (sample_player None) =
      Done (p', effs) \<and> map fst (stats effs) = [''STMf'']" by (auto simp: show_status_code_def)
qed

text \<open>\<^bold>\<open>C33\<close> After a stop, whichever output is in use, the play time is zero and the output is idle.
  Until a new stream is enqueued, a pause request and an immediate unpause request from the server,
  and the unpause of a timer, change nothing and send nothing.  A timed unpause request changes
  nothing either, but it starts its timer all the same; the unpause the timer posts has no
  effect, and then its thread reports \<^verbatim>\<open>STMr\<close>, that playback has resumed, to the server.\<close>

theorem stop_silences_output:
  assumes "on_stop (dyn_ops (pulse_ops pa) (pipewire_ops px) (rodio_ops ra)) now p = (p', effs)"
  defines "ops \<equiv> dyn_ops (pulse_ops pa) (pipewire_ops px) (rodio_ops ra)"
  shows "current_play_time ops p' = duration_zero \<and> on_pause ops t d p' = (p', []) \<and>
    on_player_unpause ops t p' = (p', []) \<and>
    on_unpause ops t d p' = (p', if duration_is_zero d then []
      else [ResumeTimer (duration_saturating_sub d (Duration (t - p_start_time p'))) duration_zero]) \<and>
    (\<not> poisoned (STATUS (p_globals p')) \<longrightarrow>
       map fst (stats (snd (status_message t' (set_elapsed duration_zero) Resume p'))) = [''STMr''])"
proof -
  note silent = dyn.stop_silences [OF assms(1), folded ops_def]
  have "on_unpause ops t d p' = (p', [])" if "duration_is_zero d"
    using that dyn.stop_silences(3) [OF assms(1), folded ops_def]
    by (metis duration.exhaust_sel duration_is_zero_def duration_zero_def)
  then have "on_unpause ops t d p' = (p', if duration_is_zero d then []
      else [ResumeTimer (duration_saturating_sub d (Duration (t - p_start_time p'))) duration_zero])"
    using silent(1) by (simp add: on_unpause_def)
  moreover have "map fst (stats (snd (status_message t' (set_elapsed duration_zero) Resume p'))) = [''STMr'']"
    if clean: "\<not> poisoned (STATUS (p_globals p'))"
  proof -
    obtain st where "STATUS (p_globals p') = Mutex False st"
      using clean by (cases "STATUS (p_globals p')") auto
    then show ?thesis by (simp add: status_message_open Let_def show_status_code_def)
  qed
  ultimately show ?thesis using silent(1,2,4) by blast
qed

theorem stop_silences_output_witness:
  "\<forall>(pa :: unit pulse_api) (px :: unit pipewire_api) (ra :: (unit, unit) rodio_api).
    let ops = dyn_ops (pulse_ops pa) (pipewire_ops px) (rodio_ops ra);
        p' = fst (on_stop ops 5
               (sample_player (Some (RodioOut \<lparr>ro_device = (), ro_playing = Some ()\<rparr>))))
    in on_player_unpause ops 6 p' = (p', [])"
  unfolding Let_def using stop_silences_output [OF prod.collapse [symmetric]] by blast

section \<open>The connection\<close>

text \<open>\<^bold>\<open>C34\<close> A \<^verbatim>\<open>serv\<close> command to a usable address ends the session: the event loop gets the messages
  before it (without \<^verbatim>\<open>serv\<close> commands) and the notice of the loss, and the protocol thread turns
  to the new server, announces the reconnect and the sync group.  If that connection fails it tries
  the same server again, but has forgotten the sync group; and the thread that the event loop starts
  on the notice goes to the configured server, not to the new one.\<close>

theorem server_switch:
  assumes "choose_sock cf tn ps = Some sock"
    and "connect (run_hello cf (tn_status tn) ps) (tn_net tn sock) = ConnectReturns out (Inr buf)"
    and "session buf (tn_reads tn) = (pre @ Serv ip sgid # post, fin)"
    and "list_all (\<lambda>m. \<not> switches m) pre" and "\<not> serv_refused ip"
  shows "\<exists>ps'. tu_end (run_turn cf tn ps) = NextTurn ps' \<and>
    tu_events (run_turn cf tn ps) = map Some (filter (\<lambda>m. \<not> is_serv m) pre) @ [None] \<and>
    choose_sock cf tn' ps' = Some (ip, SLIM_PORT) \<and>
    h_reconnect (run_hello cf st ps') \<and> h_caps (run_hello cf st ps') = run_caps cf sgid \<and>
    (\<forall>o' e. connect (run_hello cf (tn_status tn') ps') (tn_net tn' (ip, SLIM_PORT)) = ConnectReturns o' (Inl e) \<longrightarrow>
       (\<exists>ps''. tu_end (run_turn cf tn' ps') = NextTurn ps'' \<and>
          choose_sock cf tn'' ps'' = Some (ip, SLIM_PORT) \<and> h_caps (run_hello cf st ps'') = run_caps cf None)) \<and>
    (\<forall>s. cf_server cf = Some s \<longrightarrow> choose_sock cf tn' (proto_init True) = Some s)"
proof -
  let ?ps = "ps\<lparr>ps_sync_group_id := sgid, ps_new_server_sock := Some (ip, SLIM_PORT), ps_reconnect := True\<rparr>"
  have loop: "serv_loop buf (tn_reads tn) =
      (map Some (filter (\<lambda>m. \<not> is_serv m) pre) @ [None], ServSwitch ip sgid)"
    using serv_batch_switch [OF assms(4,5)] assms(3) by (simp add: serv_loop_session)
  note t = run_turn_session [OF assms(1,2) loop]
  have "choose_sock cf tn' ?ps = Some (ip, SLIM_PORT)" by simp
  from run_turn_refused [OF this] show ?thesis
    by (intro exI [of _ ?ps] conjI) (auto simp: t choose_sock_def proto_init_def)
qed

theorem server_switch_witness:
  "\<exists>ps'. tu_end (run_turn sample_config
      (sample_turn [ReadOk (server_frame (encode_server (WServ 7 [])))]) (proto_init False)) = NextTurn ps' \<and>
    choose_sock sample_config (sample_turn []) ps' = Some (7, SLIM_PORT)"
proof -
  let ?f = "encode_server (WServ 7 [])"
  let ?tn = "sample_turn [ReadOk (server_frame ?f)]"
  have m: "server_message_from ?f = Some (Serv 7 None)"
    using server_message_from_encode [of "WServ 7 []"] by simp
  have len: "length ?f = 8" by simp
  then have ne: "?f \<noteq> []" by (metis list.size(3) zero_neq_numeral)
  have good: "good_body ?f" using m len server_message_from_Error [of ?f] by (simp add: good_body_def)
  have "frames_of (server_frame ?f) = ([?f], [])"
    using frames_of_stream [of "[?f]" "[]"] len ne by (simp add: frames_of_none del: encode_server.simps)
  with session_frames [of "[ReadOk (server_frame ?f)]" "[]"] good ne
  have "session [] (tn_reads ?tn) = ([Serv 7 None], Waiting [])"
    by (simp add: frames_of_none received_def m server_frame_def del: encode_server.simps)
  then have ses: "session [] (tn_reads ?tn) = ([] @ Serv 7 None # [], Waiting [])" by simp
  have "\<not> serv_refused 7"
    by (simp add: serv_refused_def is_unspecified_def is_broadcast_def is_multicast_def)
  from server_switch [OF sample_turn_parts(3) sample_connect ses _ this,
      of "sample_turn []" "tn_status (sample_turn [])" "sample_turn []"]
  show ?thesis by (simp del: encode_server.simps) blast
qed

text \<open>\<^bold>\<open>C35\<close> A frame of one to three bytes from the server ends the program: the protocol thread
  panics, its end of the channel goes away, and the event loop returns with the error.\<close>

theorem short_frame_ends_player:
  assumes "choose_sock cf tn ps = Some sock"
    and "connect (run_hello cf (tn_status tn) ps) (tn_net tn sock) = ConnectReturns out (Inr [])"
    and "tn_reads tn = ReadOk (server_frame b @ tail) # rs" and "b \<noteq> []" and "length b < 4"
  shows "turn_events (run_turn cf tn ps) = [SlimClosed] \<and>
    event_step ops make_out now SlimClosed p = Done (Exit, [])"
  using assms serv_loop_short_frame [OF assms(4,5), of tail rs]
  by (simp add: run_turn_def turn_events_def event_step_def Let_def)

theorem short_frame_ends_player_witness:
  "turn_events (run_turn sample_config (sample_turn [ReadOk [0, 1, 9]]) (proto_init False)) = [SlimClosed]"
proof -
  have reads: "tn_reads (sample_turn [ReadOk [0, 1, 9]]) = ReadOk (server_frame [9] @ []) # []"
    by (simp add: server_frame_def put_u16_def be_bytes_numerals)
  show ?thesis
    by (rule short_frame_ends_player [OF sample_turn_parts(3) sample_connect reads, THEN conjunct1])
      simp_all
qed

text \<open>\<^bold>\<open>C38\<close> Server addresses are read as they are printed: an address with a port, an address alone
  with the protocol's port, and a host name with or without a port, which is looked up and yields
  the first IPv4 address.\<close>

theorem server_address_parsed:
  assumes "CHR '':'' \<notin> set host" and "parse_ipv4 host = None"
    and "dns host = Addrs addrs # ls" and "first_v4 port addrs = Some (a, port)"
    and "first_v4 SLIM_PORT addrs = Some (a, SLIM_PORT)"
  shows "parse_server_addr now dns (show_ipv4 ip @ '':'' @ show_nat (unat port)) t = Some (Inr (ip, port)) \<and>
    parse_server_addr now dns (show_ipv4 ip) t = Some (Inr (ip, SLIM_PORT)) \<and>
    parse_server_addr now dns (host @ '':'' @ show_nat (unat port)) t = Some (Inr (a, port)) \<and>
    parse_server_addr now dns host t = Some (Inr (a, SLIM_PORT))"
proof -
  have c: "parse_ipv4 (host @ '':'' @ show_nat (unat port)) = None" by (rule parse_ipv4_colon) simp
  show ?thesis
    unfolding parse_server_addr_def parse_socket_addr_show
      parse_socket_addr_no_colon [OF colon_not_in_show_ipv4] parse_socket_addr_no_colon [OF assms(1)]
      parse_socket_addr_host [OF assms(1,2)] c host_and_port_port host_and_port_plain [OF assms(1)]
      parse_show_ipv4 assms(2)
    by (simp add: resolve_with_retry_def assms(3-5))
qed

theorem server_address_parsed_witness:
  "parse_server_addr 0 (\<lambda>_. [Addrs [IpV6, IpV4 5]]) (''lms'' @ '':'' @ show_nat (unat (9000 :: u16))) None =
    Some (Inr (5, 9000))"
proof -
  have "parse_ipv4 ''lms'' = None" by (simp add: parse_ipv4_def parse_octet_def digit_val_def)
  from server_address_parsed [OF _ this, of "\<lambda>_. [Addrs [IpV6, IpV4 5]]" "[IpV6, IpV4 5]" "[]" 9000 5]
  show ?thesis by simp
qed

text \<open>\<^bold>\<open>C36\<close> The nested loops of the protocol thread, which read, decode, pass on and break out at the
  first usable \<^verbatim>\<open>serv\<close> command, do the same as taking everything the connection delivers and
  cutting it there.\<close>

theorem serv_loop_equivalent:
  "serv_loop buf rs =
    (let (ms, fin) = session buf rs;
         (kept, rest) = (takeWhile (\<lambda>m. \<not> switches m) ms, dropWhile (\<lambda>m. \<not> switches m) ms);
         passed = map Some (filter (\<lambda>m. \<not> is_serv m) kept)
     in case rest of
          Serv ip sgid # _ \<Rightarrow> (passed @ [None], ServSwitch ip sgid)
        | _ \<Rightarrow> (case fin of
                 Waiting _ \<Rightarrow> (passed, ServWaiting)
               | Panicked \<Rightarrow> (passed, ServPanicked)
               | Closed _ \<Rightarrow> (passed @ [None], ServLost)))"
proof (cases "session buf rs")
  case (Pair ms fin)
  have kept: "list_all (\<lambda>m. \<not> switches m) (takeWhile (\<lambda>m. \<not> switches m) ms)"
    by (auto simp: list_all_iff dest: set_takeWhileD)
  show ?thesis
  proof (cases "dropWhile (\<lambda>m. \<not> switches m) ms")
    case Nil
    then have all: "takeWhile (\<lambda>m. \<not> switches m) ms = ms" by (metis append_Nil2 takeWhile_dropWhile_id)
    then have "serv_batch ms = (map Some (filter (\<lambda>m. \<not> is_serv m) ms), None)"
      by (intro serv_batch_stay kept [unfolded all])
    then show ?thesis unfolding serv_loop_session Pair prod.case Let_def Nil all
      by (simp split: session_end.split)
  next
    case (Cons m post)
    then have "switches m" by (metis hd_dropWhile list.discI list.sel(1))
    then obtain ip sgid where m: "m = Serv ip sgid" "\<not> serv_refused ip"
      by (cases m) auto
    have "ms = takeWhile (\<lambda>m. \<not> switches m) ms @ Serv ip sgid # post"
      using Cons m takeWhile_dropWhile_id [of "\<lambda>m. \<not> switches m" ms] by simp
    then have "serv_batch ms = (map Some (filter (\<lambda>m. \<not> is_serv m)
        (takeWhile (\<lambda>m. \<not> switches m) ms)) @ [None], Some (ip, sgid))"
      using serv_batch_switch [OF kept m(2)] by metis
    then show ?thesis using Pair Cons m by (simp add: serv_loop_session)
  qed
qed

section \<open>The program\<close>




text \<open>\<^bold>\<open>C39\<close> The command line in the unit file starts this program with the options given, each value
  in quotes, provided no value contains an opening brace; the audio system is named exactly when
  the build has a choice.\<close>

theorem unit_file_command:
  assumes "uh_which host = Inr path" and "uh_config_dir host = Some dir"
    and "uh_create_dir_all host (path_join dir ''systemd/user'') = Inr ()"
    and "uh_write host = (\<lambda>_ _. Inr ())"
    and "\<forall>s \<in> set_option server. CHR ''{'' \<notin> set s" and "\<forall>d \<in> set_option device. CHR ''{'' \<notin> set d"
    and "CHR ''{'' \<notin> set sys"
  shows "\<exists>printed. create_systemd_unit fs host server sys device =
    Inr (path_join (path_join dir ''systemd/user'') ''vibe.service'',
      unit_head @ path @
      (case server of Some s \<Rightarrow> quoted_option ''server'' s | None \<Rightarrow> []) @
      (if several_systems fs then quoted_option ''system'' sys else []) @
      (case device of Some d \<Rightarrow> quoted_option ''device'' d | None \<Rightarrow> []) @ unit_tail, printed)"
proof -
  have dev: "CHR ''{'' \<notin> set (case device of Some d \<Rightarrow> quoted_option ''device'' d | None \<Rightarrow> [])"
    using assms(6) quoted_option_no_brace [of "''device''"] by (cases device) auto
  have sys: "CHR ''{'' \<notin> set (if several_systems fs then quoted_option ''system'' sys else [])"
    using assms(7) quoted_option_no_brace [of "''system''" sys] by simp
  have srv: "CHR ''{'' \<notin> set (case server of Some s \<Rightarrow> quoted_option ''server'' s | None \<Rightarrow> [])"
    using assms(5) quoted_option_no_brace [of "''server''"] by (cases server) auto
  show ?thesis
    using assms(1-4) unit_text_parts [OF dev sys srv, of path]
    by (simp add: create_systemd_unit_def unit_text_def SERVICE_FILE_NAME_def Let_def)
qed

theorem unit_file_command_witness:
  "\<exists>file printed. create_systemd_unit \<lparr>feat_pulse = True, feat_pipewire = False, feat_rodio = False\<rparr>
      \<lparr>uh_which = Inr ''/bin/vibe'', uh_config_dir = Some ''/c'', uh_create_dir_all = \<lambda>_. Inr (),
       uh_write = \<lambda>_ _. Inr ()\<rparr> (Some ''lms'') ''pulse'' None =
    Inr (file, unit_head @ ''/bin/vibe'' @ quoted_option ''server'' ''lms'' @ unit_tail, printed)"
  using unit_file_command [of "\<lparr>uh_which = Inr ''/bin/vibe'', uh_config_dir = Some ''/c'',
      uh_create_dir_all = \<lambda>_. Inr (), uh_write = \<lambda>_ _. Inr ()\<rparr>" "''/bin/vibe''" "''/c''" "Some ''lms''" None
      "''pulse''" "\<lparr>feat_pulse = True, feat_pipewire = False, feat_rodio = False\<rparr>"]
  by (auto simp: several_systems_def)

text \<open>\<^bold>\<open>C40\<close> The notification shows, for each field, the last tag that states it, or else the first that
  stands in for it: an album artist before an artist, a recording date before any other year,
  whatever their order in the stream.  Without a title there is none.\<close>

theorem notification_shown:
  "notify ts =
    map_option (\<lambda>track.
      \<lparr>nt_summary = ''Now playing'',
       nt_body = ''<b>'' @ track @ ''</b>'' @ tag_text '' by <b>'' ''</b>'' (pick ''artist'' ts) @
         tag_text '' from <b>'' ''</b>'' (pick ''album'' ts) @ tag_text '' ('' '')'' (pick ''year'' ts),
       nt_icon = ''emblem-music-symbolic'', nt_timeout = 6000\<rparr>) (pick ''track'' ts)"
  by (simp add: notify_def notify_tags_pick Let_def split: option.split)

end
